(* ===== verification/Prelude.thy ===== *)
theory Prelude
  imports Complex_Main "HOL-Library.Char_ord" "HOL-Library.List_Lexorder"
begin

text \<open>
  The vocabulary the components share: the string operations of Python that the source
  uses (strings are ASCII character lists), dictionaries as association lists in insertion
  order, sorted sets, and the collections of rules the component proofs draw on.
\<close>

named_theorems frame_rules \<open>rules for what a computation appends to the trace\<close>
named_theorems run_simps \<open>equations that run one step of a computation\<close>
named_theorems yield_rules \<open>rules for what the result of a computation satisfies\<close>

section \<open>Dictionaries\<close>

text \<open>A Python dict keeps insertion order, and assigning to a present key keeps its place.\<close>

type_synonym ('k, 'v) dict = "('k \<times> 'v) list"

fun dict_set :: "'k \<Rightarrow> 'v \<Rightarrow> ('k, 'v) dict \<Rightarrow> ('k, 'v) dict" where
  "dict_set k v [] = [(k, v)]"
| "dict_set k v ((k', v') # d) =
     (if k = k' then (k, v) # d else (k', v') # dict_set k v d)"

abbreviation dict_get :: "('k, 'v) dict \<Rightarrow> 'k \<Rightarrow> 'v option" where
  "dict_get \<equiv> map_of"

definition dict_keys :: "('k, 'v) dict \<Rightarrow> 'k list" where
  "dict_keys d = map fst d"

text \<open>A dict comprehension assigns its pairs from left to right, so the last one wins.\<close>

definition dict_of_pairs :: "('k \<times> 'v) list \<Rightarrow> ('k, 'v) dict" where
  "dict_of_pairs ps = fold (\<lambda>(k, v) d. dict_set k v d) ps []"

lemma map_of_dict_set [simp]: "map_of (dict_set k v d) = (map_of d)(k \<mapsto> v)"
  by (induction d) auto

lemma map_of_fold_dict_set:
  "map_of (fold (\<lambda>(k, v) d. dict_set k v d) ps d) = map_of d ++ map_of (rev ps)"
  by (induction ps arbitrary: d) (auto simp: map_add_def fun_eq_iff split: option.splits)

lemma map_of_dict_of_pairs [simp]: "map_of (dict_of_pairs ps) = map_of (rev ps)"
  by (simp add: dict_of_pairs_def map_of_fold_dict_set)

lemma keys_dict_set: "fst ` set (dict_set k v d) = insert k (fst ` set d)"
proof (induction d)
  case (Cons p d)
  then show ?case by (cases p) (auto simp: image_iff split: if_splits)
qed simp

lemma distinct_dict_set:
  "distinct (map fst d) \<Longrightarrow> distinct (map fst (dict_set k v d))"
proof (induction d)
  case (Cons p d)
  then show ?case by (cases p) (simp add: keys_dict_set)
qed simp

lemma map_of_rev_is_Some: "k \<in> fst ` set ps \<Longrightarrow> \<exists>v. map_of (rev ps) k = Some v"
  by (metis image_set map_of_eq_None_iff not_None_eq rev_map set_rev)

section \<open>Lists\<close>

lemma distinct_if_count_le_1: "(\<forall>x \<in> set xs. count_list xs x \<le> 1) \<Longrightarrow> distinct xs"
proof (induction xs)
  case (Cons x xs)
  have "count_list xs x = 0" using Cons.prems by simp
  moreover have "count_list xs y \<le> 1" if "y \<in> set xs" for y
  proof -
    have "count_list (x # xs) y \<le> 1" using Cons.prems that by simp
    moreover have "count_list xs y \<le> count_list (x # xs) y" by simp
    ultimately show ?thesis by (rule order_trans [rotated])
  qed
  ultimately show ?case using Cons.IH by (simp add: count_list_0_iff)
qed simp

lemma count_le_1_if_distinct: "distinct xs \<Longrightarrow> count_list xs x \<le> 1"
  by (induction xs) auto

section \<open>Sorted sets\<close>

text \<open>\<open>sorted(s)\<close> of a set of strings; Python orders strings by code point, as \<open>char\<close> does.\<close>

abbreviation py_sorted :: "string set \<Rightarrow> string list" where
  "py_sorted \<equiv> sorted_list_of_set"

text \<open>\<open>sorted\<close> of a list keeps duplicates.\<close>

lemma py_sorted_empty_iff: "finite A \<Longrightarrow> py_sorted A = [] \<longleftrightarrow> A = {}"
  by simp

section \<open>Characters and strings\<close>

definition is_space :: "char \<Rightarrow> bool" where
  "is_space c \<longleftrightarrow> c \<in> {CHR '' '', CHR 0x09, CHR 0x0A, CHR 0x0B, CHR 0x0C, CHR 0x0D,
     CHR 0x1C, CHR 0x1D, CHR 0x1E, CHR 0x1F}"

definition is_line_end :: "char \<Rightarrow> bool" where
  "is_line_end c \<longleftrightarrow> c \<in> {CHR 0x0A, CHR 0x0B, CHR 0x0C, CHR 0x0D,
     CHR 0x1C, CHR 0x1D, CHR 0x1E}"

definition digit_chars :: string where
  "digit_chars = ''0123456789''"

definition is_digit :: "char \<Rightarrow> bool" where
  "is_digit c \<longleftrightarrow> c \<in> set digit_chars"

definition lstrip_ws :: "string \<Rightarrow> string" where
  "lstrip_ws s = dropWhile is_space s"

definition rstrip_ws :: "string \<Rightarrow> string" where
  "rstrip_ws s = rev (dropWhile is_space (rev s))"

text \<open>\<open>s.strip()\<close>\<close>

definition strip :: "string \<Rightarrow> string" where
  "strip s = rstrip_ws (lstrip_ws s)"

text \<open>\<open>s.lstrip(c)\<close> and \<open>s.rstrip(c)\<close> for one character\<close>

definition lstrip_char :: "char \<Rightarrow> string \<Rightarrow> string" where
  "lstrip_char c s = dropWhile (\<lambda>x. x = c) s"

definition rstrip_char :: "char \<Rightarrow> string \<Rightarrow> string" where
  "rstrip_char c s = rev (dropWhile (\<lambda>x. x = c) (rev s))"

text \<open>\<open>s.startswith(p)\<close> and \<open>s.endswith(p)\<close>\<close>

fun startswith :: "string \<Rightarrow> string \<Rightarrow> bool" where
  "startswith s [] = True"
| "startswith [] (p # ps) = False"
| "startswith (c # s) (p # ps) = (c = p \<and> startswith s ps)"

definition endswith :: "string \<Rightarrow> string \<Rightarrow> bool" where
  "endswith s p = startswith (rev s) (rev p)"

text \<open>\<open>p in s\<close> on strings\<close>

fun contains :: "string \<Rightarrow> string \<Rightarrow> bool" where
  "contains p [] = (p = [])"
| "contains p (c # s) = (startswith (c # s) p \<or> contains p s)"

text \<open>\<open>s.split()\<close>: the maximal runs of non-blank characters\<close>

fun split_aux :: "string \<Rightarrow> string \<Rightarrow> string list" where
  "split_aux cur [] = (if cur = [] then [] else [rev cur])"
| "split_aux cur (c # s) =
     (if is_space c then (if cur = [] then split_aux [] s else rev cur # split_aux [] s)
      else split_aux (c # cur) s)"

definition split :: "string \<Rightarrow> string list" where
  "split s = split_aux [] s"

text \<open>\<open>s.splitlines()\<close>: a carriage return and the line feed after it are one line end\<close>

fun splitlines_aux :: "string \<Rightarrow> string \<Rightarrow> string list" where
  "splitlines_aux cur [] = (if cur = [] then [] else [rev cur])"
| "splitlines_aux cur (c # s) =
     (if c = CHR 0x0D then
        rev cur # (case s of [] \<Rightarrow> splitlines_aux [] []
                   | d # s' \<Rightarrow> if d = CHR 0x0A then splitlines_aux [] s' else splitlines_aux [] s)
      else if is_line_end c then rev cur # splitlines_aux [] s
      else splitlines_aux (c # cur) s)"

definition splitlines :: "string \<Rightarrow> string list" where
  "splitlines s = splitlines_aux [] s"

text \<open>\<open>s.partition(c)\<close>, the parts before and after the first \<open>c\<close>\<close>

definition partition_char :: "char \<Rightarrow> string \<Rightarrow> string \<times> string" where
  "partition_char c s = (takeWhile (\<lambda>x. x \<noteq> c) s, drop 1 (dropWhile (\<lambda>x. x \<noteq> c) s))"

text \<open>\<open>sep.join(parts)\<close>\<close>

fun join :: "string \<Rightarrow> string list \<Rightarrow> string" where
  "join sep [] = []"
| "join sep [p] = p"
| "join sep (p # q # ps) = p @ sep @ join sep (q # ps)"

text \<open>\<open>s.isdigit()\<close> and \<open>int(s)\<close> on a string of digits\<close>

definition isdigit :: "string \<Rightarrow> bool" where
  "isdigit s \<longleftrightarrow> s \<noteq> [] \<and> list_all is_digit s"

fun digit_val_in :: "string \<Rightarrow> int \<Rightarrow> char \<Rightarrow> int" where
  "digit_val_in [] n c = 0"
| "digit_val_in (d # ds) n c = (if c = d then n else digit_val_in ds (n + 1) c)"

definition digit_val :: "char \<Rightarrow> int" where
  "digit_val c = digit_val_in digit_chars 0 c"

definition int_of_digits :: "string \<Rightarrow> int" where
  "int_of_digits s = foldl (\<lambda>a c. 10 * a + digit_val c) 0 s"

section \<open>Formatting\<close>

text \<open>\<open>str(n)\<close> of an integer\<close>

fun show_nat :: "nat \<Rightarrow> string" where
  "show_nat n =
     (if n < 10 then [digit_chars ! n] else show_nat (n div 10) @ [digit_chars ! (n mod 10)])"

declare show_nat.simps [simp del]

definition show_int :: "int \<Rightarrow> string" where
  "show_int i = (if i < 0 then CHR ''-'' # show_nat (nat (- i)) else show_nat (nat i))"

definition show_bool :: "bool \<Rightarrow> string" where
  "show_bool b = (if b then ''True'' else ''False'')"

text \<open>An f-string shows an absent value as \<open>None\<close>.\<close>

definition show_opt :: "('a \<Rightarrow> string) \<Rightarrow> 'a option \<Rightarrow> string" where
  "show_opt f x = (case x of None \<Rightarrow> ''None'' | Some v \<Rightarrow> f v)"

text \<open>\<open>repr(s)\<close>: single quotes unless the string has a single quote and no double quote\<close>

abbreviation backslash :: char where
  "backslash \<equiv> CHR 0x5C"

definition hex_chars :: string where
  "hex_chars = ''0123456789abcdef''"

definition repr_char :: "char \<Rightarrow> char \<Rightarrow> string" where
  "repr_char q c =
     (if c = q \<or> c = backslash then [backslash, c]
      else if c = CHR 0x0A then [backslash, CHR ''n'']
      else if c = CHR 0x0D then [backslash, CHR ''r'']
      else if c = CHR 0x09 then [backslash, CHR ''t'']
      else if of_char c < (32::nat) \<or> of_char c = (127::nat) then
        [backslash, CHR ''x'', hex_chars ! (of_char c div 16), hex_chars ! (of_char c mod 16)]
      else [c])"

definition py_repr :: "string \<Rightarrow> string" where
  "py_repr s =
     (let q = (if CHR 0x27 \<in> set s \<and> CHR 0x22 \<notin> set s then CHR 0x22 else CHR 0x27)
      in [q] @ concat (map (repr_char q) s) @ [q])"

definition repr_list :: "string list \<Rightarrow> string" where
  "repr_list xs = ''['' @ join '', '' (map py_repr xs) @ '']''"

definition newline :: string where
  "newline = [CHR 0x0A]"

section \<open>Truth of optional strings\<close>

text \<open>\<open>if s:\<close> on an optional string: neither \<open>None\<close> nor the empty string\<close>

definition truthy :: "string option \<Rightarrow> bool" where
  "truthy s \<longleftrightarrow> s \<noteq> None \<and> s \<noteq> Some []"

text \<open>\<open>s or d\<close> on strings\<close>

definition or_else :: "string \<Rightarrow> string \<Rightarrow> string" where
  "or_else s d = (if s = [] then d else s)"

lemma truthy_simps [simp]: "\<not> truthy None" "truthy (Some s) \<longleftrightarrow> s \<noteq> []"
  by (auto simp: truthy_def)

lemma truthyE: "truthy x \<Longrightarrow> (\<And>s. x = Some s \<Longrightarrow> s \<noteq> [] \<Longrightarrow> P) \<Longrightarrow> P"
  by (cases x) auto

section \<open>Facts on strings\<close>

lemma startswith_iff: "startswith s p \<longleftrightarrow> (\<exists>t. s = p @ t)"
  by (induction s p rule: startswith.induct) auto

lemma startswith_append [simp]: "startswith (p @ t) p"
  by (auto simp: startswith_iff)

lemma contains_iff: "contains p s \<longleftrightarrow> (\<exists>a b. s = a @ p @ b)"
proof (induction s)
  case Nil
  show ?case by simp
next
  case (Cons c s)
  show ?case
  proof
    assume "contains p (c # s)"
    then consider "startswith (c # s) p" | "contains p s" by auto
    then show "\<exists>a b. c # s = a @ p @ b"
    proof cases
      case 1
      then show ?thesis by (metis append_Nil startswith_iff)
    next
      case 2
      then show ?thesis using Cons.IH by (metis append_Cons)
    qed
  next
    assume "\<exists>a b. c # s = a @ p @ b"
    then obtain a b where ab: "c # s = a @ p @ b" by blast
    show "contains p (c # s)"
    proof (cases a)
      case Nil
      with ab have "startswith (c # s) p" by (metis append_Nil startswith_iff)
      then show ?thesis by simp
    next
      case (Cons x a')
      with ab have "s = a' @ p @ b" by simp
      then show ?thesis using Cons.IH by auto
    qed
  qed
qed

lemma split_aux_no_space:
  "(\<forall>c \<in> set cur. \<not> is_space c) \<Longrightarrow> p \<in> set (split_aux cur s) \<Longrightarrow>
   p \<noteq> [] \<and> (\<forall>c \<in> set p. \<not> is_space c)"
proof (induction cur s rule: split_aux.induct)
  case (1 cur)
  then show ?case by (cases "cur = []") auto
next
  case (2 cur c s)
  consider "is_space c" "cur = []" | "is_space c" "cur \<noteq> []" "p = rev cur"
    | "is_space c" "cur \<noteq> []" "p \<in> set (split_aux [] s)" | "\<not> is_space c"
    using "2.prems"(2) by (auto split: if_splits)
  then show ?case
  proof cases
    case 1
    with "2.IH"(1) "2.prems" show ?thesis by simp
  next
    case 2
    with "2.prems" show ?thesis by simp
  next
    case 3
    with "2.IH"(2) show ?thesis by simp
  next
    case 4
    with "2.IH"(3) "2.prems" show ?thesis by simp
  qed
qed

lemma split_words: "p \<in> set (split s) \<Longrightarrow> p \<noteq> [] \<and> (\<forall>c \<in> set p. \<not> is_space c)"
  using split_aux_no_space [of "[]" p s] by (simp add: split_def)

lemma split_aux_nonempty: "cur \<noteq> [] \<Longrightarrow> split_aux cur s \<noteq> []"
  by (induction cur s rule: split_aux.induct) auto

lemma split_aux_Nil_iff: "split_aux [] s = [] \<longleftrightarrow> (\<forall>c \<in> set s. is_space c)"
proof (induction s)
  case (Cons c s)
  then show ?case using split_aux_nonempty [of "[c]" s] by simp
qed simp

lemma strip_Nil_iff: "strip s = [] \<longleftrightarrow> (\<forall>c \<in> set s. is_space c)"
proof -
  have "strip s = [] \<longleftrightarrow> (\<forall>c \<in> set (dropWhile is_space s). is_space c)"
    by (simp add: strip_def rstrip_ws_def lstrip_ws_def dropWhile_eq_Nil_conv)
  also have "\<dots> \<longleftrightarrow> dropWhile is_space s = []"
    by (metis empty_iff empty_set hd_dropWhile hd_in_set)
  also have "\<dots> \<longleftrightarrow> (\<forall>c \<in> set s. is_space c)"
    by (simp add: dropWhile_eq_Nil_conv)
  finally show ?thesis .
qed

text \<open>So \<open>s.split()[0]\<close> never raises once \<open>s.strip()\<close> is not empty.\<close>

lemma strip_nonempty_split: "strip s \<noteq> [] \<Longrightarrow> split s \<noteq> []"
  by (simp add: strip_Nil_iff split_def split_aux_Nil_iff)

lemma digit_val_bounds: "0 \<le> digit_val c \<and> digit_val c \<le> 9"
  by (simp add: digit_val_def digit_chars_def)

lemma int_of_digits_nonneg: "0 \<le> int_of_digits s"
proof -
  have "0 \<le> a \<Longrightarrow> 0 \<le> foldl (\<lambda>a c. 10 * a + digit_val c) a s" for a
    by (induction s arbitrary: a) (auto simp: digit_val_bounds)
  then show ?thesis by (simp add: int_of_digits_def)
qed

lemma digit_val_nth: "n < 10 \<Longrightarrow> digit_val (digit_chars ! n) = int n"
proof -
  assume "n < 10"
  then have "n = 0 \<or> n = 1 \<or> n = 2 \<or> n = 3 \<or> n = 4 \<or> n = 5 \<or> n = 6 \<or> n = 7 \<or> n = 8 \<or> n = 9"
    by presburger
  then show ?thesis by (elim disjE) (simp_all add: digit_val_def digit_chars_def)
qed

lemma is_digit_nth: "n < 10 \<Longrightarrow> is_digit (digit_chars ! n)"
  unfolding is_digit_def by (rule nth_mem) (simp add: digit_chars_def)

lemma int_of_digits_snoc: "int_of_digits (s @ [c]) = 10 * int_of_digits s + digit_val c"
  by (simp add: int_of_digits_def)

lemma int_of_digits_show_nat: "int_of_digits (show_nat n) = int n"
proof (induction n rule: show_nat.induct)
  case (1 n)
  show ?case
  proof (cases "n < 10")
    case True
    then show ?thesis
      by (simp add: show_nat.simps [of n] int_of_digits_def digit_val_nth)
  next
    case False
    with "1.IH" have "int_of_digits (show_nat (n div 10)) = int (n div 10)" by simp
    with False have "int_of_digits (show_nat n) = 10 * int (n div 10) + int (n mod 10)"
      by (simp add: show_nat.simps [of n] int_of_digits_snoc digit_val_nth)
    also have "\<dots> = int n" by presburger
    finally show ?thesis .
  qed
qed

lemma isdigit_show_nat: "isdigit (show_nat n)"
proof (induction n rule: show_nat.induct)
  case (1 n)
  then show ?case
    by (cases "n < 10") (auto simp: show_nat.simps [of n] isdigit_def is_digit_nth)
qed

end
