(* ===== verification/Audit_Log.thy ===== *)
theory Audit_Log
  imports Prelude
begin

text \<open>
  The audit log of \<open>audit.py\<close>: a SQLite table \<open>events\<close> with an autoincrement key. A row is
  its key and the entry; the JSON text of the column \<open>detail\<close> is kept as the value it
  encodes, since the log writes it with \<open>json.dumps\<close> and reads it with \<open>json.loads\<close>. The
  clock is the injected \<open>clock\<close>: \<open>al_clock al n\<close> is what its call for row \<open>n\<close> returns.
\<close>

section \<open>JSON values\<close>

datatype json =
    JNull
  | JBool bool
  | JInt int
  | JNum rat
  | JStr string
  | JList "json list"
  | JObj "(string \<times> json) list"

definition json_opt :: "('a \<Rightarrow> json) \<Rightarrow> 'a option \<Rightarrow> json" where
  "json_opt f x = (case x of None \<Rightarrow> JNull | Some v \<Rightarrow> f v)"

definition json_strs :: "string list \<Rightarrow> json" where
  "json_strs xs = JList (map JStr xs)"

section \<open>The log\<close>

text \<open>The keyword arguments of \<open>record\<close>, which are the columns of a row after its key and time\<close>

record audit_entry =
  en_operation :: string
  en_cluster :: string
  en_node :: string
  en_mode :: string
  en_allowed :: bool
  en_detail :: "json option"

record audit_row =
  row_id :: nat
  row_ts :: string
  row_entry :: audit_entry

record audit_log =
  al_rows :: "audit_row list"
  al_last_id :: nat
  al_clock :: "nat \<Rightarrow> string"

text \<open>\<open>AuditLog.__init__\<close> and \<open>_init\<close> on a database that has no table yet\<close>

definition audit_init :: "(nat \<Rightarrow> string) \<Rightarrow> audit_log" where
  "audit_init clock = \<lparr>al_rows = [], al_last_id = 0, al_clock = clock\<rparr>"

text \<open>\<open>AuditLog.record\<close>: insert one row, return its key\<close>

definition audit_record :: "audit_entry \<Rightarrow> audit_log \<Rightarrow> nat \<times> audit_log" where
  "audit_record e al =
     (let i = Suc (al_last_id al);
          row = \<lparr>row_id = i, row_ts = al_clock al i, row_entry = e\<rparr>
      in (i, al\<lparr>al_rows := al_rows al @ [row], al_last_id := i\<rparr>))"

text \<open>
  \<open>AuditLog.recent\<close>: \<open>ORDER BY id DESC LIMIT ?\<close>, with the filter on the node when one is
  given; SQLite reads a negative limit as no limit. The keys are not returned.
\<close>

definition audit_recent :: "string option \<Rightarrow> int \<Rightarrow> audit_log \<Rightarrow> (string \<times> audit_entry) list" where
  "audit_recent node limit al =
     (let rows = (if truthy node then filter (\<lambda>r. Some (en_node (row_entry r)) = node) (al_rows al)
                  else al_rows al);
          desc = rev (sort_key row_id rows)
      in map (\<lambda>r. (row_ts r, row_entry r)) (if limit < 0 then desc else take (nat limit) desc))"

section \<open>Invariant\<close>

text \<open>Keys grow strictly in insertion order and none is above the last one given out.\<close>

definition audit_ok :: "audit_log \<Rightarrow> bool" where
  "audit_ok al \<longleftrightarrow>
     sorted_wrt (<) (map row_id (al_rows al)) \<and>
     list_all (\<lambda>r. 0 < row_id r \<and> row_id r \<le> al_last_id al) (al_rows al)"

lemma audit_ok_init: "audit_ok (audit_init c)"
  by (simp add: audit_ok_def audit_init_def)

lemma audit_record_rows:
  "al_rows (snd (audit_record e al)) =
     al_rows al @ [\<lparr>row_id = Suc (al_last_id al),
       row_ts = al_clock al (Suc (al_last_id al)), row_entry = e\<rparr>]"
  by (simp add: audit_record_def Let_def)

lemma audit_record_fields [simp]:
  "al_last_id (snd (audit_record e al)) = Suc (al_last_id al)"
  "fst (audit_record e al) = Suc (al_last_id al)"
  "al_clock (snd (audit_record e al)) = al_clock al"
  by (simp_all add: audit_record_def Let_def)

lemma audit_ok_record: "audit_ok al \<Longrightarrow> audit_ok (snd (audit_record e al))"
  by (auto simp: audit_ok_def audit_record_rows sorted_wrt_append list_all_iff le_Suc_eq
      less_Suc_eq_le)

lemma audit_ok_sorted: "audit_ok al \<Longrightarrow> sorted (map row_id (al_rows al))"
  by (simp add: audit_ok_def strict_sorted_iff)

lemma sort_rows: "audit_ok al \<Longrightarrow> sort_key row_id (filter P (al_rows al)) = filter P (al_rows al)"
  by (intro sort_key_id_if_sorted) (simp add: audit_ok_sorted sorted_filter)

text \<open>What \<open>recent\<close> shows: the matching rows from the newest to the oldest\<close>

definition newest_first :: "string option \<Rightarrow> audit_log \<Rightarrow> (string \<times> audit_entry) list" where
  "newest_first node al =
     rev (map (\<lambda>r. (row_ts r, row_entry r))
       (filter (\<lambda>r. truthy node \<longrightarrow> Some (en_node (row_entry r)) = node) (al_rows al)))"

lemma audit_recent_eq:
  assumes "audit_ok al"
  shows "audit_recent node limit al =
    (if limit < 0 then newest_first node al else take (nat limit) (newest_first node al))"
proof (cases "truthy node")
  case True
  then show ?thesis
    by (simp add: audit_recent_def newest_first_def Let_def sort_rows [OF assms] rev_map take_map)
next
  case False
  then show ?thesis
    using sort_rows [OF assms, of "\<lambda>_. True"]
    by (simp add: audit_recent_def newest_first_def Let_def rev_map take_map)
qed

section \<open>The interface the operations rely on\<close>

text \<open>
  What every client of the log uses of it: a record is kept, at the end, and nothing
  recorded before is changed or lost.
\<close>

locale event_store =
  fixes put :: "'e \<Rightarrow> 's \<Rightarrow> 's"
    and entries :: "'s \<Rightarrow> 'e list"
    and ok :: "'s \<Rightarrow> bool"
  assumes entries_put: "ok s \<Longrightarrow> entries (put e s) = entries s @ [e]"
    and ok_put: "ok s \<Longrightarrow> ok (put e s)"
begin

lemma ok_puts: "ok s \<Longrightarrow> ok (fold put es s)"
  by (induction es arbitrary: s) (auto intro: ok_put)

lemma entries_puts: "ok s \<Longrightarrow> entries (fold put es s) = entries s @ es"
  by (induction es arbitrary: s) (auto simp: entries_put ok_put)

end

definition audit_put :: "audit_entry \<Rightarrow> audit_log \<Rightarrow> audit_log" where
  "audit_put e al = snd (audit_record e al)"

definition audit_entries :: "audit_log \<Rightarrow> audit_entry list" where
  "audit_entries al = map row_entry (al_rows al)"

interpretation audit_store: event_store audit_put audit_entries audit_ok
  by unfold_locales (simp_all add: audit_put_def audit_entries_def audit_record_rows audit_ok_record)

section \<open>Properties of the log\<close>

lemma newest_first_put:
  "newest_first None (audit_put e al) =
     (al_clock al (Suc (al_last_id al)), e) # newest_first None al"
  by (simp add: newest_first_def audit_put_def audit_record_rows)

lemma newest_first_puts:
  "map snd (newest_first None (fold audit_put es al)) = rev es @ map snd (newest_first None al)"
  by (induction es arbitrary: al) (simp_all add: newest_first_put)

lemma audit_ok_empty_store: "audit_ok (fold audit_put es (audit_init c))"
  by (rule audit_store.ok_puts [OF audit_ok_init])

text \<open>
  C17. Recording any entries, in any order, into a new log and then asking for the last
  \<open>limit\<close> of them returns exactly the newest \<open>limit\<close> entries, newest first, each with the
  operation, node, mode, verdict and detail it was recorded with.
\<close>

theorem audit_recent_returns_newest:
  assumes "0 \<le> limit"
  shows "map snd (audit_recent None limit (fold audit_put es (audit_init c))) =
    take (nat limit) (rev es)"
  using assms newest_first_puts [of es "audit_init c"]
  by (simp add: audit_recent_eq [OF audit_ok_empty_store] take_map [symmetric])
    (simp add: newest_first_def audit_init_def)

theorem audit_recent_returns_newest_witness:
  "map snd (audit_recent None 1 (fold audit_put
      [\<lparr>en_operation = ''upgrade'', en_cluster = ''c'', en_node = ''n'', en_mode = ''dry-run'',
        en_allowed = True, en_detail = None\<rparr>,
       \<lparr>en_operation = ''restart_node'', en_cluster = ''c'', en_node = ''n'', en_mode = ''execute'',
        en_allowed = True, en_detail = None\<rparr>] (audit_init (\<lambda>n. ''t'')))) =
   [\<lparr>en_operation = ''restart_node'', en_cluster = ''c'', en_node = ''n'', en_mode = ''execute'',
     en_allowed = True, en_detail = None\<rparr>]"
  by (subst audit_recent_returns_newest) simp_all

end
