(* ===== verification/Config.thy ===== *)
theory Config
  imports Prelude
begin

text \<open>
  The fleet configuration of \<open>config.py\<close>: one record per pydantic model, with its validators
  as functions that return the model or the message of the \<open>ValueError\<close> they raise. A node
  and a build host share what the executor needs of a target (\<open>host\<close> and \<open>ssh\<close>), so a node
  is a record extension of an SSH target.
\<close>

section \<open>The models\<close>

record ssh_config =
  ssh_user :: string
  ssh_port :: int
  ssh_key_file :: "string option"

definition default_ssh :: ssh_config where
  "default_ssh = \<lparr>ssh_user = ''sol'', ssh_port = 22, ssh_key_file = None\<rparr>"

record service_config =
  svc_unit :: string
  svc_binary :: string
  svc_version_marker :: "string option"
  svc_ledger :: string
  svc_accounts :: string
  svc_geyser_lib :: "string option"
  svc_run_user :: string
  svc_identity_keypair :: string
  svc_vote_account_keypair :: "string option"
  svc_geyser_config :: "string option"

definition default_service :: service_config where
  "default_service =
     \<lparr>svc_unit = ''solana-validator'', svc_binary = ''/usr/local/bin/agave-validator'',
      svc_version_marker = None, svc_ledger = ''/mnt/ledger'', svc_accounts = ''/mnt/accounts'',
      svc_geyser_lib = None, svc_run_user = ''sol'',
      svc_identity_keypair = ''/etc/solana-validator/identity.json'',
      svc_vote_account_keypair = None, svc_geyser_config = None\<rparr>"

datatype fs = Ext4 | Xfs | Tmpfs

record disk_config =
  dk_device :: string
  dk_mount :: string
  dk_fs :: fs
  dk_format :: bool
  dk_min_size_gb :: "int option"
  dk_size_gb :: "int option"

definition default_sysctl :: "(string, int) dict" where
  "default_sysctl =
     [(''net.core.rmem_max'', 134217728), (''net.core.wmem_max'', 134217728),
      (''net.core.rmem_default'', 134217728), (''net.core.wmem_default'', 134217728),
      (''vm.max_map_count'', 1000000), (''fs.nr_open'', 1000000)]"

record system_tuning =
  st_open_files :: int
  st_sysctl :: "(string, int) dict"
  st_cpu_governor :: "string option"

definition default_system :: system_tuning where
  "default_system = \<lparr>st_open_files = 1000000, st_sysctl = default_sysctl,
     st_cpu_governor = Some ''performance''\<rparr>"

record launch_config =
  lc_rpc_port :: int
  lc_rpc_bind_address :: string
  lc_private_rpc :: bool
  lc_full_rpc_api :: bool
  lc_no_voting :: bool
  lc_limit_ledger_size :: "int option"
  lc_enable_rpc_tx_history :: bool
  lc_extra_args :: "string list"

definition default_launch :: launch_config where
  "default_launch = \<lparr>lc_rpc_port = 8899, lc_rpc_bind_address = ''127.0.0.1'',
     lc_private_rpc = True, lc_full_rpc_api = True, lc_no_voting = True,
     lc_limit_ledger_size = Some 100000000, lc_enable_rpc_tx_history = True, lc_extra_args = []\<rparr>"

datatype role = Rpc | Validator

definition role_name :: "role \<Rightarrow> string" where
  "role_name r = (case r of Rpc \<Rightarrow> ''rpc'' | Validator \<Rightarrow> ''validator'')"

text \<open>What the executor needs of a target, and a build host, which has nothing else\<close>

record ssh_target =
  host :: string
  ssh :: ssh_config

type_synonym builder_host = ssh_target

record node = ssh_target +
  n_name :: string
  n_role :: role
  n_rpc_url :: "string option"
  n_identity :: "string option"
  n_service :: service_config
  n_disks :: "disk_config list"
  n_system :: system_tuning
  n_launch :: launch_config

text \<open>A node given by the fields that have no default\<close>

definition basic_node :: "string \<Rightarrow> role \<Rightarrow> string \<Rightarrow> string option \<Rightarrow> string option \<Rightarrow> node" where
  "basic_node nm r h url ident =
     \<lparr>host = h, ssh = default_ssh, n_name = nm, n_role = r, n_rpc_url = url, n_identity = ident,
      n_service = default_service, n_disks = [], n_system = default_system,
      n_launch = default_launch\<rparr>"

datatype strategy = Build | Prebuilt

datatype build_source = Agave | Jito

definition source_name :: "build_source \<Rightarrow> string" where
  "source_name s = (case s of Agave \<Rightarrow> ''agave'' | Jito \<Rightarrow> ''jito'')"

record install_config =
  in_strategy :: strategy
  in_builder :: "string option"
  in_source :: build_source
  in_agave_repo :: string
  in_geyser_repo :: "string option"
  in_geyser_ref :: "string option"
  in_artifact_cache :: string

definition default_install :: install_config where
  "default_install = \<lparr>in_strategy = Build, in_builder = None, in_source = Agave,
     in_agave_repo = ''https://github.com/anza-xyz/agave'', in_geyser_repo = None,
     in_geyser_ref = None, in_artifact_cache = ''/var/cache/solfleet/artifacts''\<rparr>"

record solana_network =
  net_entrypoints :: "string list"
  net_known_validators :: "string list"
  net_expected_genesis_hash :: "string option"

record cluster =
  cl_reference_rpc :: string
  cl_install :: "install_config option"
  cl_network :: "solana_network option"
  cl_nodes :: "node list"

record eject_when =
  ew_slot_lag :: "int option"
  ew_unhealthy :: bool
  ew_delinquent :: bool

definition default_eject_when :: eject_when where
  "default_eject_when = \<lparr>ew_slot_lag = None, ew_unhealthy = True, ew_delinquent = False\<rparr>"

record pool =
  pl_record :: string
  pl_cluster :: string
  pl_members :: "string list"
  pl_ttl :: int
  pl_eject_when :: eject_when

datatype dns_provider = Cloudflare | Route53

record dns_config =
  dn_provider :: dns_provider
  dn_zone :: string
  dn_pools :: "pool list"

record fleet =
  fl_clusters :: "(string, cluster) dict"
  fl_builders :: "(string, builder_host) dict"
  fl_dns :: "dns_config option"

section \<open>The validators\<close>

text \<open>\<open>Node.check_role_fields\<close>\<close>

definition check_role_fields :: "node \<Rightarrow> string + node" where
  "check_role_fields n =
     (if n_role n = Rpc \<and> \<not> truthy (n_rpc_url n) then
        Inl (''node '' @ n_name n @ '': role=rpc requires rpc_url'')
      else if n_role n = Validator \<and> \<not> truthy (n_identity n) then
        Inl (''node '' @ n_name n @ '': role=validator requires identity'')
      else Inr n)"

text \<open>\<open>InstallConfig.check_builder\<close>\<close>

definition check_builder :: "install_config \<Rightarrow> string + install_config" where
  "check_builder i =
     (if in_strategy i = Build \<and> \<not> truthy (in_builder i) then
        Inl ''install.strategy=build requires install.builder''
      else Inr i)"

text \<open>\<open>Cluster.check_unique_names\<close>\<close>

definition check_unique_names :: "cluster \<Rightarrow> string + cluster" where
  "check_unique_names c =
     (let names = map n_name (cl_nodes c);
          dupes = {n \<in> set names. count_list names n > 1}
      in if dupes \<noteq> {} then Inl (''duplicate node names: '' @ repr_list (py_sorted dupes))
         else Inr c)"

text \<open>\<open>Fleet.check_builders_exist\<close>: the loop stops at the first cluster it rejects\<close>

fun check_builders_in :: "(string, cluster) dict \<Rightarrow> fleet \<Rightarrow> string + fleet" where
  "check_builders_in [] f = Inr f"
| "check_builders_in ((name, c) # cs) f =
     (case cl_install c of
        None \<Rightarrow> check_builders_in cs f
      | Some i \<Rightarrow>
          if in_strategy i = Build \<and> truthy (in_builder i)
             \<and> the (in_builder i) \<notin> set (dict_keys (fl_builders f)) then
            Inl (''cluster '' @ name @ '': install.builder '' @ py_repr (the (in_builder i))
                 @ '' is not defined in the top-level builders: map'')
          else check_builders_in cs f)"

definition check_builders_exist :: "fleet \<Rightarrow> string + fleet" where
  "check_builders_exist f = check_builders_in (fl_clusters f) f"

text \<open>\<open>Fleet.check_pool_members\<close>\<close>

fun check_pools_in :: "pool list \<Rightarrow> fleet \<Rightarrow> string + fleet" where
  "check_pools_in [] f = Inr f"
| "check_pools_in (p # ps) f =
     (case dict_get (fl_clusters f) (pl_cluster p) of
        None \<Rightarrow> Inl (''pool '' @ pl_record p @ '': unknown cluster '' @ py_repr (pl_cluster p))
      | Some c \<Rightarrow>
          let names = set (map n_name (cl_nodes c));
              missing = filter (\<lambda>m. m \<notin> names) (pl_members p)
          in if missing \<noteq> [] then
               Inl (''pool '' @ pl_record p @ '': members not in cluster '' @ pl_cluster p
                    @ '': '' @ repr_list missing)
             else check_pools_in ps f)"

definition check_pool_members :: "fleet \<Rightarrow> string + fleet" where
  "check_pool_members f =
     (case fl_dns f of None \<Rightarrow> Inr f | Some d \<Rightarrow> check_pools_in (dn_pools d) f)"

text \<open>
  The order pydantic runs them in: a model's validators run once its parts are valid, the
  errors of the parts are collected, and the fleet's two run one after the other.
\<close>

definition error_of :: "string + 'a \<Rightarrow> string list" where
  "error_of r = (case r of Inl e \<Rightarrow> [e] | Inr _ \<Rightarrow> [])"

definition cluster_errors :: "cluster \<Rightarrow> string list" where
  "cluster_errors c =
     (let parts = (case cl_install c of None \<Rightarrow> [] | Some i \<Rightarrow> error_of (check_builder i))
                  @ concat (map (\<lambda>n. error_of (check_role_fields n)) (cl_nodes c))
      in if parts \<noteq> [] then parts else error_of (check_unique_names c))"

definition validate_model :: "fleet \<Rightarrow> string list + fleet" where
  "validate_model f =
     (let parts = concat (map (\<lambda>(_, c). cluster_errors c) (fl_clusters f))
      in if parts \<noteq> [] then Inl parts
         else case check_builders_exist f of
                Inl e \<Rightarrow> Inl [e]
              | Inr f1 \<Rightarrow> (case check_pool_members f1 of Inl e \<Rightarrow> Inl [e] | Inr f2 \<Rightarrow> Inr f2))"

section \<open>Lookups\<close>

text \<open>\<open>Fleet.find_builder\<close>\<close>

definition find_builder :: "fleet \<Rightarrow> string option \<Rightarrow> builder_host option" where
  "find_builder f name = (if truthy name then dict_get (fl_builders f) (the name) else None)"

text \<open>\<open>Fleet.find_node\<close>: the first node of that name, in the order of the clusters\<close>

fun find_node_in :: "(string, cluster) dict \<Rightarrow> string \<Rightarrow> (string \<times> cluster \<times> node) option" where
  "find_node_in [] name = None"
| "find_node_in ((cn, c) # cs) name =
     (case find (\<lambda>n. n_name n = name) (cl_nodes c) of
        Some n \<Rightarrow> Some (cn, c, n)
      | None \<Rightarrow> find_node_in cs name)"

definition find_node :: "fleet \<Rightarrow> string \<Rightarrow> (string \<times> cluster \<times> node) option" where
  "find_node f name = find_node_in (fl_clusters f) name"

section \<open>Facts on lookups\<close>

lemma find_node_in_Some:
  "find_node_in cs name = Some (cn, c, n) \<Longrightarrow>
   (cn, c) \<in> set cs \<and> n \<in> set (cl_nodes c) \<and> n_name n = name"
  by (induction cs name rule: find_node_in.induct)
    (auto split: option.splits simp: find_Some_iff)

lemma find_node_in_None:
  "find_node_in cs name = None \<longleftrightarrow> (\<forall>(cn, c) \<in> set cs. \<forall>n \<in> set (cl_nodes c). n_name n \<noteq> name)"
  by (induction cs name rule: find_node_in.induct)
    (auto split: option.splits simp: find_None_iff find_Some_iff)

lemma find_node_Some:
  "find_node f name = Some (cn, c, n) \<Longrightarrow>
   (cn, c) \<in> set (fl_clusters f) \<and> n \<in> set (cl_nodes c) \<and> n_name n = name"
  by (simp add: find_node_def find_node_in_Some)

lemma find_node_name: "find_node f name = Some (cn, c, n) \<Longrightarrow> n_name n = name"
  by (simp add: find_node_Some)

section \<open>Facts on validated fleets\<close>

lemma error_of_Nil: "error_of r = [] \<longleftrightarrow> (\<exists>x. r = Inr x)"
  by (cases r) (auto simp: error_of_def)

lemma check_builders_in_Inr:
  "check_builders_in cs f = Inr f' \<Longrightarrow>
   f' = f \<and> (\<forall>(cn, c) \<in> set cs. \<forall>i. cl_install c = Some i \<longrightarrow> in_strategy i = Build \<longrightarrow>
     truthy (in_builder i) \<longrightarrow> the (in_builder i) \<in> set (dict_keys (fl_builders f)))"
  by (induction cs f rule: check_builders_in.induct) (auto split: option.splits if_splits)

lemma check_pools_in_Inr:
  "check_pools_in ps f = Inr f' \<Longrightarrow>
   f' = f \<and> (\<forall>p \<in> set ps. \<exists>c. dict_get (fl_clusters f) (pl_cluster p) = Some c \<and>
     set (pl_members p) \<subseteq> n_name ` set (cl_nodes c))"
  by (induction ps f rule: check_pools_in.induct)
    (auto split: option.splits if_splits simp: Let_def filter_empty_conv)

lemma validate_model_Inr:
  assumes "validate_model f = Inr f'"
  shows "f' = f" and "check_builders_exist f = Inr f" and "check_pool_members f = Inr f"
    and "(cn, c) \<in> set (fl_clusters f) \<Longrightarrow> cluster_errors c = []"
proof -
  from assms obtain f1 where b: "check_builders_exist f = Inr f1"
    and m: "check_pool_members f1 = Inr f'"
    and parts: "concat (map (\<lambda>(_, c). cluster_errors c) (fl_clusters f)) = []"
    by (auto simp: validate_model_def Let_def split: if_splits sum.splits)
  have f1: "f1 = f" using b check_builders_in_Inr by (auto simp: check_builders_exist_def)
  have "f' = f1" using m check_pools_in_Inr
    by (auto simp: check_pool_members_def split: option.splits)
  with f1 show "f' = f" by simp
  with f1 b m show "check_builders_exist f = Inr f" "check_pool_members f = Inr f" by simp_all
  show "cluster_errors c = []" if "(cn, c) \<in> set (fl_clusters f)"
    using parts that by auto
qed

lemma cluster_errors_Nil:
  assumes "cluster_errors c = []"
  shows "\<And>i. cl_install c = Some i \<Longrightarrow> in_strategy i = Build \<Longrightarrow> truthy (in_builder i)"
    and "\<And>n. n \<in> set (cl_nodes c) \<Longrightarrow> n_role n = Rpc \<Longrightarrow> truthy (n_rpc_url n)"
    and "\<And>n. n \<in> set (cl_nodes c) \<Longrightarrow> n_role n = Validator \<Longrightarrow> truthy (n_identity n)"
    and "distinct (map n_name (cl_nodes c))"
proof -
  from assms have i: "\<And>i. cl_install c = Some i \<Longrightarrow> error_of (check_builder i) = []"
    and n: "\<And>n. n \<in> set (cl_nodes c) \<Longrightarrow> error_of (check_role_fields n) = []"
    and u: "error_of (check_unique_names c) = []"
    by (auto simp: cluster_errors_def Let_def split: if_splits option.splits)
  show "truthy (in_builder i)" if "cl_install c = Some i" "in_strategy i = Build" for i
    using i [OF that(1)] that(2) by (auto simp: error_of_def check_builder_def split: if_splits)
  show "truthy (n_rpc_url n)" if "n \<in> set (cl_nodes c)" "n_role n = Rpc" for n
    using n [OF that(1)] that(2) by (auto simp: error_of_def check_role_fields_def split: if_splits)
  show "truthy (n_identity n)" if "n \<in> set (cl_nodes c)" "n_role n = Validator" for n
    using n [OF that(1)] that(2) by (auto simp: error_of_def check_role_fields_def split: if_splits)
  let ?names = "map n_name (cl_nodes c)"
  from u have "\<forall>x \<in> set ?names. count_list ?names x \<le> 1"
    by (auto simp: error_of_def check_unique_names_def Let_def not_less split: if_splits)
  then show "distinct ?names" by (rule distinct_if_count_le_1)
qed

section \<open>What the validators accept\<close>

text \<open>The abstract specification: what a loaded configuration promises to the operations\<close>

definition cluster_wf :: "cluster \<Rightarrow> bool" where
  "cluster_wf c \<longleftrightarrow>
     distinct (map n_name (cl_nodes c)) \<and>
     (\<forall>n \<in> set (cl_nodes c). truthy (if n_role n = Rpc then n_rpc_url n else n_identity n)) \<and>
     (\<forall>i. cl_install c = Some i \<longrightarrow> in_strategy i = Build \<longrightarrow> truthy (in_builder i))"

definition builder_known :: "fleet \<Rightarrow> cluster \<Rightarrow> bool" where
  "builder_known f c \<longleftrightarrow>
     (\<forall>i. cl_install c = Some i \<longrightarrow> in_strategy i = Build \<longrightarrow> find_builder f (in_builder i) \<noteq> None)"

definition pool_wf :: "fleet \<Rightarrow> pool \<Rightarrow> bool" where
  "pool_wf f p \<longleftrightarrow>
     (\<exists>c. dict_get (fl_clusters f) (pl_cluster p) = Some c \<and>
          set (pl_members p) \<subseteq> n_name ` set (cl_nodes c))"

definition fleet_wf :: "fleet \<Rightarrow> bool" where
  "fleet_wf f \<longleftrightarrow>
     (\<forall>c \<in> snd ` set (fl_clusters f). cluster_wf c \<and> builder_known f c) \<and>
     (\<forall>d. fl_dns f = Some d \<longrightarrow> (\<forall>p \<in> set (dn_pools d). pool_wf f p))"

lemma error_of_check_builder:
  "error_of (check_builder i) = [] \<longleftrightarrow> (in_strategy i = Build \<longrightarrow> truthy (in_builder i))"
  by (auto simp: error_of_def check_builder_def)

lemma error_of_check_role_fields:
  "error_of (check_role_fields n) = [] \<longleftrightarrow>
   truthy (if n_role n = Rpc then n_rpc_url n else n_identity n)"
  by (cases "n_role n") (auto simp: error_of_def check_role_fields_def)

lemma error_of_check_unique_names:
  "distinct (map n_name (cl_nodes c)) \<Longrightarrow> error_of (check_unique_names c) = []"
  using count_le_1_if_distinct [of "map n_name (cl_nodes c)"]
  by (auto simp: error_of_def check_unique_names_def Let_def not_less [symmetric])

lemma cluster_errors_iff: "cluster_errors c = [] \<longleftrightarrow> cluster_wf c"
proof
  assume c: "cluster_errors c = []"
  have "truthy (if n_role n = Rpc then n_rpc_url n else n_identity n)" if "n \<in> set (cl_nodes c)" for n
    using cluster_errors_Nil(2,3) [OF c that] by (cases "n_role n") simp_all
  then show "cluster_wf c"
    unfolding cluster_wf_def using cluster_errors_Nil(1,4) [OF c] by blast
next
  assume "cluster_wf c"
  then show "cluster_errors c = []"
    by (auto simp: cluster_errors_def cluster_wf_def Let_def error_of_check_builder
        error_of_check_role_fields error_of_check_unique_names split: option.splits)
qed

lemma find_builder_None:
  "truthy b \<Longrightarrow> find_builder f b = None \<longleftrightarrow> the b \<notin> set (dict_keys (fl_builders f))"
  by (simp add: find_builder_def dict_keys_def map_of_eq_None_iff)

lemma find_builder_Some:
  "truthy b \<Longrightarrow> the b \<in> set (dict_keys (fl_builders f)) \<longleftrightarrow> (\<exists>y. find_builder f b = Some y)"
  using find_builder_None [of b f] by auto

lemma check_builders_in_iff:
  assumes "\<forall>c \<in> snd ` set cs. cluster_wf c"
  shows "check_builders_in cs f = Inr f \<longleftrightarrow> (\<forall>c \<in> snd ` set cs. builder_known f c)"
  using assms
proof (induction cs f rule: check_builders_in.induct)
  case (2 name c cs f)
  show ?case
  proof (cases "cl_install c")
    case None
    with 2 show ?thesis by (auto simp: builder_known_def)
  next
    case (Some i)
    with 2 show ?thesis
      by (auto simp: builder_known_def cluster_wf_def find_builder_Some)
  qed
qed simp

lemma check_pools_in_iff: "check_pools_in ps f = Inr f \<longleftrightarrow> (\<forall>p \<in> set ps. pool_wf f p)"
  by (induction ps f rule: check_pools_in.induct)
    (auto simp: pool_wf_def Let_def filter_empty_conv split: option.splits)

lemma check_pool_members_iff:
  "check_pool_members f = Inr f \<longleftrightarrow>
   (\<forall>d. fl_dns f = Some d \<longrightarrow> (\<forall>p \<in> set (dn_pools d). pool_wf f p))"
  by (simp add: check_pool_members_def check_pools_in_iff split: option.splits)

lemma validate_model_wf: "validate_model f = Inr f' \<longleftrightarrow> f' = f \<and> fleet_wf f"
proof
  assume v: "validate_model f = Inr f'"
  note acc = validate_model_Inr [OF v]
  have wf: "\<forall>c \<in> snd ` set (fl_clusters f). cluster_wf c"
    using acc(4) by (auto simp: cluster_errors_iff)
  with acc show "f' = f \<and> fleet_wf f"
    by (simp add: fleet_wf_def check_builders_exist_def check_builders_in_iff
        check_pool_members_iff)
next
  assume r: "f' = f \<and> fleet_wf f"
  then have wf: "\<forall>c \<in> snd ` set (fl_clusters f). cluster_wf c"
    by (auto simp: fleet_wf_def)
  with r have "check_builders_exist f = Inr f" "check_pool_members f = Inr f"
    by (auto simp: fleet_wf_def check_builders_exist_def check_builders_in_iff
        check_pool_members_iff)
  moreover have "concat (map (\<lambda>(_, c). cluster_errors c) (fl_clusters f)) = []"
    using wf by (force simp: cluster_errors_iff)
  ultimately show "validate_model f = Inr f'"
    using r by (simp add: validate_model_def Let_def)
qed

text \<open>
  Loading a configuration accepts exactly the well-formed fleets: node names are unique in
  their cluster, an RPC node has an RPC URL and a validator an identity, a cluster that builds
  names a defined builder, and every pool names a known cluster and only nodes of it. An
  accepted fleet is loaded unchanged.
\<close>

theorem validate_model_accepts_wf: "(\<exists>f'. validate_model f = Inr f') = fleet_wf f"
  by (simp add: validate_model_wf)

definition sample_fleet :: fleet where
  "sample_fleet =
     \<lparr>fl_clusters = [(''devnet'', \<lparr>cl_reference_rpc = ''ref'',
        cl_install = Some (default_install\<lparr>in_builder := Some ''b''\<rparr>), cl_network = None,
        cl_nodes = [basic_node ''rpc1'' Rpc ''10.0.0.1'' (Some ''u'') None]\<rparr>)],
      fl_builders = [(''b'', \<lparr>host = ''10.0.0.9'', ssh = default_ssh\<rparr>)], fl_dns = None\<rparr>"

end
