(* ===== verification/Safety.thy ===== *)
theory Safety
  imports Audit_Log Config
begin

text \<open>
  The safety gate of \<open>safety.py\<close>: the policy rules, the version globs (\<open>fnmatch\<close> of the
  standard library, as \<open>fnmatch.translate\<close> defines it), the disk floor, and \<open>gate\<close>, the
  decision every mutation passes through.
\<close>

section \<open>Policy\<close>

record policy_rules =
  pr_max_concurrent_restarts :: int
  pr_allowed_versions :: "string list"
  pr_min_disk_free_pct :: "int option"
  pr_require_leader_window_minutes :: int

definition default_rules :: policy_rules where
  "default_rules = \<lparr>pr_max_concurrent_restarts = 1, pr_allowed_versions = [''*''],
     pr_min_disk_free_pct = None, pr_require_leader_window_minutes = 5\<rparr>"

record policy =
  po_defaults :: policy_rules
  po_clusters :: "(string, policy_rules) dict"

definition default_policy :: policy where
  "default_policy = \<lparr>po_defaults = default_rules, po_clusters = []\<rparr>"

text \<open>\<open>Policy.for_cluster\<close>\<close>

definition for_cluster :: "policy \<Rightarrow> string \<Rightarrow> policy_rules" where
  "for_cluster p name =
     (case dict_get (po_clusters p) name of Some r \<Rightarrow> r | None \<Rightarrow> po_defaults p)"

section \<open>Version globs\<close>

datatype glob =
    Star
  | AnyChar
  | Lit char
  | CharClass bool "(char \<times> char) list"

text \<open>
  The text after a left bracket: \<open>None\<close> when nothing closes it, otherwise whether it is
  negated, its characters and what follows it. A right bracket in the first place stands
  for itself.
\<close>

definition class_body :: "string \<Rightarrow> (bool \<times> string \<times> string) option" where
  "class_body s =
     (let neg = (s \<noteq> [] \<and> hd s = CHR ''!'');
          s1 = (if neg then tl s else s);
          lead = takeWhile (\<lambda>c. c = CHR '']'') (take 1 s1);
          s2 = drop (length lead) s1;
          rest = dropWhile (\<lambda>c. c \<noteq> CHR '']'') s2
      in if rest = [] then None
         else Some (neg, lead @ takeWhile (\<lambda>c. c \<noteq> CHR '']'') s2, tl rest))"

text \<open>Ranges \<open>x-y\<close> from left to right; a hyphen that joins nothing stands for itself.\<close>

fun class_items :: "string \<Rightarrow> (char \<times> char) list" where
  "class_items [] = []"
| "class_items [x] = [(x, x)]"
| "class_items [x, y] = [(x, x), (y, y)]"
| "class_items (x # m # y # s) =
     (if m = CHR ''-'' then (x, y) # class_items s else (x, x) # class_items (m # y # s))"

lemma class_body_shorter: "class_body s = Some (n, b, r) \<Longrightarrow> length r < length s"
proof -
  assume a: "class_body s = Some (n, b, r)"
  define s1 where "s1 = (if s \<noteq> [] \<and> hd s = CHR ''!'' then tl s else s)"
  define s2 where "s2 = drop (length (takeWhile (\<lambda>c. c = CHR '']'') (take 1 s1))) s1"
  define rest where "rest = dropWhile (\<lambda>c. c \<noteq> CHR '']'') s2"
  have r: "rest \<noteq> []" "r = tl rest"
    using a unfolding class_body_def Let_def s1_def [symmetric] s2_def [symmetric]
      rest_def [symmetric] by (simp_all split: if_split_asm)
  have "length s1 \<le> length s" by (simp add: s1_def)
  moreover have "length s2 \<le> length s1" by (simp add: s2_def)
  moreover have "length rest \<le> length s2" by (simp add: rest_def length_dropWhile_le)
  ultimately have "length rest \<le> length s" by linarith
  with r show ?thesis by (cases rest) auto
qed

function glob_compile :: "string \<Rightarrow> glob list" where
  "glob_compile [] = []"
| "glob_compile (c # s) =
     (if c = CHR ''*'' then Star # glob_compile s
      else if c = CHR ''?'' then AnyChar # glob_compile s
      else if c = CHR ''['' then
        (case class_body s of
           None \<Rightarrow> Lit c # glob_compile s
         | Some (neg, body, rest) \<Rightarrow> CharClass neg (class_items body) # glob_compile rest)
      else Lit c # glob_compile s)"
  by pat_completeness auto
termination
  by (relation "measure length") (auto dest: class_body_shorter)

fun glob_char :: "glob \<Rightarrow> char \<Rightarrow> bool" where
  "glob_char Star c = True"
| "glob_char AnyChar c = True"
| "glob_char (Lit d) c = (c = d)"
| "glob_char (CharClass neg rs) c = (neg \<noteq> list_ex (\<lambda>(lo, hi). lo \<le> c \<and> c \<le> hi) rs)"

fun glob_match :: "glob list \<Rightarrow> string \<Rightarrow> bool" where
  "glob_match [] s = (s = [])"
| "glob_match (Star # gs) [] = glob_match gs []"
| "glob_match (Star # gs) (c # s) = (glob_match gs (c # s) \<or> glob_match (Star # gs) s)"
| "glob_match (g # gs) [] = False"
| "glob_match (g # gs) (c # s) = (glob_char g c \<and> glob_match gs s)"

definition fnmatch :: "string \<Rightarrow> string \<Rightarrow> bool" where
  "fnmatch name pat = glob_match (glob_compile pat) name"

definition version_allowed :: "policy_rules \<Rightarrow> string option \<Rightarrow> bool" where
  "version_allowed rules version =
     (case version of
        None \<Rightarrow> False
      | Some v \<Rightarrow> list_ex (\<lambda>pat. fnmatch v pat) (pr_allowed_versions rules))"

definition disk_free_ok :: "policy_rules \<Rightarrow> int list \<Rightarrow> bool" where
  "disk_free_ok rules use_pcts =
     (case pr_min_disk_free_pct rules of
        None \<Rightarrow> True
      | Some m \<Rightarrow> list_all (\<lambda>used. 100 - used \<ge> m) use_pcts)"

section \<open>The gate\<close>

record gate_decision =
  gd_operation :: string
  gd_cluster :: string
  gd_node :: string
  gd_mode :: string
  gd_allowed :: bool
  gd_plan :: "string list"
  gd_reasons :: "string list"

text \<open>\<open>GateDecision.to_dict\<close>\<close>

definition decision_json :: "gate_decision \<Rightarrow> json" where
  "decision_json d = JObj
     [(''operation'', JStr (gd_operation d)), (''cluster'', JStr (gd_cluster d)),
      (''node'', JStr (gd_node d)), (''mode'', JStr (gd_mode d)),
      (''allowed'', JBool (gd_allowed d)), (''plan'', json_strs (gd_plan d)),
      (''reasons'', json_strs (gd_reasons d))]"

definition gate ::
  "string \<Rightarrow> string \<Rightarrow> string \<Rightarrow> bool \<Rightarrow> string list \<Rightarrow> (bool \<times> string) list \<Rightarrow> gate_decision" where
  "gate operation cluster node confirm plan checks =
     (let mode = (if confirm then ''execute'' else ''dry-run'');
          failed = map snd (filter (\<lambda>(passed, _). \<not> passed) checks);
          allowed = (failed = []);
          reasons =
            (if failed \<noteq> [] then
               (if \<not> confirm then [''dry-run: the following checks would block execution''] else [])
               @ failed
             else if \<not> confirm then
               [''dry-run: preflight checks pass; pass confirm=true to execute'']
             else [])
      in \<lparr>gd_operation = operation, gd_cluster = cluster, gd_node = node, gd_mode = mode,
          gd_allowed = allowed, gd_plan = plan, gd_reasons = reasons\<rparr>)"

text \<open>When a caller goes on to change something\<close>

definition executes :: "gate_decision \<Rightarrow> bool" where
  "executes d \<longleftrightarrow> gd_mode d = ''execute'' \<and> gd_allowed d"

section \<open>Facts on globs\<close>

definition plain_chars :: "string \<Rightarrow> bool" where
  "plain_chars p \<longleftrightarrow> set p \<inter> {CHR ''*'', CHR ''?'', CHR ''[''} = {}"

lemma glob_compile_plain:
  "plain_chars p \<Longrightarrow> glob_compile (p @ q) = map Lit p @ glob_compile q"
  by (induction p) (auto simp: plain_chars_def)

lemma glob_match_lits: "glob_match (map Lit p @ gs) s \<longleftrightarrow> (\<exists>t. s = p @ t \<and> glob_match gs t)"
proof (induction p arbitrary: s)
  case (Cons c p)
  then show ?case by (cases s) auto
qed simp

lemma glob_match_star: "glob_match [Star] s"
  by (induction s) auto

lemma glob_match_star_iff: "glob_match (Star # gs) s \<longleftrightarrow> (\<exists>a b. s = a @ b \<and> glob_match gs b)"
proof (induction s)
  case (Cons c s)
  show ?case
  proof
    assume "glob_match (Star # gs) (c # s)"
    then consider "glob_match gs (c # s)" | "glob_match (Star # gs) s" by auto
    then show "\<exists>a b. c # s = a @ b \<and> glob_match gs b"
    proof cases
      case 1
      then show ?thesis by (metis append_Nil)
    next
      case 2
      then show ?thesis using Cons.IH by (metis append_Cons)
    qed
  next
    assume "\<exists>a b. c # s = a @ b \<and> glob_match gs b"
    then obtain a b where ab: "c # s = a @ b" "glob_match gs b" by blast
    then show "glob_match (Star # gs) (c # s)"
      using Cons.IH by (cases a) auto
  qed
qed simp

lemma fnmatch_plain: "plain_chars p \<Longrightarrow> fnmatch s p \<longleftrightarrow> s = p"
  using glob_compile_plain [of p "[]"] glob_match_lits [of p "[]" s] by (simp add: fnmatch_def)

lemma fnmatch_prefix: "plain_chars p \<Longrightarrow> fnmatch s (p @ ''*'') \<longleftrightarrow> startswith s p"
  by (simp add: fnmatch_def glob_compile_plain glob_match_lits glob_match_star startswith_iff)

lemma fnmatch_around:
  assumes "plain_chars p" and "plain_chars q"
  shows "fnmatch s (p @ ''*'' @ q) \<longleftrightarrow> (\<exists>t. s = p @ t @ q)"
proof -
  have "glob_compile (p @ ''*'' @ q) = map Lit p @ Star # map Lit q"
    using glob_compile_plain [OF assms(1), of "''*'' @ q"] glob_compile_plain [OF assms(2), of "[]"]
    by simp
  then have "fnmatch s (p @ ''*'' @ q) \<longleftrightarrow> (\<exists>t. s = p @ t \<and> glob_match (Star # map Lit q) t)"
    by (simp add: fnmatch_def glob_match_lits)
  also have "\<dots> \<longleftrightarrow> (\<exists>t. s = p @ t @ q)"
    using glob_match_lits [of q "[]"] by (auto simp: glob_match_star_iff)
  finally show ?thesis .
qed

text \<open>
  C14. A version is allowed by a pattern made of literal text around one star exactly when it
  has that text as its prefix and suffix, without overlap; \<open>4.1.*\<close> thus allows the versions that
  start with \<open>4.1.\<close> and no others, and \<open>*\<close> allows every version.
\<close>

theorem version_allowed_glob:
  assumes "plain_chars p" and "plain_chars q"
  shows "version_allowed (rules\<lparr>pr_allowed_versions := [p @ ''*'' @ q]\<rparr>) (Some v)
    \<longleftrightarrow> (\<exists>t. v = p @ t @ q)"
  using fnmatch_around [OF assms] by (simp add: version_allowed_def)

theorem version_allowed_glob_witness:
  "version_allowed (default_rules\<lparr>pr_allowed_versions := [''4.1.*'']\<rparr>) (Some ''4.1.0-beta.2'')
   \<and> \<not> version_allowed (default_rules\<lparr>pr_allowed_versions := [''4.1.*'']\<rparr>) (Some ''5.0.0'')"
proof -
  have p: "plain_chars ''4.1.''" "plain_chars []" by (auto simp: plain_chars_def)
  show ?thesis
    using version_allowed_glob [OF p, of default_rules "''4.1.0-beta.2''"]
      version_allowed_glob [OF p, of default_rules "''5.0.0''"] by simp
qed

section \<open>Facts on the gate\<close>

definition failures :: "(bool \<times> string) list \<Rightarrow> string list" where
  "failures checks = map snd (filter (\<lambda>(passed, _). \<not> passed) checks)"

lemma failures_Nil: "failures checks = [] \<longleftrightarrow> list_all fst checks"
  by (auto simp: failures_def filter_empty_conv list_all_iff)

lemma failures_append: "failures (xs @ ys) = failures xs @ failures ys"
  by (simp add: failures_def)

lemma gate_fields [simp]:
  "gd_operation (gate op c n conf plan checks) = op"
  "gd_cluster (gate op c n conf plan checks) = c"
  "gd_node (gate op c n conf plan checks) = n"
  "gd_plan (gate op c n conf plan checks) = plan"
  by (simp_all add: gate_def Let_def)

lemma gate_mode [simp]:
  "gd_mode (gate op c n conf plan checks) = (if conf then ''execute'' else ''dry-run'')"
  by (simp add: gate_def Let_def)

lemma gate_allowed: "gd_allowed (gate op c n conf plan checks) \<longleftrightarrow> list_all fst checks"
  by (auto simp: gate_def Let_def filter_empty_conv list_all_iff)

lemma gate_reasons_execute: "gd_reasons (gate op c n True plan checks) = failures checks"
  by (simp add: gate_def Let_def failures_def)

lemma executes_gate: "executes (gate op c n conf plan checks) \<longleftrightarrow> conf \<and> list_all fst checks"
  by (simp add: executes_def gate_allowed)

text \<open>
  C14. The gate executes exactly when the caller confirms and every check passes. The verdict
  does not depend on the confirmation, so a dry run predicts it, and when something fails the
  dry run lists, after its heading, the very reasons the execution would be refused with.
\<close>

theorem gate_dry_run_predicts:
  "(executes (gate op c n conf plan checks) \<longleftrightarrow> conf \<and> list_all fst checks)
   \<and> gd_allowed (gate op c n False plan checks) = gd_allowed (gate op c n True plan checks)
   \<and> (if list_all fst checks then gd_reasons (gate op c n True plan checks) = []
      else tl (gd_reasons (gate op c n False plan checks)) = gd_reasons (gate op c n True plan checks)
           \<and> gd_reasons (gate op c n True plan checks) = failures checks)"
  by (simp add: executes_gate gate_allowed gate_reasons_execute failures_Nil)
    (simp add: gate_def Let_def failures_def filter_empty_conv list_all_iff split_beta)

lemma disk_free_ok_iff:
  "disk_free_ok (rules\<lparr>pr_min_disk_free_pct := Some m\<rparr>) use_pcts \<longleftrightarrow> (\<forall>u \<in> set use_pcts. u \<le> 100 - m)"
  by (auto simp: disk_free_ok_def list_all_iff)

end
