(* ===== verification/Effects.thy ===== *)
theory Effects
  imports Audit_Log "HOL-Library.Sublist"
begin

text \<open>
  How the model runs code with effects. A computation takes the world and returns a result, or
  the Python exception it raised, with the new world. The world is the trace of everything done
  so far outside the process (commands run, RPC calls made, sleeps) and the audit log, when
  there is one. What the outside answers is a parameter, the environment: it may depend on the
  whole trace, so a theorem about every environment covers every behaviour of the hosts.
\<close>

section \<open>Exceptions, events, the environment\<close>

datatype exn =
    HttpError string
  | RpcError string json
  | JsonDecodeError
  | KeyError string
  | TypeError
  | AttributeError
  | ValueError string
  | OsError string
  | DnsError string

datatype event =
    Ran "string list"
  | RpcCalled string string "json list"
  | Slept int
  | MadeTempDir string

text \<open>\<open>executor.CommandResult\<close>\<close>

record command_result =
  exit_code :: int
  stdout :: string
  stderr :: string

definition cr_ok :: "command_result \<Rightarrow> bool" where
  "cr_ok r \<longleftrightarrow> exit_code r = 0"

text \<open>What a POST can come back with: a transport error, an error status, a body\<close>

datatype http_reply =
    TransportFailed string
  | BadStatus string
  | NotJson
  | Body json

record env =
  env_run :: "event list \<Rightarrow> string list \<Rightarrow> command_result"
  env_rpc :: "event list \<Rightarrow> string \<Rightarrow> string \<Rightarrow> json list \<Rightarrow> http_reply"
  env_tmp :: "event list \<Rightarrow> string"
  env_str :: "json \<Rightarrow> string"

record world =
  trace :: "event list"
  audit :: "audit_log option"

section \<open>Computations\<close>

type_synonym 'a io = "world \<Rightarrow> (exn + 'a) \<times> world"

definition ret :: "'a \<Rightarrow> 'a io" where
  "ret x = (\<lambda>w. (Inr x, w))"

definition throw :: "exn \<Rightarrow> 'a io" where
  "throw e = (\<lambda>w. (Inl e, w))"

definition bind_io :: "'a io \<Rightarrow> ('a \<Rightarrow> 'b io) \<Rightarrow> 'b io" where
  "bind_io m k = (\<lambda>w. case m w of (Inl e, w1) \<Rightarrow> (Inl e, w1) | (Inr x, w1) \<Rightarrow> k x w1)"

text \<open>\<open>try: m; except \<dots>: h\<close>, where \<open>h e = None\<close> for an exception no handler names\<close>

definition catch :: "'a io \<Rightarrow> (exn \<Rightarrow> 'a io option) \<Rightarrow> 'a io" where
  "catch m h = (\<lambda>w. case m w of
       (Inl e, w1) \<Rightarrow> (case h e of None \<Rightarrow> (Inl e, w1) | Some k \<Rightarrow> k w1)
     | (Inr x, w1) \<Rightarrow> (Inr x, w1))"

text \<open>Pure code that may raise\<close>

definition lift :: "exn + 'a \<Rightarrow> 'a io" where
  "lift r = (\<lambda>w. (r, w))"

definition and_then :: "exn + 'a \<Rightarrow> ('a \<Rightarrow> exn + 'b) \<Rightarrow> exn + 'b" where
  "and_then r k = (case r of Inl e \<Rightarrow> Inl e | Inr x \<Rightarrow> k x)"

fun all_of :: "('a \<Rightarrow> exn + 'b) \<Rightarrow> 'a list \<Rightarrow> exn + 'b list" where
  "all_of f [] = Inr []"
| "all_of f (x # xs) = and_then (f x) (\<lambda>y. and_then (all_of f xs) (\<lambda>ys. Inr (y # ys)))"

text \<open>A list comprehension whose body has effects\<close>

fun for_each :: "('a \<Rightarrow> 'b io) \<Rightarrow> 'a list \<Rightarrow> 'b list io" where
  "for_each f [] = ret []"
| "for_each f (x # xs) =
     bind_io (f x) (\<lambda>y. bind_io (for_each f xs) (\<lambda>ys. ret (y # ys)))"

definition emit :: "event \<Rightarrow> (event list \<Rightarrow> 'a) \<Rightarrow> 'a io" where
  "emit e ans = (\<lambda>w. (Inr (ans (trace w)), w\<lparr>trace := trace w @ [e]\<rparr>))"

text \<open>One call of the runner, one sleep, one temporary directory\<close>

definition run_argv :: "env \<Rightarrow> string list \<Rightarrow> command_result io" where
  "run_argv E argv = emit (Ran argv) (\<lambda>t. env_run E t argv)"

definition sleep :: "int \<Rightarrow> unit io" where
  "sleep n = emit (Slept n) (\<lambda>_. ())"

definition mkdtemp :: "env \<Rightarrow> string io" where
  "mkdtemp E = (\<lambda>w. (Inr (env_tmp E (trace w)),
     w\<lparr>trace := trace w @ [MadeTempDir (env_tmp E (trace w))]\<rparr>))"

text \<open>\<open>if audit: audit.record(\<dots>)\<close>\<close>

definition record_audit :: "string \<Rightarrow> string \<Rightarrow> string \<Rightarrow> string \<Rightarrow> bool \<Rightarrow> json \<Rightarrow> unit io" where
  "record_audit operation cluster node mode allowed detail =
     (\<lambda>w. (Inr (), w\<lparr>audit := map_option
        (audit_put \<lparr>en_operation = operation, en_cluster = cluster, en_node = node,
           en_mode = mode, en_allowed = allowed, en_detail = Some detail\<rparr>) (audit w)\<rparr>))"

section \<open>JSON-RPC\<close>

text \<open>
  \<open>probe.rpc_call\<close>: the errors httpx raises are \<open>HttpError\<close>; a body that is no JSON raises
  \<open>JsonDecodeError\<close>, and one that is no object the error Python raises on its use. \<open>RpcError\<close>
  reads \<open>message\<close> of the error, which must be an object.
\<close>

definition rpc_result :: "string \<Rightarrow> http_reply \<Rightarrow> exn + json" where
  "rpc_result method reply =
     (case reply of
        TransportFailed e \<Rightarrow> Inl (HttpError e)
      | BadStatus e \<Rightarrow> Inl (HttpError e)
      | NotJson \<Rightarrow> Inl JsonDecodeError
      | Body (JObj kvs) \<Rightarrow>
          (case map_of kvs ''error'' of
             Some (JObj err) \<Rightarrow> Inl (RpcError method (JObj err))
           | Some _ \<Rightarrow> Inl AttributeError
           | None \<Rightarrow> Inr (case map_of kvs ''result'' of None \<Rightarrow> JNull | Some r \<Rightarrow> r))
      | Body (JList xs) \<Rightarrow> Inl (if JStr ''error'' \<in> set xs then TypeError else AttributeError)
      | Body (JStr s) \<Rightarrow> Inl (if contains ''error'' s then TypeError else AttributeError)
      | Body _ \<Rightarrow> Inl TypeError)"

definition rpc_call :: "env \<Rightarrow> string \<Rightarrow> string \<Rightarrow> json list \<Rightarrow> json io" where
  "rpc_call E url method params =
     (\<lambda>w. (rpc_result method (env_rpc E (trace w) url method params),
           w\<lparr>trace := trace w @ [RpcCalled url method params]\<rparr>))"

text \<open>
  \<open>str(e)\<close> of a caught error; \<open>RpcError\<close> formats the message of the error object, or the
  whole object when it has none (\<open>env_str\<close> is \<open>str\<close> of a decoded value that is no string).
\<close>

definition rpc_error_message :: "env \<Rightarrow> json \<Rightarrow> string" where
  "rpc_error_message E err =
     (case err of
        JObj kvs \<Rightarrow> (case map_of kvs ''message'' of
            Some (JStr s) \<Rightarrow> s
          | Some v \<Rightarrow> env_str E v
          | None \<Rightarrow> env_str E err)
      | _ \<Rightarrow> env_str E err)"

definition exn_text :: "env \<Rightarrow> exn \<Rightarrow> string" where
  "exn_text E e =
     (case e of
        HttpError s \<Rightarrow> s
      | RpcError method err \<Rightarrow> method @ '': '' @ rpc_error_message E err
      | KeyError s \<Rightarrow> py_repr s
      | ValueError s \<Rightarrow> s
      | OsError s \<Rightarrow> s
      | DnsError s \<Rightarrow> s
      | _ \<Rightarrow> [])"

text \<open>The handler \<open>except (httpx.HTTPError, RpcError)\<close>\<close>

fun is_rpc_failure :: "exn \<Rightarrow> bool" where
  "is_rpc_failure (HttpError _) = True"
| "is_rpc_failure (RpcError _ _) = True"
| "is_rpc_failure _ = False"

text \<open>\<open>try: m; except (httpx.HTTPError, RpcError) as e\<close>: the outcome as a value\<close>

definition attempt :: "'a io \<Rightarrow> (exn + 'a) io" where
  "attempt m = (\<lambda>w. case m w of
       (Inl e, w1) \<Rightarrow> (if is_rpc_failure e then Inr (Inl e) else Inl e, w1)
     | (Inr x, w1) \<Rightarrow> (Inr (Inr x), w1))"

text \<open>
  Reading a decoded body: \<open>v[k]\<close>, \<open>v.get(k)\<close>, an integer, a list, and the truth of a value.
  The RPC's numbers are integers; a body with a fraction where the API has a slot is outside
  the model and counts as a wrong type.
\<close>

definition json_index :: "json \<Rightarrow> string \<Rightarrow> exn + json" where
  "json_index v k =
     (case v of
        JObj kvs \<Rightarrow> (case map_of kvs k of Some x \<Rightarrow> Inr x | None \<Rightarrow> Inl (KeyError k))
      | _ \<Rightarrow> Inl TypeError)"

definition json_get :: "json \<Rightarrow> string \<Rightarrow> exn + json option" where
  "json_get v k = (case v of JObj kvs \<Rightarrow> Inr (map_of kvs k) | _ \<Rightarrow> Inl AttributeError)"

definition as_int :: "json \<Rightarrow> exn + int" where
  "as_int v = (case v of JInt i \<Rightarrow> Inr i | _ \<Rightarrow> Inl TypeError)"

definition as_list :: "json \<Rightarrow> exn + json list" where
  "as_list v = (case v of JList xs \<Rightarrow> Inr xs | _ \<Rightarrow> Inl TypeError)"

definition json_truthy :: "json \<Rightarrow> bool" where
  "json_truthy v =
     (case v of JNull \<Rightarrow> False | JBool b \<Rightarrow> b | JInt i \<Rightarrow> i \<noteq> 0 | JNum q \<Rightarrow> q \<noteq> 0
      | JStr s \<Rightarrow> s \<noteq> [] | JList xs \<Rightarrow> xs \<noteq> [] | JObj kvs \<Rightarrow> kvs \<noteq> [])"

text \<open>\<open>round(x, d)\<close>, to the even neighbour when halfway\<close>

definition py_round :: "nat \<Rightarrow> rat \<Rightarrow> rat" where
  "py_round d x =
     (let y = x * 10 ^ d; f = \<lfloor>y\<rfloor>; r = y - of_int f
      in of_int (if r < 1 / 2 then f else if r > 1 / 2 then f + 1
                 else if even f then f else f + 1) / 10 ^ d)"

lemma and_then_Inr: "and_then r k = Inr y \<longleftrightarrow> (\<exists>x. r = Inr x \<and> k x = Inr y)"
  by (cases r) (auto simp: and_then_def)

lemma and_then_simps [simp]: "and_then (Inr x) k = k x" "and_then (Inl e) k = Inl e"
  by (simp_all add: and_then_def)

section \<open>What a computation adds to the trace\<close>

text \<open>
  \<open>adds P m\<close>: \<open>m\<close> only appends events that satisfy \<open>P\<close> and leaves the audit log alone.
  \<open>emits es m\<close>: \<open>m\<close> always returns, having appended exactly the events \<open>es\<close>, and leaves the
  audit log alone.
\<close>

definition adds :: "(event \<Rightarrow> bool) \<Rightarrow> 'a io \<Rightarrow> bool" where
  "adds P m \<longleftrightarrow> (\<forall>w. \<exists>es. trace (snd (m w)) = trace w @ es \<and> list_all P es \<and>
     audit (snd (m w)) = audit w)"

definition emits :: "event list \<Rightarrow> 'a io \<Rightarrow> bool" where
  "emits es m \<longleftrightarrow> (\<forall>w. (\<exists>x. fst (m w) = Inr x) \<and> trace (snd (m w)) = trace w @ es \<and>
     audit (snd (m w)) = audit w)"

lemma addsI:
  "(\<And>w. \<exists>es. trace (snd (m w)) = trace w @ es \<and> list_all P es \<and> audit (snd (m w)) = audit w) \<Longrightarrow>
   adds P m"
  by (simp add: adds_def)

lemma addsE:
  assumes "adds P m" and "m w = (r, w')"
  obtains es where "trace w' = trace w @ es" "list_all P es" "audit w' = audit w"
  using assms by (metis adds_def snd_conv)

lemma adds_mono: "adds P m \<Longrightarrow> (\<And>e. P e \<Longrightarrow> Q e) \<Longrightarrow> adds Q m"
  unfolding adds_def by (metis (no_types, lifting) list.pred_mono_strong)

lemma adds_ret [frame_rules]: "adds P (ret x)"
  by (simp add: adds_def ret_def)

lemma adds_throw [frame_rules]: "adds P (throw e)"
  by (simp add: adds_def throw_def)

lemma adds_lift [frame_rules]: "adds P (lift r)"
  by (simp add: adds_def lift_def)

lemma adds_bind [frame_rules]:
  assumes m: "adds P m" and k: "\<And>x. adds P (k x)"
  shows "adds P (bind_io m k)"
proof (rule addsI)
  fix w
  obtain r w1 where mw: "m w = (r, w1)" by fastforce
  then obtain es where es: "trace w1 = trace w @ es" "list_all P es" "audit w1 = audit w"
    using m by (elim addsE)
  show "\<exists>es. trace (snd (bind_io m k w)) = trace w @ es \<and> list_all P es \<and>
     audit (snd (bind_io m k w)) = audit w"
  proof (cases r)
    case (Inl e)
    with mw es show ?thesis by (auto simp: bind_io_def)
  next
    case (Inr x)
    obtain r2 w2 where kw: "k x w1 = (r2, w2)" by fastforce
    then obtain es2 where "trace w2 = trace w1 @ es2" "list_all P es2" "audit w2 = audit w1"
      using k [of x] by (elim addsE)
    with mw Inr es kw show ?thesis by (auto simp: bind_io_def)
  qed
qed

lemma adds_catch [frame_rules]:
  assumes m: "adds P m" and h: "\<And>e k. h e = Some k \<Longrightarrow> adds P k"
  shows "adds P (catch m h)"
proof (rule addsI)
  fix w
  obtain r w1 where mw: "m w = (r, w1)" by fastforce
  then obtain es where es: "trace w1 = trace w @ es" "list_all P es" "audit w1 = audit w"
    using m by (elim addsE)
  show "\<exists>es. trace (snd (catch m h w)) = trace w @ es \<and> list_all P es \<and>
     audit (snd (catch m h w)) = audit w"
  proof (cases "\<exists>e k. r = Inl e \<and> h e = Some k")
    case True
    then obtain e k where ek: "r = Inl e" "h e = Some k" by blast
    obtain r2 w2 where kw: "k w1 = (r2, w2)" by fastforce
    then obtain es2 where "trace w2 = trace w1 @ es2" "list_all P es2" "audit w2 = audit w1"
      using h [OF ek(2)] by (elim addsE)
    with mw ek es kw show ?thesis by (auto simp: catch_def)
  next
    case False
    with mw es show ?thesis by (cases r) (auto simp: catch_def split: option.splits)
  qed
qed

lemma adds_attempt [frame_rules]: "adds P m \<Longrightarrow> adds P (attempt m)"
proof (rule addsI)
  fix w
  assume m: "adds P m"
  obtain r w1 where mw: "m w = (r, w1)" by fastforce
  with m obtain es where "trace w1 = trace w @ es" "list_all P es" "audit w1 = audit w"
    by (elim addsE)
  with mw show "\<exists>es. trace (snd (attempt m w)) = trace w @ es \<and> list_all P es \<and>
     audit (snd (attempt m w)) = audit w"
    by (cases r) (auto simp: attempt_def)
qed

lemma adds_for_each [frame_rules]: "(\<And>x. adds P (f x)) \<Longrightarrow> adds P (for_each f xs)"
  by (induction xs) (auto intro!: frame_rules)

lemma adds_emit [frame_rules]: "P e \<Longrightarrow> adds P (emit e ans)"
  by (simp add: adds_def emit_def)

lemma adds_run_argv [frame_rules]: "P (Ran argv) \<Longrightarrow> adds P (run_argv E argv)"
  by (simp add: run_argv_def adds_emit)

lemma adds_sleep [frame_rules]: "P (Slept n) \<Longrightarrow> adds P (sleep n)"
  by (simp add: sleep_def adds_emit)

lemma adds_rpc_call [frame_rules]: "P (RpcCalled url m ps) \<Longrightarrow> adds P (rpc_call E url m ps)"
  by (simp add: adds_def rpc_call_def)

lemma adds_mkdtemp [frame_rules]: "(\<And>d. P (MadeTempDir d)) \<Longrightarrow> adds P (mkdtemp E)"
  by (simp add: adds_def mkdtemp_def)

lemma adds_if [frame_rules]:
  "(b \<Longrightarrow> adds P m) \<Longrightarrow> (\<not> b \<Longrightarrow> adds P m') \<Longrightarrow> adds P (if b then m else m')"
  by simp

lemma adds_case_sum [frame_rules]:
  "(\<And>x. y = Inl x \<Longrightarrow> adds P (h x)) \<Longrightarrow> (\<And>x. y = Inr x \<Longrightarrow> adds P (k x)) \<Longrightarrow>
   adds P (case y of Inl x \<Rightarrow> h x | Inr x \<Rightarrow> k x)"
  by (simp split: sum.split)

lemma adds_case_prod [frame_rules]:
  "(\<And>a b. y = (a, b) \<Longrightarrow> adds P (k a b)) \<Longrightarrow> adds P (case y of (a, b) \<Rightarrow> k a b)"
  by (simp split: prod.split)

lemma adds_case_option [frame_rules]:
  "adds P m \<Longrightarrow> (\<And>x. y = Some x \<Longrightarrow> adds P (k x)) \<Longrightarrow> adds P (case y of None \<Rightarrow> m | Some x \<Rightarrow> k x)"
  by (simp split: option.split)

text \<open>Computations that emit a fixed sequence\<close>

lemma emits_ret: "emits [] (ret x)"
  by (simp add: emits_def ret_def)

lemma emits_run_argv: "emits [Ran argv] (run_argv E argv)"
  by (simp add: emits_def run_argv_def emit_def)

lemma emits_bind:
  assumes m: "emits es m" and k: "\<And>x. emits es' (k x)"
  shows "emits (es @ es') (bind_io m k)"
  unfolding emits_def
proof
  fix w
  obtain x w1 where mw: "m w = (Inr x, w1)" and t: "trace w1 = trace w @ es" "audit w1 = audit w"
    using m unfolding emits_def by (metis prod.collapse)
  then show "(\<exists>x. fst (bind_io m k w) = Inr x) \<and> trace (snd (bind_io m k w)) = trace w @ es @ es' \<and>
     audit (snd (bind_io m k w)) = audit w"
    using k [of x] by (simp add: bind_io_def emits_def)
qed

lemma emits_bind_ret: "emits es m \<Longrightarrow> emits es (bind_io m (\<lambda>x. ret (f x)))"
  using emits_bind [of es m "[]" "\<lambda>x. ret (f x)"] by (simp add: emits_ret)

lemma emits_adds: "emits es m \<Longrightarrow> list_all P es \<Longrightarrow> adds P m"
  by (auto simp: emits_def adds_def)

lemma emits_for_each: "(\<And>x. emits (ev x) (f x)) \<Longrightarrow> emits (concat (map ev xs)) (for_each f xs)"
proof (induction xs)
  case (Cons x xs)
  have "emits (ev x @ concat (map ev xs)) (for_each f (x # xs))"
    by (simp, rule emits_bind [OF Cons.prems], rule emits_bind_ret, rule Cons.IH [OF Cons.prems])
  then show ?case by simp
qed (simp add: emits_ret)

text \<open>Reading off one run\<close>

lemma emits_runE:
  assumes "emits es m"
  obtains x w1 where "m w = (Inr x, w1)" "trace w1 = trace w @ es" "audit w1 = audit w"
  using assms unfolding emits_def by (metis prod.collapse)

lemma bind_io_run [run_simps]:
  "m w = (Inr x, w1) \<Longrightarrow> bind_io m k w = k x w1"
  "m w = (Inl e, w1) \<Longrightarrow> bind_io m k w = (Inl e, w1)"
  by (simp_all add: bind_io_def)

lemma ret_run [run_simps]: "ret x w = (Inr x, w)"
  by (simp add: ret_def)

lemma lift_run [run_simps]: "lift r w = (r, w)"
  by (simp add: lift_def)

lemma bind_ret [simp]: "bind_io (ret x) k = k x"
  by (simp add: bind_io_def ret_def)

lemma bind_assoc: "bind_io (bind_io m k) h = bind_io m (\<lambda>x. bind_io (k x) h)"
  by (auto simp: bind_io_def fun_eq_iff split: prod.splits sum.splits)

lemma bind_io_Inr:
  assumes "bind_io m k w = (Inr y, w2)"
  obtains x w1 where "m w = (Inr x, w1)" "k x w1 = (Inr y, w2)"
  using assms by (auto simp: bind_io_def split: prod.splits sum.splits)

text \<open>What recording does to the log\<close>

definition logged :: "world \<Rightarrow> audit_entry list" where
  "logged w = (case audit w of None \<Rightarrow> [] | Some al \<Rightarrow> audit_entries al)"

lemma audit_entries_put: "audit_entries (audit_put e al) = audit_entries al @ [e]"
  by (simp add: audit_entries_def audit_put_def audit_record_rows)

lemma record_audit_run [run_simps]:
  "record_audit op c n m a d w = (Inr (), w\<lparr>audit := map_option (audit_put
     \<lparr>en_operation = op, en_cluster = c, en_node = n, en_mode = m, en_allowed = a,
      en_detail = Some d\<rparr>) (audit w)\<rparr>)"
  by (simp add: record_audit_def)

lemma logged_record:
  "audit w = Some al \<Longrightarrow>
   logged (w\<lparr>audit := map_option (audit_put e) (audit w)\<rparr>) = logged w @ [e]"
  by (simp add: logged_def audit_entries_put)

text \<open>\<open>yields P m\<close>: whenever \<open>m\<close> returns, its result satisfies \<open>P\<close>\<close>

definition yields :: "('a \<Rightarrow> bool) \<Rightarrow> 'a io \<Rightarrow> bool" where
  "yields P m \<longleftrightarrow> (\<forall>w x w'. m w = (Inr x, w') \<longrightarrow> P x)"

lemma yieldsD: "yields P m \<Longrightarrow> m w = (Inr x, w') \<Longrightarrow> P x"
  unfolding yields_def by blast

lemma yields_ret [yield_rules]: "P x \<Longrightarrow> yields P (ret x)"
  by (simp add: yields_def ret_def)

lemma yields_bind [yield_rules]: "(\<And>x. yields P (k x)) \<Longrightarrow> yields P (bind_io m k)"
  unfolding yields_def by (blast elim: bind_io_Inr)

lemma yields_bindQ: "yields Q m \<Longrightarrow> (\<And>x. Q x \<Longrightarrow> yields P (k x)) \<Longrightarrow> yields P (bind_io m k)"
  unfolding yields_def by (blast elim: bind_io_Inr)

lemma yields_for_each:
  "(\<And>x. x \<in> set xs \<Longrightarrow> yields (P x) (f x)) \<Longrightarrow> yields (list_all2 P xs) (for_each f xs)"
proof (induction xs)
  case (Cons x xs)
  have rest: "yields (list_all2 P xs) (for_each f xs)" by (rule Cons.IH) (simp add: Cons.prems)
  show ?case
    by (simp, rule yields_bindQ [OF Cons.prems [of x]], simp, rule yields_bindQ [OF rest], rule yields_ret) simp
qed (simp add: yields_ret)

lemma yields_if [yield_rules]:
  "(b \<Longrightarrow> yields P m) \<Longrightarrow> (\<not> b \<Longrightarrow> yields P m') \<Longrightarrow> yields P (if b then m else m')"
  by simp

lemma lift_Inr_bind: "bind_io (lift (Inr x)) k = k x"
  by (simp add: bind_io_def lift_def fun_eq_iff)

lemma lift_Inl_bind: "bind_io (lift (Inl e)) k = throw e"
  by (simp add: bind_io_def lift_def throw_def fun_eq_iff)

lemma yields_case_sum [yield_rules]:
  "(\<And>e. r = Inl e \<Longrightarrow> yields P (f e)) \<Longrightarrow> (\<And>x. r = Inr x \<Longrightarrow> yields P (g x)) \<Longrightarrow>
   yields P (case r of Inl e \<Rightarrow> f e | Inr x \<Rightarrow> g x)"
  by (cases r) simp_all

lemma yields_lift: "(\<And>x. r = Inr x \<Longrightarrow> P x) \<Longrightarrow> yields P (lift r)"
  by (simp add: yields_def lift_def)

section \<open>The commands a computation runs\<close>

definition commands :: "event list \<Rightarrow> string list list" where
  "commands es = List.map_filter (\<lambda>e. case e of Ran argv \<Rightarrow> Some argv | _ \<Rightarrow> None) es"

lemma commands_simps [simp]:
  "commands [] = []"
  "commands (Ran argv # es) = argv # commands es"
  "commands (RpcCalled u m ps # es) = commands es"
  "commands (Slept n # es) = commands es"
  "commands (MadeTempDir d # es) = commands es"
  "commands (es @ es') = commands es @ commands es'"
  by (simp_all add: commands_def map_filter_def)

lemma commands_map_Ran: "commands (map Ran cs) = cs"
  by (induction cs) simp_all

definition is_quiet :: "event \<Rightarrow> bool" where
  "is_quiet e \<longleftrightarrow> (case e of Ran _ \<Rightarrow> False | _ \<Rightarrow> True)"

lemma is_quiet_simps [simp]:
  "is_quiet (RpcCalled u m ps)" "is_quiet (Slept n)" "is_quiet (MadeTempDir d)"
  "\<not> is_quiet (Ran argv)"
  by (simp_all add: is_quiet_def)

lemma commands_quiet: "list_all is_quiet es \<Longrightarrow> commands es = []"
  by (induction es) (auto simp: is_quiet_def split: event.splits)

text \<open>
  \<open>doing cs m\<close>: \<open>m\<close> leaves the audit log alone and, when it returns, has run exactly the
  commands \<open>cs\<close>, in that order; when it raises, only a first part of them.
\<close>

definition doing :: "string list list \<Rightarrow> 'a io \<Rightarrow> bool" where
  "doing cs m \<longleftrightarrow> (\<forall>w. \<exists>es. trace (snd (m w)) = trace w @ es \<and> audit (snd (m w)) = audit w \<and>
     prefix (commands es) cs \<and> (\<not> isl (fst (m w)) \<longrightarrow> commands es = cs))"

lemma doingE:
  assumes "doing cs m" and "m w = (r, w')"
  obtains es where "trace w' = trace w @ es" "audit w' = audit w" "prefix (commands es) cs"
    "\<not> isl r \<longrightarrow> commands es = cs"
  using assms unfolding doing_def by (metis fst_conv snd_conv)

lemma doing_returns:
  assumes "doing cs m" and "m w = (Inr x, w')"
  obtains es where "trace w' = trace w @ es" "audit w' = audit w" "commands es = cs"
  using doingE [OF assms] by (metis sum.disc(2))

lemma yields_doing:
  assumes "doing cs m" and "yields P m" and "m w = (res, w')"
  obtains es where "trace w' = trace w @ es" "audit w' = audit w" "prefix (commands es) cs"
    "case res of Inl _ \<Rightarrow> True | Inr x \<Rightarrow> commands es = cs \<and> P x"
proof -
  from doingE [OF assms(1,3)] obtain es where "trace w' = trace w @ es" "audit w' = audit w"
    "prefix (commands es) cs" "\<not> isl res \<longrightarrow> commands es = cs" by metis
  with assms(2,3) that [of es] show thesis by (cases res) (auto dest: yieldsD)
qed

lemma adds_doing: "adds is_quiet m \<Longrightarrow> doing [] m"
  unfolding adds_def doing_def by (metis commands_quiet prefix_order.order_refl)

lemma emits_doing: "emits es m \<Longrightarrow> doing (commands es) m"
  unfolding emits_def doing_def by (metis prefix_order.order_refl)

lemma doing_ret: "doing [] (ret x)"
  by (simp add: doing_def ret_def)

lemma doing_bind:
  assumes m: "doing cs m" and k: "\<And>x. doing cs' (k x)"
  shows "doing (cs @ cs') (bind_io m k)"
  unfolding doing_def
proof
  fix w
  obtain r w1 where mw: "m w = (r, w1)" by fastforce
  with m obtain es where es: "trace w1 = trace w @ es" "audit w1 = audit w"
    "prefix (commands es) cs" "\<not> isl r \<longrightarrow> commands es = cs" by (elim doingE)
  show "\<exists>es. trace (snd (bind_io m k w)) = trace w @ es \<and> audit (snd (bind_io m k w)) = audit w \<and>
     prefix (commands es) (cs @ cs') \<and>
     (\<not> isl (fst (bind_io m k w)) \<longrightarrow> commands es = cs @ cs')"
  proof (cases r)
    case (Inl e)
    with mw es show ?thesis by (auto simp: bind_io_def)
  next
    case (Inr x)
    obtain r2 w2 where kw: "k x w1 = (r2, w2)" by fastforce
    with k [of x] obtain es2 where "trace w2 = trace w1 @ es2" "audit w2 = audit w1"
      "prefix (commands es2) cs'" "\<not> isl r2 \<longrightarrow> commands es2 = cs'" by (elim doingE)
    with mw Inr es kw show ?thesis
      by (intro exI [of _ "es @ es2"]) (auto simp: bind_io_def)
  qed
qed

lemma doing_bind_ret: "doing cs m \<Longrightarrow> doing cs (bind_io m (\<lambda>x. ret (f x)))"
  using doing_bind [of cs m "[]" "\<lambda>x. ret (f x)"] by (simp add: doing_ret)

lemma doing_for_each:
  "(\<And>x. doing (cs x) (f x)) \<Longrightarrow> doing (concat (map cs xs)) (for_each f xs)"
proof (induction xs)
  case (Cons x xs)
  have "doing (cs x @ concat (map cs xs)) (for_each f (x # xs))"
    by (simp, rule doing_bind [OF Cons.prems], rule doing_bind_ret, rule Cons.IH [OF Cons.prems])
  then show ?case by simp
qed (simp add: doing_ret)

lemma doing_bindE:
  assumes "doing cs m" and "bind_io m k w = (res, w')"
  obtains (raised) e es where "m w = (Inl e, w')" "res = Inl e" "trace w' = trace w @ es"
      "audit w' = audit w" "prefix (commands es) cs"
    | (returned) x w1 es where "m w = (Inr x, w1)" "k x w1 = (res, w')" "trace w1 = trace w @ es"
      "audit w1 = audit w" "commands es = cs"
proof -
  obtain r w1 where m: "m w = (r, w1)" by fastforce
  from doingE [OF assms(1) m] obtain es where es: "trace w1 = trace w @ es" "audit w1 = audit w"
    "prefix (commands es) cs" "\<not> isl r \<longrightarrow> commands es = cs" by metis
  show thesis
  proof (cases r)
    case (Inl e)
    with m es assms(2) show ?thesis by (intro raised [of e es]) (auto simp: bind_io_def)
  next
    case (Inr x)
    with m es assms(2) show ?thesis by (intro returned [of x w1 es]) (auto simp: bind_io_def)
  qed
qed

section \<open>Computations that end with a record\<close>

definition entry_of :: "string \<Rightarrow> string \<Rightarrow> string \<Rightarrow> string \<Rightarrow> bool \<Rightarrow> json \<Rightarrow> audit_entry" where
  "entry_of operation cluster node mode allowed detail =
     \<lparr>en_operation = operation, en_cluster = cluster, en_node = node, en_mode = mode,
      en_allowed = allowed, en_detail = Some detail\<rparr>"

text \<open>\<open>result = m; if audit: audit.record(\<dots>); return result\<close>\<close>

definition recorded :: "('a \<Rightarrow> audit_entry) \<Rightarrow> 'a io \<Rightarrow> 'a io" where
  "recorded entry m = (\<lambda>w. case m w of
       (Inl e, w1) \<Rightarrow> (Inl e, w1)
     | (Inr x, w1) \<Rightarrow> (Inr x, w1\<lparr>audit := map_option (audit_put (entry x)) (audit w1)\<rparr>))"

text \<open>
  \<open>outcome cs entry w res w'\<close>: from \<open>w\<close> to \<open>w'\<close> exactly the commands \<open>cs\<close> were run and the one
  entry recorded, or an exception was raised, after a first part of the commands and with
  nothing recorded.
\<close>

definition outcome ::
  "string list list \<Rightarrow> ('a \<Rightarrow> audit_entry) \<Rightarrow> world \<Rightarrow> exn + 'a \<Rightarrow> world \<Rightarrow> bool" where
  "outcome cs entry w res w' \<longleftrightarrow> (\<exists>es. trace w' = trace w @ es \<and>
     (case res of
        Inl _ \<Rightarrow> prefix (commands es) cs \<and> audit w' = audit w
      | Inr x \<Rightarrow> commands es = cs \<and> audit w' = map_option (audit_put (entry x)) (audit w)))"

lemma recorded_outcome:
  assumes "doing cs m" and "recorded entry m w = (res, w')"
  shows "outcome cs entry w res w'"
proof -
  obtain r w1 where m: "m w = (r, w1)" by fastforce
  from doingE [OF assms(1) m] obtain es where es: "trace w1 = trace w @ es" "audit w1 = audit w"
    "prefix (commands es) cs" "\<not> isl r \<longrightarrow> commands es = cs" by metis
  with m assms(2) show ?thesis
    by (cases r) (auto simp: recorded_def outcome_def)
qed

lemma recorded_returns: "recorded entry m w = (Inr x, w') \<Longrightarrow> \<exists>w1. m w = (Inr x, w1)"
  by (auto simp: recorded_def split: prod.splits sum.splits)

lemma yields_recorded: "yields P m \<Longrightarrow> yields P (recorded entry m)"
  unfolding yields_def by (blast dest: recorded_returns)

lemma recorded_bind:
  "m w = (Inr x, w1) \<Longrightarrow> recorded entry (bind_io m k) w = recorded entry (k x) w1"
  by (simp add: recorded_def bind_io_def)

lemma recorded_ret_outcome: "recorded entry (ret x) w = (res, w') \<Longrightarrow> outcome [] entry w res w'"
  by (rule recorded_outcome [OF doing_ret])

lemma recorded_ret_result: "recorded entry (ret x) w = (res, w') \<Longrightarrow> res = Inr x"
  by (simp add: recorded_def ret_def)

lemma outcome_after:
  assumes "trace w1 = trace w @ es" and "audit w1 = audit w" and "outcome cs entry w1 res w'"
  shows "outcome (commands es @ cs) entry w res w'"
proof -
  from assms(3) obtain es2 where "trace w' = trace w1 @ es2" "case res of
        Inl _ \<Rightarrow> prefix (commands es2) cs \<and> audit w' = audit w1
      | Inr x \<Rightarrow> commands es2 = cs \<and> audit w' = map_option (audit_put (entry x)) (audit w1)"
    unfolding outcome_def by blast
  with assms(1,2) show ?thesis
    unfolding outcome_def by (intro exI [of _ "es @ es2"]) (cases res, auto)
qed

lemma outcome_raised:
  "trace w' = trace w @ es \<Longrightarrow> audit w' = audit w \<Longrightarrow> prefix (commands es) cs \<Longrightarrow>
   outcome (cs @ cs') entry w (Inl e) w'"
  by (auto simp: outcome_def)

lemma outcome_entry_cong:
  "outcome cs entry w res w' \<Longrightarrow> (\<And>x. res = Inr x \<Longrightarrow> entry x = entry' x) \<Longrightarrow>
   outcome cs entry' w res w'"
  by (cases res) (auto simp: outcome_def)

lemma outcome_logged:
  assumes "outcome cs entry w (Inr x) w'" and "audit w = Some al"
  shows "logged w' = logged w @ [entry x]"
  using assms by (auto simp: outcome_def logged_def audit_entries_put)

end
