(* ===== verification/Executor.thy ===== *)
theory Executor
  imports Config Effects
begin

text \<open>
  The SSH executor of \<open>executor.py\<close>: how a command becomes an \<open>argv\<close> of the system's ssh or
  scp, the read-only inspection of a node, and the steps that change one. The runner is the
  environment's \<open>env_run\<close>; each call is one \<open>Ran\<close> event of the trace. A result dict is a
  record, and its \<open>_json\<close> function the dict the audit log keeps.
\<close>

section \<open>Commands\<close>

definition ssh_options :: "string list" where
  "ssh_options = [''-o'', ''BatchMode=yes'', ''-o'', ''ConnectTimeout=15'',
     ''-o'', ''StrictHostKeyChecking=accept-new'']"

definition key_args :: "ssh_config \<Rightarrow> string list" where
  "key_args s = (case ssh_key_file s of None \<Rightarrow> [] | Some k \<Rightarrow> [''-i'', k])"

definition user_at_host :: "'a ssh_target_scheme \<Rightarrow> string" where
  "user_at_host t = ssh_user (ssh t) @ ''@'' @ host t"

definition ssh_argv :: "'a ssh_target_scheme \<Rightarrow> string \<Rightarrow> string list" where
  "ssh_argv t command =
     [''ssh''] @ ssh_options @ key_args (ssh t)
     @ [''-p'', show_int (ssh_port (ssh t)), user_at_host t, command]"

definition systemctl :: "node \<Rightarrow> string \<Rightarrow> string" where
  "systemctl n verb =
     (let cmd = ''systemctl '' @ verb @ '' '' @ svc_unit (n_service n)
      in if ssh_user (ssh n) = ''root'' then cmd else ''sudo -n '' @ cmd)"

definition run :: "env \<Rightarrow> 'a ssh_target_scheme \<Rightarrow> string \<Rightarrow> command_result io" where
  "run E t command = run_argv E (ssh_argv t command)"

definition scp_base :: "'a ssh_target_scheme \<Rightarrow> string list" where
  "scp_base t = [''scp''] @ ssh_options @ key_args (ssh t) @ [''-P'', show_int (ssh_port (ssh t))]"

definition scp_from_argv :: "'a ssh_target_scheme \<Rightarrow> string \<Rightarrow> string \<Rightarrow> string list" where
  "scp_from_argv t remote_path local_path =
     scp_base t @ [user_at_host t @ '':'' @ remote_path, local_path]"

definition scp_from :: "env \<Rightarrow> 'a ssh_target_scheme \<Rightarrow> string \<Rightarrow> string \<Rightarrow> command_result io" where
  "scp_from E t remote_path local_path = run_argv E (scp_from_argv t remote_path local_path)"

definition scp_to_argv :: "'a ssh_target_scheme \<Rightarrow> string \<Rightarrow> string \<Rightarrow> string list" where
  "scp_to_argv t local_path remote_path =
     scp_base t @ [local_path, user_at_host t @ '':'' @ remote_path]"

definition scp_to :: "env \<Rightarrow> 'a ssh_target_scheme \<Rightarrow> string \<Rightarrow> string \<Rightarrow> command_result io" where
  "scp_to E t local_path remote_path = run_argv E (scp_to_argv t local_path remote_path)"

text \<open>The first word of \<open>sha256sum\<close>'s output; the same code is in \<open>executor.py\<close> and \<open>builder.py\<close>\<close>

definition sha_of_output :: "command_result \<Rightarrow> string option" where
  "sha_of_output r =
     (if cr_ok r \<and> strip (stdout r) \<noteq> [] then Some (hd (split (stdout r))) else None)"

definition remote_sha256 :: "env \<Rightarrow> 'a ssh_target_scheme \<Rightarrow> string \<Rightarrow> string option io" where
  "remote_sha256 E t path =
     bind_io (run E t (''sha256sum '' @ path)) (\<lambda>r. ret (sha_of_output r))"

text \<open>\<open>None if r.ok else (r.stderr.strip() or f"exit {r.exit_code}")\<close>\<close>

definition cmd_error :: "command_result \<Rightarrow> string option" where
  "cmd_error r =
     (if cr_ok r then None
      else Some (or_else (strip (stderr r)) (''exit '' @ show_int (exit_code r))))"

text \<open>The lines \<open>key=value\<close> of an output; the last value of a key wins\<close>

definition parse_kv :: "string \<Rightarrow> (string, string) dict" where
  "parse_kv out =
     dict_of_pairs (map (partition_char CHR ''='')
       (filter (\<lambda>line. CHR ''='' \<in> set line) (splitlines out)))"

text \<open>\<open>int(s) if s.isdigit() else None\<close> of a field that may be missing\<close>

definition int_field :: "(string, string) dict \<Rightarrow> string \<Rightarrow> int option" where
  "int_field info k =
     (case dict_get info k of
        None \<Rightarrow> None
      | Some s \<Rightarrow> if isdigit s then Some (int_of_digits s) else None)"

definition or_zero :: "int option \<Rightarrow> int" where
  "or_zero x = (case x of None \<Rightarrow> 0 | Some v \<Rightarrow> v)"

text \<open>A number rounded to a tenth, as Python prints it\<close>

definition show_tenths :: "rat \<Rightarrow> string" where
  "show_tenths x = (let k = \<lfloor>py_round 1 x * 10\<rfloor>
     in show_int (k div 10) @ ''.'' @ show_int (k mod 10))"

section \<open>Shell text\<close>

definition quoted :: "string \<Rightarrow> string" where
  "quoted s = [CHR 0x27] @ s @ [CHR 0x27]"

definition dquoted :: "string \<Rightarrow> string" where
  "dquoted s = [CHR 0x22] @ s @ [CHR 0x22]"

text \<open>The two characters backslash and \<open>n\<close>, as \<open>printf\<close> expects them\<close>

definition bs_n :: string where
  "bs_n = [backslash, CHR ''n'']"

section \<open>Read-only inspection\<close>

record service_report =
  sr_unit :: string
  sr_active :: "string option"
  sr_sub :: "string option"
  sr_user :: "string option"
  sr_started_at :: "string option"
  sr_ok :: bool
  sr_error :: "string option"

definition none_if_empty :: "string option \<Rightarrow> string option" where
  "none_if_empty s = (if truthy s then s else None)"

definition show_command :: "node \<Rightarrow> string" where
  "show_command n = ''systemctl show '' @ svc_unit (n_service n)
     @ '' -p ActiveState,SubState,ExecMainStartTimestamp,User --no-pager''"

definition service_state :: "env \<Rightarrow> node \<Rightarrow> service_report io" where
  "service_state E n =
     bind_io (run E n (show_command n)) (\<lambda>r.
       let state = parse_kv (stdout r)
       in ret \<lparr>sr_unit = svc_unit (n_service n),
               sr_active = dict_get state ''ActiveState'',
               sr_sub = dict_get state ''SubState'',
               sr_user = dict_get state ''User'',
               sr_started_at = none_if_empty (dict_get state ''ExecMainStartTimestamp''),
               sr_ok = cr_ok r, sr_error = cmd_error r\<rparr>)"

record version_report =
  vr_binary :: string
  vr_binary_version :: "string option"
  vr_marker_version :: "string option"
  vr_ok :: bool
  vr_error :: "string option"

definition version_of_output :: "command_result \<Rightarrow> string option" where
  "version_of_output r =
     (if cr_ok r \<and> strip (stdout r) \<noteq> [] then
        (let parts = split (stdout r) in if length parts \<ge> 2 then Some (parts ! 1) else None)
      else None)"

definition version_command :: "node \<Rightarrow> string" where
  "version_command n = svc_binary (n_service n) @ '' --version''"

definition marker_command :: "node \<Rightarrow> string" where
  "marker_command n = ''cat '' @ the (svc_version_marker (n_service n))"

definition installed_version :: "env \<Rightarrow> node \<Rightarrow> version_report io" where
  "installed_version E n =
     bind_io (run E n (version_command n)) (\<lambda>r.
     bind_io
       (if truthy (svc_version_marker (n_service n)) then
          bind_io (run E n (marker_command n)) (\<lambda>m.
            ret (if cr_ok m then none_if_empty (Some (strip (stdout m))) else None))
        else ret None) (\<lambda>marker.
     ret \<lparr>vr_binary = svc_binary (n_service n), vr_binary_version = version_of_output r,
          vr_marker_version = marker, vr_ok = cr_ok r, vr_error = cmd_error r\<rparr>))"

datatype disk_row =
    DiskError (dr_path: string) (dr_error: string)
  | DiskRow (dr_filesystem: string) (dr_size: string) (dr_used: string) (dr_avail: string)
      (dr_use_pct: string) (dr_path: string)

definition df_row :: "string \<Rightarrow> disk_row option" where
  "df_row line =
     (let cols = split line
      in if length cols \<ge> 6 then
           Some (DiskRow (cols ! 0) (cols ! 1) (cols ! 2) (cols ! 3) (cols ! 4) (cols ! 5))
         else None)"

definition disk_paths :: "node \<Rightarrow> string list" where
  "disk_paths n = [svc_ledger (n_service n), svc_accounts (n_service n)]"

definition df_command :: "node \<Rightarrow> string" where
  "df_command n = ''df -P -BG '' @ join '' '' (disk_paths n)"

definition disk_usage :: "env \<Rightarrow> node \<Rightarrow> disk_row list io" where
  "disk_usage E n =
     bind_io (run E n (df_command n)) (\<lambda>r.
       if \<not> cr_ok r then
         ret (map (\<lambda>p. DiskError p (or_else (strip (stderr r))
                (''exit '' @ show_int (exit_code r)))) (disk_paths n))
       else ret (List.map_filter df_row (drop 1 (splitlines (stdout r)))))"

record inspect_report =
  ir_name :: string
  ir_host :: string
  ir_service :: service_report
  ir_version :: version_report
  ir_disk :: "disk_row list"

definition inspect_node :: "env \<Rightarrow> node \<Rightarrow> inspect_report io" where
  "inspect_node E n =
     bind_io (service_state E n) (\<lambda>s.
     bind_io (installed_version E n) (\<lambda>v.
     bind_io (disk_usage E n) (\<lambda>d.
     ret \<lparr>ir_name = n_name n, ir_host = host n, ir_service = s, ir_version = v, ir_disk = d\<rparr>)))"

text \<open>\<open>_use_pcts\<close> of \<open>operations.py\<close> and \<open>validate.py\<close>: the used percentages that parse\<close>

definition use_pct :: "disk_row \<Rightarrow> int option" where
  "use_pct row =
     (case row of
        DiskError _ _ \<Rightarrow> None
      | DiskRow _ _ _ _ pct _ \<Rightarrow>
          if endswith pct ''%'' \<and> isdigit (butlast pct) then Some (int_of_digits (butlast pct))
          else None)"

definition use_pcts :: "inspect_report \<Rightarrow> int list" where
  "use_pcts r = List.map_filter use_pct (ir_disk r)"

section \<open>Reports as JSON\<close>

definition str_json :: "string option \<Rightarrow> json" where
  "str_json = json_opt JStr"

definition service_json :: "service_report \<Rightarrow> json" where
  "service_json s = JObj
     [(''unit'', JStr (sr_unit s)), (''active'', str_json (sr_active s)),
      (''sub'', str_json (sr_sub s)), (''user'', str_json (sr_user s)),
      (''started_at'', str_json (sr_started_at s)), (''ok'', JBool (sr_ok s)),
      (''error'', str_json (sr_error s))]"

definition version_json :: "version_report \<Rightarrow> json" where
  "version_json v = JObj
     [(''binary'', JStr (vr_binary v)), (''binary_version'', str_json (vr_binary_version v)),
      (''marker_version'', str_json (vr_marker_version v)), (''ok'', JBool (vr_ok v)),
      (''error'', str_json (vr_error v))]"

definition disk_json :: "disk_row \<Rightarrow> json" where
  "disk_json row =
     (case row of
        DiskError p e \<Rightarrow> JObj [(''path'', JStr p), (''error'', JStr e)]
      | DiskRow f s u a pct p \<Rightarrow> JObj
          [(''filesystem'', JStr f), (''size'', JStr s), (''used'', JStr u), (''avail'', JStr a),
           (''use_pct'', JStr pct), (''path'', JStr p)])"

definition inspect_json :: "inspect_report \<Rightarrow> json" where
  "inspect_json r = JObj
     [(''name'', JStr (ir_name r)), (''host'', JStr (ir_host r)),
      (''service'', service_json (ir_service r)), (''version'', version_json (ir_version r)),
      (''disk'', JList (map disk_json (ir_disk r)))]"

section \<open>Steps that change a node\<close>

text \<open>The dict of one step: its action, the fields of its own, \<open>ok\<close> and \<open>error\<close>\<close>

record step_report =
  sp_action :: string
  sp_fields :: "(string \<times> json) list"
  sp_ok :: bool
  sp_error :: "string option"

definition step_json :: "step_report \<Rightarrow> json" where
  "step_json s = JObj ([(''action'', JStr (sp_action s))] @ sp_fields s
     @ [(''ok'', JBool (sp_ok s)), (''error'', str_json (sp_error s))])"

definition step_of :: "string \<Rightarrow> (string \<times> json) list \<Rightarrow> command_result \<Rightarrow> step_report" where
  "step_of action extra r =
     \<lparr>sp_action = action, sp_fields = extra, sp_ok = cr_ok r, sp_error = cmd_error r\<rparr>"

definition stop_service :: "env \<Rightarrow> node \<Rightarrow> step_report io" where
  "stop_service E n = bind_io (run E n (systemctl n ''stop'')) (\<lambda>r.
     ret (step_of ''stop'' [(''unit'', JStr (svc_unit (n_service n)))] r))"

definition start_service :: "env \<Rightarrow> node \<Rightarrow> step_report io" where
  "start_service E n = bind_io (run E n (systemctl n ''start'')) (\<lambda>r.
     ret (step_of ''start'' [(''unit'', JStr (svc_unit (n_service n)))] r))"

definition safe_exit_command :: "node \<Rightarrow> int \<Rightarrow> int \<Rightarrow> string" where
  "safe_exit_command n min_idle_minutes max_delinquent_stake =
     (let base = svc_binary (n_service n) @ '' --ledger '' @ svc_ledger (n_service n) @ '' exit ''
                 @ ''--min-idle-time '' @ show_int min_idle_minutes
                 @ '' --max-delinquent-stake '' @ show_int max_delinquent_stake
      in if ssh_user (ssh n) = svc_run_user (n_service n) then base
         else ''sudo -u '' @ svc_run_user (n_service n) @ '' '' @ base)"

definition validator_safe_exit :: "env \<Rightarrow> node \<Rightarrow> int \<Rightarrow> int \<Rightarrow> step_report io" where
  "validator_safe_exit E n min_idle_minutes max_delinquent_stake =
     bind_io (run E n (safe_exit_command n min_idle_minutes max_delinquent_stake)) (\<lambda>r.
       ret (step_of ''safe_exit'' [(''min_idle_minutes'', JInt min_idle_minutes)] r))"

text \<open>A swap is a staged path, its destination and whether to make it executable.\<close>

type_synonym swap = "string \<times> string \<times> bool"

fun swap_parts :: "swap list \<Rightarrow> string list" where
  "swap_parts [] = []"
| "swap_parts ((staged, dest, is_exec) # swaps) =
     [''mv -f '' @ staged @ '' '' @ dest] @ (if is_exec then [''chmod 755 '' @ dest] else [])
     @ swap_parts swaps"

definition swap_command :: "swap list \<Rightarrow> string" where
  "swap_command swaps = join '' && '' (swap_parts swaps)"

definition atomic_swap :: "env \<Rightarrow> node \<Rightarrow> swap list \<Rightarrow> step_report io" where
  "atomic_swap E n swaps =
     bind_io (run E n (swap_command swaps)) (\<lambda>r.
       ret (step_of ''swap'' [(''count'', JInt (int (length swaps)))] r))"

section \<open>What each step runs\<close>

definition on_host :: "'a ssh_target_scheme \<Rightarrow> string \<Rightarrow> event" where
  "on_host t command = Ran (ssh_argv t command)"

definition host_argvs :: "'a ssh_target_scheme \<Rightarrow> string list \<Rightarrow> string list list" where
  "host_argvs t cs = map (ssh_argv t) cs"

lemma commands_on_host: "commands (map (on_host t) cs) = host_argvs t cs"
  by (induction cs) (simp_all add: on_host_def host_argvs_def)

lemma emits_run: "emits [on_host t c] (run E t c)"
  by (simp add: run_def on_host_def emits_run_argv)

lemma emits_stop: "emits [on_host n (systemctl n ''stop'')] (stop_service E n)"
  by (simp add: stop_service_def emits_bind_ret emits_run)

lemma emits_start: "emits [on_host n (systemctl n ''start'')] (start_service E n)"
  by (simp add: start_service_def emits_bind_ret emits_run)

lemma emits_safe_exit: "emits [on_host n (safe_exit_command n i d)] (validator_safe_exit E n i d)"
  by (simp add: validator_safe_exit_def emits_bind_ret emits_run)

lemma emits_swap: "emits [on_host n (swap_command swaps)] (atomic_swap E n swaps)"
  by (simp add: atomic_swap_def emits_bind_ret emits_run)

lemma emits_remote_sha256: "emits [on_host t (''sha256sum '' @ p)] (remote_sha256 E t p)"
  by (simp add: remote_sha256_def emits_bind_ret emits_run)

text \<open>The commands an inspection runs, in order\<close>

definition inspect_commands :: "node \<Rightarrow> string list" where
  "inspect_commands n =
     [show_command n, version_command n]
     @ (if truthy (svc_version_marker (n_service n)) then [marker_command n] else [])
     @ [df_command n]"

definition inspect_events :: "node \<Rightarrow> event list" where
  "inspect_events n = map (on_host n) (inspect_commands n)"

lemma emits_service_state: "emits [on_host n (show_command n)] (service_state E n)"
  by (simp add: service_state_def Let_def emits_bind_ret emits_run)

lemma emits_installed_version:
  "emits ([on_host n (version_command n)]
     @ (if truthy (svc_version_marker (n_service n))
        then [on_host n (marker_command n)] else []))
   (installed_version E n)"
  unfolding installed_version_def
  by (rule emits_bind [OF emits_run], rule emits_bind_ret)
    (simp add: emits_ret emits_bind_ret emits_run)

lemma emits_disk_usage:
  "emits [on_host n (df_command n)] (disk_usage E n)"
proof -
  have "disk_usage E n = bind_io (run E n (df_command n)) (\<lambda>r.
      ret (if \<not> cr_ok r then
         (map (\<lambda>p. DiskError p (or_else (strip (stderr r))
                (''exit '' @ show_int (exit_code r)))) (disk_paths n))
       else List.map_filter df_row (drop 1 (splitlines (stdout r)))))"
    unfolding disk_usage_def by (rule arg_cong [where f = "bind_io _"]) (simp add: fun_eq_iff)
  then show ?thesis by (simp add: emits_bind_ret emits_run)
qed

lemma emits_inspect_node: "emits (inspect_events n) (inspect_node E n)"
proof -
  have "emits ([on_host n (show_command n)]
      @ (([on_host n (version_command n)]
          @ (if truthy (svc_version_marker (n_service n))
             then [on_host n (marker_command n)] else []))
      @ [on_host n (df_command n)])) (inspect_node E n)"
    unfolding inspect_node_def
    by (rule emits_bind [OF emits_service_state], rule emits_bind [OF emits_installed_version],
        rule emits_bind_ret [OF emits_disk_usage])
  then show ?thesis
    by (cases "truthy (svc_version_marker (n_service n))")
      (simp_all add: inspect_events_def inspect_commands_def)
qed

lemma doing_inspect: "doing (host_argvs n (inspect_commands n)) (inspect_node E n)"
  using emits_doing [OF emits_inspect_node] by (simp add: inspect_events_def commands_on_host)

lemma sha_of_output_word:
  "sha_of_output r = Some h \<Longrightarrow> h \<noteq> [] \<and> (\<forall>c \<in> set h. \<not> is_space c)"
proof -
  assume "sha_of_output r = Some h"
  then have ne: "split (stdout r) \<noteq> []" and h: "h = hd (split (stdout r))"
    using strip_nonempty_split by (auto simp: sha_of_output_def split: if_splits)
  then have "h \<in> set (split (stdout r))" by simp
  then show ?thesis by (rule split_words)
qed

text \<open>Every step reports an error exactly when its command failed.\<close>

lemma step_of_error: "sp_error (step_of a fs r) = None \<longleftrightarrow> sp_ok (step_of a fs r)"
  by (simp add: step_of_def cmd_error_def)

section \<open>Reading back what a command printed\<close>

definition kv_line :: "string \<times> string \<Rightarrow> string" where
  "kv_line = (\<lambda>(k, v). k @ ''='' @ v @ newline)"

definition no_line_end :: "string \<Rightarrow> bool" where
  "no_line_end s \<longleftrightarrow> list_all (\<lambda>c. \<not> is_line_end c) s"

definition kv_printable :: "string \<times> string \<Rightarrow> bool" where
  "kv_printable = (\<lambda>(k, v). CHR ''='' \<notin> set k \<and> no_line_end k \<and> no_line_end v)"

lemma splitlines_aux_line:
  "no_line_end l \<Longrightarrow> splitlines_aux cur (l @ newline @ rest) = (rev cur @ l) # splitlines_aux [] rest"
  by (induction l arbitrary: cur) (auto simp: no_line_end_def newline_def is_line_end_def)

lemma splitlines_kv_lines:
  "list_all kv_printable kvs \<Longrightarrow>
   splitlines (concat (map kv_line kvs)) = map (\<lambda>(k, v). k @ ''='' @ v) kvs"
proof (induction kvs)
  case (Cons p kvs)
  obtain k v where p: "p = (k, v)" by (cases p)
  with Cons.prems have "no_line_end (k @ ''='' @ v)"
    by (simp add: kv_printable_def no_line_end_def is_line_end_def)
  from splitlines_aux_line [OF this, of "[]"] Cons p show ?case
    by (simp add: splitlines_def kv_line_def)
qed (simp add: splitlines_def)

lemma partition_kv: "CHR ''='' \<notin> set k \<Longrightarrow> partition_char CHR ''='' (k @ ''='' @ v) = (k, v)"
  by (induction k) (auto simp: partition_char_def)

lemma dict_set_new: "k \<notin> fst ` set d \<Longrightarrow> dict_set k v d = d @ [(k, v)]"
  by (induction d) auto

lemma dict_of_pairs_distinct:
  assumes "distinct (map fst ps)"
  shows "dict_of_pairs ps = ps"
proof -
  have "distinct (map fst (d @ ps)) \<Longrightarrow> fold (\<lambda>(k, v) d. dict_set k v d) ps d = d @ ps" for d
    by (induction ps arbitrary: d) (auto simp: dict_set_new)
  from this [of "[]"] assms show ?thesis by (simp add: dict_of_pairs_def)
qed

text \<open>
  C39. Reading a command's output back gives what was printed: lines \<open>key=value\<close> with distinct
  keys, no equals sign in a key and no line end in either become exactly the dict of the pairs,
  in their order; a value may hold equals signs and may be empty.
\<close>

theorem parse_kv_printed:
  assumes "list_all kv_printable kvs" and "distinct (map fst kvs)"
  shows "parse_kv (concat (map kv_line kvs)) = kvs"
proof -
  have "map (partition_char CHR ''='') (map (\<lambda>(k, v). k @ ''='' @ v) kvs) = kvs"
    using assms(1) by (induction kvs) (auto simp: kv_printable_def partition_kv [simplified])
  moreover have "filter (\<lambda>line. CHR ''='' \<in> set line) (map (\<lambda>(k, v). k @ ''='' @ v) kvs) =
      map (\<lambda>(k, v). k @ ''='' @ v) kvs"
    by (auto simp: filter_id_conv)
  ultimately show ?thesis
    by (simp only: parse_kv_def splitlines_kv_lines [OF assms(1)] dict_of_pairs_distinct [OF assms(2)])
qed

theorem parse_kv_printed_witness:
  "parse_kv (''ActiveState=active'' @ newline @ ''Environment=A=1'' @ newline @ ''User='' @ newline) =
     [(''ActiveState'', ''active''), (''Environment'', ''A=1''), (''User'', [])]"
  using parse_kv_printed [of "[(''ActiveState'', ''active''), (''Environment'', ''A=1''), (''User'', [])]"]
  by (simp add: kv_printable_def no_line_end_def is_line_end_def kv_line_def newline_def)

end
