(* ===== verification/Schedule.thy ===== *)
theory Schedule
  imports Effects
begin

text \<open>
  The leader-schedule arithmetic of \<open>schedule.py\<close>. Slots are integers. A duration is an exact
  rational: the slot time is 2/5 of a second, and a whole number of slots compared with a whole
  number of seconds has the same outcome in exact and in double arithmetic, as have the
  roundings to a tenth (a multiple of 1/15 is never halfway between two tenths).
\<close>

definition slot_time_s :: rat where
  "slot_time_s = 2 / 5"

section \<open>Runs and free windows\<close>

text \<open>\<open>_runs\<close>: append to the last run or open a new one\<close>

definition runs_step :: "int list list \<Rightarrow> int \<Rightarrow> int list list" where
  "runs_step runs s =
     (if runs \<noteq> [] \<and> s = last (last runs) + 1 then butlast runs @ [last runs @ [s]]
      else runs @ [[s]])"

definition runs :: "int list \<Rightarrow> int list list" where
  "runs slots = foldl runs_step [] slots"

text \<open>The loop of \<open>_free_windows\<close>: the windows it appends and where its cursor ends\<close>

fun window_loop :: "int \<Rightarrow> int list list \<Rightarrow> (int \<times> int) list \<times> int" where
  "window_loop cursor [] = ([], cursor)"
| "window_loop cursor (run # rest) =
     (let (ws, c) = window_loop (last run + 1) rest
      in ((if hd run - cursor > 0 then [(cursor, hd run)] else []) @ ws, c))"

definition all_windows :: "int \<Rightarrow> int list \<Rightarrow> int \<Rightarrow> (int \<times> int) list" where
  "all_windows current upcoming epoch_end =
     (let (ws, cursor) = window_loop current (runs upcoming)
      in ws @ (if epoch_end - cursor > 0 then [(cursor, epoch_end)] else []))"

record free_window =
  fw_start_slot :: int
  fw_end_slot :: int
  fw_slots :: int
  fw_duration_minutes :: rat

definition free_windows :: "int \<Rightarrow> int list \<Rightarrow> int \<Rightarrow> rat \<Rightarrow> free_window list" where
  "free_windows current upcoming epoch_end min_window_s =
     map (\<lambda>(a, b). \<lparr>fw_start_slot = a, fw_end_slot = b, fw_slots = b - a,
            fw_duration_minutes = py_round 1 (of_int (b - a) * slot_time_s / 60)\<rparr>)
       (filter (\<lambda>(a, b). of_int (b - a) * slot_time_s \<ge> min_window_s)
         (all_windows current upcoming epoch_end))"

section \<open>Leader windows\<close>

record leader_report =
  lw_identity :: string
  lw_epoch :: json
  lw_current_slot :: int
  lw_leads_this_epoch :: nat
  lw_next_leader_slot :: "int option"
  lw_seconds_to_next_leader :: "rat option"
  lw_safe_now :: bool
  lw_min_window_minutes :: int
  lw_windows :: "free_window list"

text \<open>The slots the epoch info gives: the absolute slot, and where the epoch starts and ends\<close>

definition epoch_slots :: "json \<Rightarrow> exn + int \<times> int \<times> int" where
  "epoch_slots epoch =
     and_then (json_index epoch ''absoluteSlot'') (\<lambda>a.
     and_then (json_index epoch ''slotIndex'') (\<lambda>i.
     and_then (as_int a) (\<lambda>absolute.
     and_then (as_int i) (\<lambda>index.
     and_then (json_index epoch ''slotsInEpoch'') (\<lambda>n.
     and_then (as_int n) (\<lambda>slots.
       Inr (absolute, absolute - index, absolute - index + slots)))))))"

text \<open>\<open>(sched or {}).get(identity, []) or []\<close>\<close>

definition leader_indices :: "json \<Rightarrow> string \<Rightarrow> exn + int list" where
  "leader_indices sched identity =
     and_then (json_get (if json_truthy sched then sched else JObj []) identity) (\<lambda>entry.
       case entry of
         None \<Rightarrow> Inr []
       | Some v \<Rightarrow> if json_truthy v then and_then (as_list v) (all_of as_int) else Inr [])"

definition upcoming_slots :: "int \<Rightarrow> int \<Rightarrow> int list \<Rightarrow> int list" where
  "upcoming_slots absolute epoch_start indices =
     sort (map (\<lambda>i. epoch_start + i) (filter (\<lambda>i. epoch_start + i > absolute) indices))"

definition leader_view ::
  "string \<Rightarrow> int \<Rightarrow> json \<Rightarrow> int \<Rightarrow> int \<Rightarrow> int \<Rightarrow> int list \<Rightarrow> leader_report" where
  "leader_view identity min_window_minutes epoch absolute epoch_start epoch_end indices =
     (let upcoming = upcoming_slots absolute epoch_start indices;
          next_leader = (case upcoming of [] \<Rightarrow> None | s # _ \<Rightarrow> Some s);
          seconds_to_next = map_option (\<lambda>s. of_int (s - absolute) * slot_time_s) next_leader;
          min_window_s = of_int (min_window_minutes * 60);
          safe_now = (case seconds_to_next of None \<Rightarrow> True | Some t \<Rightarrow> t \<ge> min_window_s)
      in \<lparr>lw_identity = identity, lw_epoch = epoch, lw_current_slot = absolute,
          lw_leads_this_epoch = length indices, lw_next_leader_slot = next_leader,
          lw_seconds_to_next_leader = map_option (py_round 1) seconds_to_next,
          lw_safe_now = safe_now, lw_min_window_minutes = min_window_minutes,
          lw_windows = free_windows absolute upcoming epoch_end min_window_s\<rparr>)"

definition leader_windows :: "env \<Rightarrow> string \<Rightarrow> string \<Rightarrow> int \<Rightarrow> leader_report io" where
  "leader_windows E rpc_url identity min_window_minutes =
     bind_io (rpc_call E rpc_url ''getEpochInfo'' []) (\<lambda>epoch.
     bind_io (lift (epoch_slots epoch)) (\<lambda>(absolute, epoch_start, epoch_end).
     bind_io (rpc_call E rpc_url ''getLeaderSchedule''
       [JInt absolute, JObj [(''identity'', JStr identity)]]) (\<lambda>sched.
     bind_io (lift (leader_indices sched identity)) (\<lambda>indices.
     bind_io (lift (json_index epoch ''epoch'')) (\<lambda>number.
     ret (leader_view identity min_window_minutes number absolute epoch_start epoch_end indices))))))"

definition window_json :: "free_window \<Rightarrow> json" where
  "window_json w = JObj
     [(''start_slot'', JInt (fw_start_slot w)), (''end_slot'', JInt (fw_end_slot w)),
      (''slots'', JInt (fw_slots w)), (''duration_minutes'', JNum (fw_duration_minutes w))]"

definition leader_json :: "leader_report \<Rightarrow> json" where
  "leader_json l = JObj
     [(''identity'', JStr (lw_identity l)), (''epoch'', lw_epoch l),
      (''current_slot'', JInt (lw_current_slot l)),
      (''leads_this_epoch'', JInt (int (lw_leads_this_epoch l))),
      (''next_leader_slot'', json_opt JInt (lw_next_leader_slot l)),
      (''seconds_to_next_leader'', json_opt JNum (lw_seconds_to_next_leader l)),
      (''safe_now'', JBool (lw_safe_now l)),
      (''min_window_minutes'', JInt (lw_min_window_minutes l)),
      (''windows'', JList (map window_json (lw_windows l)))]"

section \<open>Facts on runs\<close>

text \<open>A run is a non-empty list of consecutive slots.\<close>

definition is_run :: "int list \<Rightarrow> bool" where
  "is_run r \<longleftrightarrow> r \<noteq> [] \<and> hd r \<le> last r \<and> set r = {hd r..last r}"

lemma is_run_snoc: "is_run r \<Longrightarrow> is_run (r @ [last r + 1])"
  by (auto simp: is_run_def)

lemma runs_step_inv:
  assumes "\<forall>r \<in> set rs. is_run r"
  shows "concat (runs_step rs s) = concat rs @ [s] \<and> (\<forall>r \<in> set (runs_step rs s). is_run r)"
proof (cases "rs \<noteq> [] \<and> s = last (last rs) + 1")
  case True
  then obtain ys y where rs: "rs = ys @ [y]" by (metis append_butlast_last_id)
  with True assms show ?thesis by (simp add: runs_step_def is_run_snoc)
next
  case False
  then have "runs_step rs s = rs @ [[s]]" unfolding runs_step_def by (rule if_not_P)
  with assms show ?thesis by (simp add: is_run_def)
qed

lemma runs_inv:
  "\<forall>r \<in> set rs. is_run r \<Longrightarrow>
   concat (foldl runs_step rs slots) = concat rs @ slots \<and>
   (\<forall>r \<in> set (foldl runs_step rs slots). is_run r)"
proof (induction slots arbitrary: rs)
  case (Cons s slots)
  from runs_step_inv [OF Cons.prems, of s] Cons.IH [of "runs_step rs s"] show ?case by simp
qed simp

lemma concat_runs: "concat (runs slots) = slots"
  and is_run_runs: "r \<in> set (runs slots) \<Longrightarrow> is_run r"
  using runs_inv [of "[]" slots] by (simp_all add: runs_def)

section \<open>Facts on windows\<close>

definition window_slots :: "(int \<times> int) list \<Rightarrow> int set" where
  "window_slots ws = (\<Union>(a, b) \<in> set ws. {a..<b})"

lemma window_slots_simps [simp]:
  "window_slots [] = {}"
  "window_slots ((a, b) # ws) = {a..<b} \<union> window_slots ws"
  "window_slots (ws @ vs) = window_slots ws \<union> window_slots vs"
  by (auto simp: window_slots_def)

lemma window_loop_slots:
  assumes "\<forall>r \<in> set rs. is_run r" and "sorted (concat rs)" and "\<forall>s \<in> set (concat rs). cursor - 1 \<le> s"
    and "window_loop cursor rs = (ws, c)"
  shows "window_slots ws = {cursor..<c} - set (concat rs) \<and> cursor \<le> c
    \<and> (\<forall>s \<in> set (concat rs). s < c) \<and> (c = cursor \<or> c - 1 \<in> set (concat rs))"
  using assms
proof (induction rs arbitrary: cursor ws c)
  case (Cons run rest)
  obtain ws' where w: "window_loop (last run + 1) rest = (ws', c)"
    and ws: "ws = (if hd run - cursor > 0 then [(cursor, hd run)] else []) @ ws'"
    using Cons.prems(4) by (auto simp: Let_def split: prod.splits)
  have run: "run \<noteq> []" "hd run \<le> last run" "set run = {hd run..last run}"
    using Cons.prems(1) by (auto simp: is_run_def)
  have above: "\<forall>s \<in> set (concat rest). last run \<le> s"
    using Cons.prems(2) run(1) by (auto simp: sorted_append)
  have hd: "cursor - 1 \<le> hd run" using Cons.prems(3) run by auto
  have IH: "window_slots ws' = {last run + 1..<c} - set (concat rest)" "last run + 1 \<le> c"
    "\<forall>s \<in> set (concat rest). s < c" "c = last run + 1 \<or> c - 1 \<in> set (concat rest)"
    using Cons.IH [OF _ _ _ w] Cons.prems(1,2) above by (auto simp: sorted_append)
  have "window_slots ws = {cursor..<hd run} \<union> ({last run + 1..<c} - set (concat rest))"
    using ws IH(1) by auto
  also have "\<dots> = {cursor..<c} - set (concat (run # rest))"
  proof (intro set_eqI iffI)
    fix x
    assume x: "x \<in> {cursor..<hd run} \<union> ({last run + 1..<c} - set (concat rest))"
    show "x \<in> {cursor..<c} - set (concat (run # rest))"
    proof (cases "x < hd run")
      case True
      with run(2) have "\<not> last run \<le> x" by simp
      with above have "x \<notin> set (concat rest)" by blast
      with x True run IH(2) show ?thesis by auto
    next
      case False
      with x run hd show ?thesis by auto
    qed
  next
    fix x
    assume "x \<in> {cursor..<c} - set (concat (run # rest))"
    then show "x \<in> {cursor..<hd run} \<union> ({last run + 1..<c} - set (concat rest))"
      using run by auto
  qed
  finally show ?case using IH run hd by auto
qed simp

lemma all_windows_slots:
  assumes "sorted upcoming" and "\<forall>s \<in> set upcoming. current < s \<and> s < epoch_end"
    and "current \<le> epoch_end"
  shows "window_slots (all_windows current upcoming epoch_end) =
    {current..<epoch_end} - set upcoming"
proof -
  obtain ws c where w: "window_loop current (runs upcoming) = (ws, c)" by fastforce
  have r: "\<forall>r \<in> set (runs upcoming). is_run r" using is_run_runs by blast
  have o: "sorted (concat (runs upcoming))" using assms(1) by (simp add: concat_runs)
  have b: "\<forall>s \<in> set (concat (runs upcoming)). current - 1 \<le> s"
    using assms(2) by (auto simp: concat_runs simp del: set_concat)
  have "window_slots ws = {current..<c} - set upcoming" "current \<le> c"
    "\<forall>s \<in> set upcoming. s < c" "c = current \<or> c - 1 \<in> set upcoming"
    using window_loop_slots [OF r o b w, unfolded concat_runs] by blast+
  moreover from this(4) assms(2,3) have "c \<le> epoch_end" by auto
  moreover have "all_windows current upcoming epoch_end =
      ws @ (if epoch_end - c > 0 then [(c, epoch_end)] else [])"
    by (simp add: all_windows_def w)
  ultimately show ?thesis by auto
qed

lemma upcoming_slots_sorted: "sorted (upcoming_slots a st is)"
  by (simp add: upcoming_slots_def)

lemma set_upcoming_slots: "set (upcoming_slots a st is) = {s \<in> (\<lambda>i. st + i) ` set is. a < s}"
  by (auto simp: upcoming_slots_def)

section \<open>What the report promises\<close>

definition report_slots :: "free_window list \<Rightarrow> int set" where
  "report_slots ws = (\<Union>w \<in> set ws. {fw_start_slot w..<fw_end_slot w})"

definition leader_slots :: "int \<Rightarrow> int list \<Rightarrow> int set" where
  "leader_slots epoch_start indices = (\<lambda>i. epoch_start + i) ` set indices"

lemma report_slots_all:
  "(\<forall>(a, b) \<in> set (all_windows c u e). a \<le> b) \<Longrightarrow>
   report_slots (free_windows c u e 0) = window_slots (all_windows c u e)"
  by (auto simp: report_slots_def window_slots_def free_windows_def slot_time_s_def)

lemma window_loop_ordered: "window_loop c rs = (ws, c') \<Longrightarrow> (a, b) \<in> set ws \<Longrightarrow> a < b"
  by (induction c rs arbitrary: ws c' rule: window_loop.induct)
    (auto simp: Let_def split: prod.splits if_splits)

lemma all_windows_ordered: "(a, b) \<in> set (all_windows c u e) \<Longrightarrow> a < b"
  by (cases "window_loop c (runs u)")
    (auto simp: all_windows_def split: if_splits dest: window_loop_ordered)

lemma free_windows_filter:
  "free_windows c u e m =
   filter (\<lambda>w. of_int (fw_slots w) * slot_time_s \<ge> m) (free_windows c u e 0)" if "0 \<le> m"
proof -
  have "set (all_windows c u e) \<subseteq> {(a, b). 0 \<le> of_int (b - a) * slot_time_s}"
    using all_windows_ordered [of _ _ c u e] by (force simp: slot_time_s_def)
  then have "filter (\<lambda>(a, b). 0 \<le> of_int (b - a) * slot_time_s) (all_windows c u e) = all_windows c u e"
    by (intro filter_True) auto
  then show ?thesis
    by (simp add: free_windows_def filter_map o_def case_prod_unfold)
qed

text \<open>
  C16. The windows of a leader report, for a schedule inside the epoch and no minimum length,
  cover exactly the slots from the current one to the end of the epoch that are not leader
  slots still to come; with a minimum length the report keeps exactly those of them that last
  at least as long. So a restart inside a reported window misses no coming leader slot.
\<close>

theorem leader_windows_exact:
  assumes "\<forall>s \<in> leader_slots epoch_start indices. s < epoch_end" and "absolute \<le> epoch_end"
    and "0 \<le> m"
  shows "report_slots (lw_windows (leader_view ident 0 epoch absolute epoch_start epoch_end indices)) =
      {absolute..<epoch_end} - {s \<in> leader_slots epoch_start indices. absolute < s}
    \<and> lw_windows (leader_view ident m epoch absolute epoch_start epoch_end indices) =
      filter (\<lambda>w. of_int (fw_slots w) * slot_time_s \<ge> of_int (m * 60))
        (lw_windows (leader_view ident 0 epoch absolute epoch_start epoch_end indices))"
proof
  let ?u = "upcoming_slots absolute epoch_start indices"
  have u: "set ?u = {s \<in> leader_slots epoch_start indices. absolute < s}"
    by (simp add: set_upcoming_slots leader_slots_def)
  have w: "lw_windows (leader_view ident k epoch absolute epoch_start epoch_end indices) =
      free_windows absolute ?u epoch_end (of_int (k * 60))" for k
    by (simp add: leader_view_def Let_def)
  have "report_slots (free_windows absolute ?u epoch_end 0) =
      window_slots (all_windows absolute ?u epoch_end)"
    using all_windows_ordered [of _ _ absolute ?u epoch_end]
    by (intro report_slots_all) force
  also have "\<dots> = {absolute..<epoch_end} - set ?u"
    using assms(1,2) by (intro all_windows_slots) (auto simp: upcoming_slots_sorted u)
  finally show "report_slots (lw_windows
        (leader_view ident 0 epoch absolute epoch_start epoch_end indices)) =
      {absolute..<epoch_end} - {s \<in> leader_slots epoch_start indices. absolute < s}"
    by (simp add: u w)
  show "lw_windows (leader_view ident m epoch absolute epoch_start epoch_end indices) =
      filter (\<lambda>w. of_int (fw_slots w) * slot_time_s \<ge> of_int (m * 60))
        (lw_windows (leader_view ident 0 epoch absolute epoch_start epoch_end indices))"
    using free_windows_filter [of "of_int (m * 60)" absolute ?u epoch_end] assms(3)
    by (simp add: w)
qed

theorem leader_windows_exact_witness:
  "report_slots (lw_windows (leader_view ''v'' 0 (JInt 5) 1100 1000 11000 [150, 151])) =
    {1100..<11000} - {s \<in> leader_slots 1000 [150, 151]. 1100 < s}"
proof -
  have h: "\<forall>s \<in> leader_slots 1000 [150, 151]. s < 11000" "(1100::int) \<le> 11000" "(0::int) \<le> 5"
    by (simp_all add: leader_slots_def)
  show ?thesis using leader_windows_exact [OF h, of "''v''" "JInt 5"] by blast
qed

text \<open>
  The report calls it safe to restart now exactly when every leader slot after the current
  one is at least the required number of minutes away.
\<close>

theorem safe_now_iff:
  "lw_safe_now (leader_view ident m epoch absolute epoch_start epoch_end indices) =
   ({s \<in> leader_slots epoch_start indices. absolute < s \<and>
      of_int (s - absolute) * slot_time_s < of_int (m * 60)} = {})"
proof (cases "upcoming_slots absolute epoch_start indices")
  case Nil
  then have "{s \<in> leader_slots epoch_start indices. absolute < s} = {}"
    using set_upcoming_slots [of absolute epoch_start indices] by (simp add: leader_slots_def)
  with Nil show ?thesis by (auto simp: leader_view_def)
next
  case (Cons s rest)
  have first: "s \<le> x" if "x \<in> leader_slots epoch_start indices" "absolute < x" for x
    using upcoming_slots_sorted [of absolute epoch_start indices]
      set_upcoming_slots [of absolute epoch_start indices] that Cons
    by (auto simp: leader_slots_def)
  have s: "s \<in> leader_slots epoch_start indices" "absolute < s"
    using set_upcoming_slots [of absolute epoch_start indices] Cons by (auto simp: leader_slots_def)
  have le: "of_int (s - absolute) * slot_time_s \<le> of_int (x - absolute) * slot_time_s"
    if "s \<le> x" for x
    using that by (intro mult_right_mono) (simp_all add: slot_time_s_def)
  have "lw_safe_now (leader_view ident m epoch absolute epoch_start epoch_end indices) =
      (of_int (m * 60) \<le> of_int (s - absolute) * slot_time_s)"
    by (simp add: leader_view_def Cons Let_def)
  also have "\<dots> \<longleftrightarrow> {s \<in> leader_slots epoch_start indices. absolute < s \<and>
      of_int (s - absolute) * slot_time_s < of_int (m * 60)} = {}"
    using s first le by (force simp: not_less [symmetric])
  finally show ?thesis .
qed

text \<open>
  A validator in its own leader slot is told that it is safe to restart, with a window that
  starts at that very slot: the slots to come are those after the current one.
\<close>

theorem leading_now_reported_safe:
  "lw_safe_now (leader_view ident m epoch absolute epoch_start epoch_end [absolute - epoch_start])
   \<and> absolute \<in> leader_slots epoch_start [absolute - epoch_start]"
  by (simp add: safe_now_iff leader_slots_def leader_view_def upcoming_slots_def)

text \<open>What the RPC errors leave to the caller: the report makes two calls and never touches a host.\<close>

lemma adds_leader_windows:
  "(\<And>m ps. P (RpcCalled url m ps)) \<Longrightarrow> adds P (leader_windows E url ident mins)"
  unfolding leader_windows_def
  by (intro frame_rules) simp_all

end
