(* ===== verification/Probe.thy ===== *)
theory Probe
  imports Config Effects
begin

text \<open>
  The health probe of \<open>probe.py\<close>. The values an RPC returns stay JSON values, as in the code,
  and an operation on one of the wrong shape raises what Python raises. \<open>asyncio.gather\<close> is
  modelled as running its coroutines one after the other, in list order.
\<close>

section \<open>Statuses\<close>

record node_status =
  ns_name :: string
  ns_cluster :: string
  ns_role :: role
  ns_reachable :: bool
  ns_healthy :: "bool option"
  ns_version :: json
  ns_slot :: json
  ns_slot_lag :: "int option"
  ns_delinquent :: "bool option"
  ns_activated_stake_sol :: "rat option"
  ns_vote_credits :: json
  ns_last_vote :: json
  ns_error :: "string option"

text \<open>A status with only its required fields, as the dataclass builds it\<close>

definition fresh_status :: "string \<Rightarrow> string \<Rightarrow> role \<Rightarrow> node_status" where
  "fresh_status nm cl r =
     \<lparr>ns_name = nm, ns_cluster = cl, ns_role = r, ns_reachable = False, ns_healthy = None,
      ns_version = JNull, ns_slot = JNull, ns_slot_lag = None, ns_delinquent = None,
      ns_activated_stake_sol = None, ns_vote_credits = JNull, ns_last_vote = JNull,
      ns_error = None\<rparr>"

record cluster_status =
  cs_name :: string
  cs_reference_rpc :: string
  cs_reference_slot :: json
  cs_reference_version :: json
  cs_reference_error :: "string option"
  cs_nodes :: "node_status list"

definition node_status_json :: "node_status \<Rightarrow> json" where
  "node_status_json s = JObj
     [(''name'', JStr (ns_name s)), (''cluster'', JStr (ns_cluster s)),
      (''role'', JStr (role_name (ns_role s))), (''reachable'', JBool (ns_reachable s)),
      (''healthy'', json_opt JBool (ns_healthy s)), (''version'', ns_version s),
      (''slot'', ns_slot s), (''slot_lag'', json_opt JInt (ns_slot_lag s)),
      (''delinquent'', json_opt JBool (ns_delinquent s)),
      (''activated_stake_sol'', json_opt JNum (ns_activated_stake_sol s)),
      (''vote_credits'', ns_vote_credits s), (''last_vote'', ns_last_vote s),
      (''error'', json_opt JStr (ns_error s))]"

definition cluster_status_json :: "cluster_status \<Rightarrow> json" where
  "cluster_status_json c = JObj
     [(''name'', JStr (cs_name c)), (''reference_rpc'', JStr (cs_reference_rpc c)),
      (''reference_slot'', cs_reference_slot c), (''reference_version'', cs_reference_version c),
      (''reference_error'', json_opt JStr (cs_reference_error c)),
      (''nodes'', JList (map node_status_json (cs_nodes c)))]"

section \<open>One node\<close>

record vote_entry =
  ve_delinquent :: bool
  ve_stake_sol :: rat
  ve_credits :: json
  ve_last_vote :: json

definition with_votes :: "(string, vote_entry) dict option \<Rightarrow> node \<Rightarrow> node_status \<Rightarrow> node_status" where
  "with_votes votes n s =
     (if truthy (n_identity n) then
        (case votes of
           None \<Rightarrow> s
         | Some vs \<Rightarrow>
             (case dict_get vs (the (n_identity n)) of
                None \<Rightarrow> s
              | Some v \<Rightarrow> s\<lparr>ns_delinquent := Some (ve_delinquent v),
                           ns_activated_stake_sol := Some (ve_stake_sol v),
                           ns_vote_credits := ve_credits v, ns_last_vote := ve_last_vote v\<rparr>))
      else s)"

text \<open>\<open>max(0, reference_slot - status.slot)\<close> when both are known\<close>

definition lag_of :: "json \<Rightarrow> json \<Rightarrow> exn + int option" where
  "lag_of ref slot =
     (if ref = JNull \<or> slot = JNull then Inr None
      else and_then (as_int ref) (\<lambda>r. and_then (as_int slot) (\<lambda>s. Inr (Some (max 0 (r - s))))))"

text \<open>
  The calls after the health check, in the outer \<open>try\<close>: what was assigned before the call that
  failed is kept.
\<close>

definition probe_version_slot :: "env \<Rightarrow> string \<Rightarrow> json \<Rightarrow> node_status \<Rightarrow> node_status io" where
  "probe_version_slot E url ref s =
     bind_io (attempt (rpc_call E url ''getVersion'' [])) (\<lambda>r1. case r1 of
       Inl e \<Rightarrow> ret (s\<lparr>ns_error := Some (exn_text E e)\<rparr>)
     | Inr version \<Rightarrow>
         bind_io (lift (json_get version ''solana-core'')) (\<lambda>core.
         let s1 = s\<lparr>ns_version := (case core of None \<Rightarrow> JNull | Some v \<Rightarrow> v)\<rparr> in
         bind_io (attempt (rpc_call E url ''getSlot'' [])) (\<lambda>r2. case r2 of
           Inl e \<Rightarrow> ret (s1\<lparr>ns_error := Some (exn_text E e)\<rparr>)
         | Inr slot \<Rightarrow>
             bind_io (lift (lag_of ref slot)) (\<lambda>lag.
             ret (s1\<lparr>ns_slot := slot, ns_slot_lag := lag\<rparr>)))))"

text \<open>\<open>except RpcError\<close>: a node that is behind answers \<open>getHealth\<close> with an error.\<close>

definition is_rpc_error :: "exn \<Rightarrow> bool" where
  "is_rpc_error e = (case e of RpcError _ _ \<Rightarrow> True | _ \<Rightarrow> False)"

definition probe_node ::
  "env \<Rightarrow> string \<Rightarrow> node \<Rightarrow> json \<Rightarrow> (string, vote_entry) dict option \<Rightarrow> node_status io" where
  "probe_node E cluster_name n ref votes =
     (let s = with_votes votes n (fresh_status (n_name n) cluster_name (n_role n)) in
      if \<not> truthy (n_rpc_url n) then
        ret (s\<lparr>ns_error := Some ''no rpc_url configured; probe limited to cluster-side data''\<rparr>)
      else
        (let url = the (n_rpc_url n) in
         bind_io (attempt (rpc_call E url ''getHealth'' [])) (\<lambda>r. case r of
           Inr health \<Rightarrow>
             probe_version_slot E url ref
               (s\<lparr>ns_healthy := Some (health = JStr ''ok''), ns_reachable := True\<rparr>)
         | Inl e \<Rightarrow>
             if is_rpc_error e then
               probe_version_slot E url ref (s\<lparr>ns_healthy := Some False, ns_reachable := True\<rparr>)
             else ret (s\<lparr>ns_error := Some (''unreachable: '' @ exn_text E e)\<rparr>))))"

section \<open>One cluster\<close>

text \<open>\<open>ec = acct.get("epochCredits") or []\<close>, then \<open>ec[-1][1] if ec else 0\<close>\<close>

definition last_credits :: "json option \<Rightarrow> exn + json" where
  "last_credits ec =
     (case ec of
        None \<Rightarrow> Inr (JInt 0)
      | Some v \<Rightarrow>
          if \<not> json_truthy v then Inr (JInt 0)
          else and_then (as_list v) (\<lambda>xs.
            case last xs of
              JList row \<Rightarrow> (if length row > 1 then Inr (row ! 1) else Inl (ValueError ''index''))
            | _ \<Rightarrow> Inl TypeError))"

definition lamports_per_sol :: int where
  "lamports_per_sol = 1000000000"

definition as_key :: "json \<Rightarrow> exn + string" where
  "as_key v = (case v of JStr s \<Rightarrow> Inr s | _ \<Rightarrow> Inl TypeError)"

definition vote_entry_of :: "bool \<Rightarrow> json \<Rightarrow> exn + string \<times> vote_entry" where
  "vote_entry_of delinquent acct =
     and_then (json_get acct ''epochCredits'') (\<lambda>ec.
     and_then (json_get acct ''activatedStake'') (\<lambda>stake.
     and_then (as_int (case stake of None \<Rightarrow> JInt 0 | Some v \<Rightarrow> v)) (\<lambda>lamports.
     and_then (last_credits ec) (\<lambda>credits.
     and_then (json_get acct ''lastVote'') (\<lambda>lv.
     and_then (json_index acct ''nodePubkey'') (\<lambda>key.
     and_then (as_key key) (\<lambda>k.
       Inr (k, \<lparr>ve_delinquent = delinquent,
               ve_stake_sol = of_int lamports / of_int lamports_per_sol,
               ve_credits = credits,
               ve_last_vote = (case lv of None \<Rightarrow> JNull | Some v \<Rightarrow> v)\<rparr>))))))))"

text \<open>One group of accounts; a value that is no list counts as not iterable\<close>

definition vote_entries :: "bool \<Rightarrow> json option \<Rightarrow> exn + (string \<times> vote_entry) list" where
  "vote_entries delinquent accts =
     (case accts of
        None \<Rightarrow> Inr []
      | Some v \<Rightarrow> and_then (as_list v) (all_of (vote_entry_of delinquent)))"

definition vote_table :: "json \<Rightarrow> exn + (string, vote_entry) dict" where
  "vote_table accounts =
     and_then (json_get accounts ''current'') (\<lambda>cur.
     and_then (json_get accounts ''delinquent'') (\<lambda>del.
     and_then (vote_entries False cur) (\<lambda>es1.
     and_then (vote_entries True del) (\<lambda>es2.
       Inr (dict_of_pairs (es1 @ es2))))))"

definition vote_params :: "json list" where
  "vote_params = [JObj [(''keepUnstakedDelinquents'', JBool True)]]"

text \<open>
  The reference side: the slot and the version as far as they were read, the vote table when
  the cluster has identities, and the error that stopped it.
\<close>

record reference_view =
  rv_slot :: json
  rv_version :: json
  rv_votes :: "(string, vote_entry) dict option"
  rv_error :: "string option"

definition probe_reference :: "env \<Rightarrow> cluster \<Rightarrow> reference_view io" where
  "probe_reference E c =
     (let url = cl_reference_rpc c;
          failed = (\<lambda>slot version e. ret \<lparr>rv_slot = slot, rv_version = version, rv_votes = None,
             rv_error = Some (''reference rpc failed: '' @ exn_text E e)\<rparr>) in
      bind_io (attempt (rpc_call E url ''getSlot'' [])) (\<lambda>r1. case r1 of
        Inl e \<Rightarrow> failed JNull JNull e
      | Inr slot \<Rightarrow>
      bind_io (attempt (rpc_call E url ''getVersion'' [])) (\<lambda>r2. case r2 of
        Inl e \<Rightarrow> failed slot JNull e
      | Inr version \<Rightarrow>
      bind_io (lift (json_get version ''solana-core'')) (\<lambda>core.
      let v = (case core of None \<Rightarrow> JNull | Some x \<Rightarrow> x) in
      if list_ex (\<lambda>n. truthy (n_identity n)) (cl_nodes c) then
        bind_io (attempt (rpc_call E url ''getVoteAccounts'' vote_params)) (\<lambda>r3. case r3 of
          Inl e \<Rightarrow> failed slot v e
        | Inr accounts \<Rightarrow>
            bind_io (lift (vote_table accounts)) (\<lambda>votes.
            ret \<lparr>rv_slot = slot, rv_version = v, rv_votes = Some votes, rv_error = None\<rparr>))
      else ret \<lparr>rv_slot = slot, rv_version = v, rv_votes = None, rv_error = None\<rparr>))))"

definition probe_cluster :: "env \<Rightarrow> string \<Rightarrow> cluster \<Rightarrow> cluster_status io" where
  "probe_cluster E name c =
     bind_io (probe_reference E c) (\<lambda>rv.
     bind_io (for_each (\<lambda>n. probe_node E name n (rv_slot rv) (rv_votes rv)) (cl_nodes c)) (\<lambda>nodes.
     ret \<lparr>cs_name = name, cs_reference_rpc = cl_reference_rpc c, cs_reference_slot = rv_slot rv,
          cs_reference_version = rv_version rv, cs_reference_error = rv_error rv,
          cs_nodes = nodes\<rparr>))"

definition probe_fleet :: "env \<Rightarrow> fleet \<Rightarrow> cluster_status list io" where
  "probe_fleet E f = for_each (\<lambda>(name, c). probe_cluster E name c) (fl_clusters f)"

section \<open>What a probe does\<close>

definition is_rpc_event :: "event \<Rightarrow> bool" where
  "is_rpc_event e \<longleftrightarrow> (case e of RpcCalled _ _ _ \<Rightarrow> True | _ \<Rightarrow> False)"

lemma is_rpc_event_simps [simp]:
  "is_rpc_event (RpcCalled u m ps)" "\<not> is_rpc_event (Ran argv)" "\<not> is_rpc_event (Slept n)"
  "\<not> is_rpc_event (MadeTempDir d)"
  by (simp_all add: is_rpc_event_def)

lemma adds_rpc: "adds is_rpc_event (rpc_call E url m ps)"
  by (rule adds_rpc_call) simp

lemma adds_probe_version_slot: "adds is_rpc_event (probe_version_slot E url ref s)"
  unfolding probe_version_slot_def Let_def
  by (intro frame_rules adds_rpc)

lemma adds_probe_node: "adds is_rpc_event (probe_node E cn n ref votes)"
  unfolding probe_node_def Let_def
  by (intro frame_rules adds_rpc adds_probe_version_slot)

lemma adds_probe_reference: "adds is_rpc_event (probe_reference E c)"
  unfolding probe_reference_def Let_def
  by (intro frame_rules adds_rpc)

lemma adds_probe_cluster: "adds is_rpc_event (probe_cluster E cn c)"
  unfolding probe_cluster_def
  by (intro frame_rules adds_probe_node adds_probe_reference)

lemma adds_probe_fleet: "adds is_rpc_event (probe_fleet E f)"
  unfolding probe_fleet_def
  by (intro frame_rules adds_probe_cluster)

section \<open>What a probe reports\<close>

text \<open>
  A status is consistent: it names its node, the health is known exactly when the node answered,
  a node that did not answer has an error and nothing measured, and a lag is never negative.
\<close>

definition status_ok :: "string \<Rightarrow> node \<Rightarrow> node_status \<Rightarrow> bool" where
  "status_ok cn n s \<longleftrightarrow>
     ns_name s = n_name n \<and> ns_cluster s = cn \<and> ns_role s = n_role n \<and>
     (ns_reachable s \<longleftrightarrow> ns_healthy s \<noteq> None) \<and> (ns_reachable s \<longrightarrow> truthy (n_rpc_url n)) \<and>
     (\<not> ns_reachable s \<longrightarrow> truthy (ns_error s) \<and> ns_version s = JNull \<and> ns_slot s = JNull \<and>
        ns_slot_lag s = None) \<and>
     (case ns_slot_lag s of None \<Rightarrow> True | Some k \<Rightarrow> 0 \<le> k)"

lemma with_votes_keeps:
  "ns_name (with_votes votes n s) = ns_name s" "ns_cluster (with_votes votes n s) = ns_cluster s"
  "ns_role (with_votes votes n s) = ns_role s" "ns_reachable (with_votes votes n s) = ns_reachable s"
  "ns_healthy (with_votes votes n s) = ns_healthy s" "ns_version (with_votes votes n s) = ns_version s"
  "ns_slot (with_votes votes n s) = ns_slot s" "ns_slot_lag (with_votes votes n s) = ns_slot_lag s"
  "ns_error (with_votes votes n s) = ns_error s"
  by (simp_all add: with_votes_def split: option.split)

lemma lag_of_nonneg: "lag_of ref slot = Inr l \<Longrightarrow> (case l of None \<Rightarrow> True | Some k \<Rightarrow> 0 \<le> k)"
  by (auto simp: lag_of_def and_then_def split: if_splits sum.splits)

lemma yields_version_slot:
  assumes "status_ok cn n s" and "ns_reachable s"
  shows "yields (status_ok cn n) (probe_version_slot E url ref s)"
proof -
  have lag: "yields (\<lambda>l. case l of None \<Rightarrow> True | Some k \<Rightarrow> 0 \<le> k) (lift (lag_of ref slot))" for slot
    by (rule yields_lift) (rule lag_of_nonneg)
  from assms show ?thesis
    unfolding probe_version_slot_def Let_def
    by (intro yield_rules yields_bindQ [OF lag])
      (auto simp: status_ok_def split: option.splits)
qed

lemma yields_probe_node: "yields (status_ok cn n) (probe_node E cn n ref votes)"
  unfolding probe_node_def Let_def
  by (intro yield_rules yields_version_slot)
    (auto simp: status_ok_def with_votes_keeps fresh_status_def)

text \<open>The probe of a cluster, and of the fleet\<close>

definition cluster_ok :: "string \<times> cluster \<Rightarrow> cluster_status \<Rightarrow> bool" where
  "cluster_ok = (\<lambda>(cn, c) cs.
     cs_name cs = cn \<and> cs_reference_rpc cs = cl_reference_rpc c \<and>
     list_all2 (status_ok cn) (cl_nodes c) (cs_nodes cs))"

lemma yields_probe_cluster: "yields (cluster_ok (cn, c)) (probe_cluster E cn c)"
proof -
  have nodes: "yields (list_all2 (status_ok cn) (cl_nodes c))
      (for_each (\<lambda>n. probe_node E cn n ref votes) (cl_nodes c))" for ref votes
    by (rule yields_for_each) (rule yields_probe_node)
  show ?thesis
    unfolding probe_cluster_def
    by (rule yields_bind, rule yields_bindQ [OF nodes], rule yields_ret) (simp add: cluster_ok_def)
qed

lemma yields_probe_fleet: "yields (list_all2 cluster_ok (fl_clusters f)) (probe_fleet E f)"
  unfolding probe_fleet_def
  by (rule yields_for_each) (auto intro: yields_probe_cluster split: prod.split)

text \<open>
  C38. A probe of the fleet only makes RPC calls and records nothing, whatever the nodes answer.
  When it returns, its report has exactly the clusters and nodes of the configuration, in their
  order, and every status is consistent: it names its node and role, the health is known exactly
  for the nodes that answered (which have an RPC url), a node that did not answer carries an
  error and no version, slot or lag, and no lag is negative.
\<close>

theorem probe_fleet_consistent:
  "case probe_fleet E f w of (res, w') \<Rightarrow>
     (\<exists>es. trace w' = trace w @ es \<and> list_all is_rpc_event es) \<and> audit w' = audit w \<and>
     (case res of Inl _ \<Rightarrow> True
      | Inr report \<Rightarrow> list_all2 (\<lambda>(cn, c) cs. cs_name cs = cn \<and> list_all2 (status_ok cn) (cl_nodes c) (cs_nodes cs))
          (fl_clusters f) report)"
proof -
  obtain res w' where run: "probe_fleet E f w = (res, w')" by fastforce
  have frame: "(\<exists>es. trace w' = trace w @ es \<and> list_all is_rpc_event es) \<and> audit w' = audit w"
    by (rule addsE [OF adds_probe_fleet run]) blast
  have "list_all2 (\<lambda>(cn, c) cs. cs_name cs = cn \<and> list_all2 (status_ok cn) (cl_nodes c) (cs_nodes cs))
      (fl_clusters f) report" if "res = Inr report" for report
    using yieldsD [OF yields_probe_fleet run [unfolded that]]
    by (rule list.rel_mono_strong) (auto simp: cluster_ok_def)
  with run frame show ?thesis by (cases res) simp_all
qed

end
