(* ===== verification/Dns.thy ===== *)
theory Dns
  imports Effects
begin

text \<open>
  The driver protocol of \<open>dns.py\<close> and its in-memory driver. The protocol is a record of
  operations on a driver state; each may raise, and returns the state it leaves. What the
  watch loop and the manual overrides rely on is the locale \<open>dns_driver\<close>: how the operations
  act on the set of addresses a record has.
\<close>

type_synonym ('d, 'a) drv = "'d \<Rightarrow> (exn + 'a) \<times> 'd"

record 'd dns_ops =
  list_members :: "string \<Rightarrow> ('d, string list) drv"
  add_member :: "string \<Rightarrow> string \<Rightarrow> int \<Rightarrow> ('d, unit) drv"
  remove_member :: "string \<Rightarrow> string \<Rightarrow> ('d, unit) drv"
  has_marker :: "string \<Rightarrow> ('d, bool) drv"
  ensure_marker :: "string \<Rightarrow> ('d, unit) drv"

definition marker_name :: "string \<Rightarrow> string" where
  "marker_name r = ''_solfleet.'' @ r"

definition marker_content :: string where
  "marker_content = ''solfleet-managed''"

section \<open>Operations of a driver in sequence\<close>

definition ret_drv :: "'a \<Rightarrow> ('d, 'a) drv" where
  "ret_drv x = (\<lambda>d. (Inr x, d))"

definition lift_drv :: "exn + 'a \<Rightarrow> ('d, 'a) drv" where
  "lift_drv r = (\<lambda>d. (r, d))"

definition bind_drv :: "('d, 'a) drv \<Rightarrow> ('a \<Rightarrow> ('d, 'b) drv) \<Rightarrow> ('d, 'b) drv" where
  "bind_drv m k = (\<lambda>d. case m d of (Inl e, d1) \<Rightarrow> (Inl e, d1) | (Inr x, d1) \<Rightarrow> k x d1)"

lemma bind_drvE:
  assumes "bind_drv m k d = (res, d')"
  obtains (raised) e where "m d = (Inl e, d')" "res = Inl e"
    | (returned) x d1 where "m d = (Inr x, d1)" "k x d1 = (res, d')"
  using assms by (auto simp: bind_drv_def split: prod.splits sum.splits)

text \<open>A string field of a decoded value\<close>

definition json_str :: "json \<Rightarrow> string \<Rightarrow> exn + string" where
  "json_str v k = and_then (json_index v k) (\<lambda>x. case x of JStr s \<Rightarrow> Inr s | _ \<Rightarrow> Inl TypeError)"

section \<open>The protocol's contract\<close>

text \<open>
  A driver that succeeds does what it says to the record and nothing to any other record. One
  that raises has left every record as it was, or has made the change whose confirmation it did
  not get (a request can time out after the server acted on it).
\<close>

definition may_apply :: "exn + unit \<Rightarrow> 'v \<Rightarrow> 'v \<Rightarrow> 'v \<Rightarrow> bool" where
  "may_apply res before after now \<longleftrightarrow> now = after \<or> (isl res \<and> now = before)"

lemma may_apply_Inr [simp]: "may_apply (Inr u) before after now \<longleftrightarrow> now = after"
  by (simp add: may_apply_def)

lemma may_applyE:
  assumes "may_apply res before after now"
  obtains "now = after" | e where "res = Inl e" "now = before"
  using assms by (cases res) (auto simp: may_apply_def)

locale dns_driver =
  fixes ops :: "'d dns_ops"
    and members :: "'d \<Rightarrow> string \<Rightarrow> string set"
    and marked :: "'d \<Rightarrow> string set"
    and ok :: "'d \<Rightarrow> bool"
  assumes list_keeps: "ok d \<Longrightarrow> list_members ops r d = (lres, d') \<Longrightarrow>
      ok d' \<and> members d' = members d \<and> marked d' = marked d"
    and list_result: "ok d \<Longrightarrow> list_members ops r d = (Inr xs, d') \<Longrightarrow> set xs = members d r"
    and add_result: "ok d \<Longrightarrow> add_member ops r ip ttl d = (res, d') \<Longrightarrow>
      ok d' \<and> marked d' = marked d \<and>
      may_apply res (members d) ((members d)(r := insert ip (members d r))) (members d')"
    and remove_result: "ok d \<Longrightarrow> remove_member ops r ip d = (res, d') \<Longrightarrow>
      ok d' \<and> marked d' = marked d \<and>
      may_apply res (members d) ((members d)(r := members d r - {ip})) (members d')"
    and has_marker_result: "ok d \<Longrightarrow> has_marker ops r d = (bres, d') \<Longrightarrow>
      ok d' \<and> members d' = members d \<and> marked d' = marked d \<and>
      (case bres of Inl _ \<Rightarrow> True | Inr b \<Rightarrow> b \<longleftrightarrow> r \<in> marked d)"
    and ensure_marker_result: "ok d \<Longrightarrow> ensure_marker ops r d = (res, d') \<Longrightarrow>
      ok d' \<and> members d' = members d \<and> may_apply res (marked d) (insert r (marked d)) (marked d')"

section \<open>Reconciling one record\<close>

text \<open>The two loops over the addresses to remove and to add\<close>

fun remove_all :: "'d dns_ops \<Rightarrow> string \<Rightarrow> string list \<Rightarrow> ('d, unit) drv" where
  "remove_all ops r [] d = (Inr (), d)"
| "remove_all ops r (ip # ips) d =
     (case remove_member ops r ip d of
        (Inl e, d1) \<Rightarrow> (Inl e, d1)
      | (Inr _, d1) \<Rightarrow> remove_all ops r ips d1)"

fun add_all :: "'d dns_ops \<Rightarrow> string \<Rightarrow> string list \<Rightarrow> int \<Rightarrow> ('d, unit) drv" where
  "add_all ops r [] ttl d = (Inr (), d)"
| "add_all ops r (ip # ips) ttl d =
     (case add_member ops r ip ttl d of
        (Inl e, d1) \<Rightarrow> (Inl e, d1)
      | (Inr _, d1) \<Rightarrow> add_all ops r ips ttl d1)"

text \<open>Mark the record, remove, then add, as the watch loop does\<close>

definition apply_changes :: "'d dns_ops \<Rightarrow> string \<Rightarrow> string list \<Rightarrow> string list \<Rightarrow> int \<Rightarrow> ('d, unit) drv" where
  "apply_changes ops r to_remove to_add ttl d =
     (case ensure_marker ops r d of
        (Inl e, d1) \<Rightarrow> (Inl e, d1)
      | (Inr _, d1) \<Rightarrow>
          (case remove_all ops r to_remove d1 of
             (Inl e, d2) \<Rightarrow> (Inl e, d2)
           | (Inr _, d2) \<Rightarrow> add_all ops r to_add ttl d2))"

context dns_driver begin

lemma remove_all_result:
  "ok d \<Longrightarrow> remove_all ops r ips d = (res, d') \<Longrightarrow>
   ok d' \<and> marked d' = marked d \<and> (\<forall>q. q \<noteq> r \<longrightarrow> members d' q = members d q) \<and>
   members d r - set ips \<subseteq> members d' r \<and> members d' r \<subseteq> members d r \<and>
   (res = Inr () \<longrightarrow> members d' r = members d r - set ips)"
proof (induction ips arbitrary: d)
  case (Cons ip ips)
  obtain r1 d1 where s: "remove_member ops r ip d = (r1, d1)" by fastforce
  note step = remove_result [OF Cons.prems(1) s]
  show ?case
  proof (cases r1)
    case (Inl e)
    with s step Cons.prems(2) show ?thesis by (auto simp: may_apply_def)
  next
    case (Inr u)
    with s Cons.prems(2) have "remove_all ops r ips d1 = (res, d')" by simp
    with step Inr Cons.IH [of d1] show ?thesis by auto
  qed
qed auto

lemma add_all_result:
  "ok d \<Longrightarrow> add_all ops r ips ttl d = (res, d') \<Longrightarrow>
   ok d' \<and> marked d' = marked d \<and> (\<forall>q. q \<noteq> r \<longrightarrow> members d' q = members d q) \<and>
   members d r \<subseteq> members d' r \<and> members d' r \<subseteq> members d r \<union> set ips \<and>
   (res = Inr () \<longrightarrow> members d' r = members d r \<union> set ips)"
proof (induction ips arbitrary: d)
  case (Cons ip ips)
  obtain r1 d1 where s: "add_member ops r ip ttl d = (r1, d1)" by fastforce
  note step = add_result [OF Cons.prems(1) s]
  show ?case
  proof (cases r1)
    case (Inl e)
    with s step Cons.prems(2) show ?thesis by (auto simp: may_apply_def)
  next
    case (Inr u)
    with s Cons.prems(2) have "add_all ops r ips ttl d1 = (res, d')" by simp
    with step Inr Cons.IH [of d1] show ?thesis by auto
  qed
qed auto

text \<open>
  Whether the driver succeeds or raises anywhere on the way: other records keep their
  addresses, and of the record's only those to be removed can be missing.
\<close>

lemma apply_changes_result:
  assumes "ok d" and "apply_changes ops r rm ad ttl d = (res, d')"
  shows "ok d'" and "q \<noteq> r \<Longrightarrow> members d' q = members d q"
    and "members d r - set rm \<subseteq> members d' r"
    and "members d' r \<subseteq> members d r \<union> set ad"
    and "res = Inr () \<Longrightarrow> members d' r = (members d r - set rm) \<union> set ad \<and> r \<in> marked d'"
proof -
  obtain r1 d1 where e: "ensure_marker ops r d = (r1, d1)" by fastforce
  note e_res = ensure_marker_result [OF assms(1) e]
  obtain r2 d2 where m: "remove_all ops r rm d1 = (r2, d2)" by fastforce
  note m_res = remove_all_result [OF _ m]
  obtain r3 d3 where a: "add_all ops r ad ttl d2 = (r3, d3)" by fastforce
  note a_res = add_all_result [OF _ a]
  have "ok d' \<and> (q \<noteq> r \<longrightarrow> members d' q = members d q) \<and> members d r - set rm \<subseteq> members d' r
      \<and> members d' r \<subseteq> members d r \<union> set ad
      \<and> (res = Inr () \<longrightarrow> members d' r = (members d r - set rm) \<union> set ad \<and> r \<in> marked d')"
  proof (cases r1)
    case (Inl x)
    with assms(2) e e_res show ?thesis by (auto simp: apply_changes_def)
  next
    case r1: (Inr u)
    show ?thesis
    proof (cases r2)
      case (Inl x)
      with assms(2) e e_res m r1 m_res show ?thesis by (auto simp: apply_changes_def)
    next
      case (Inr v)
      with assms(2) e r1 m a have "res = r3" "d' = d3" by (auto simp: apply_changes_def)
      with e_res r1 m_res Inr a_res show ?thesis by auto
    qed
  qed
  then show "ok d'" "q \<noteq> r \<Longrightarrow> members d' q = members d q" "members d r - set rm \<subseteq> members d' r"
    "members d' r \<subseteq> members d r \<union> set ad"
    "res = Inr () \<Longrightarrow> members d' r = (members d r - set rm) \<union> set ad \<and> r \<in> marked d'"
    by blast+
qed

lemma list_members_result:
  assumes "ok d" and "list_members ops r d = (Inr xs, d')"
  shows "ok d'" and "members d' = members d" and "marked d' = marked d" and "set xs = members d r"
  using list_keeps [OF assms] list_result [OF assms] by simp_all

end

section \<open>A driver that does not fail\<close>

text \<open>The contract of a driver whose operations never raise\<close>

locale reliable_driver = dns_driver +
  assumes list_returns: "ok d \<Longrightarrow> \<not> isl (fst (list_members ops r d))"
    and add_returns: "ok d \<Longrightarrow> \<not> isl (fst (add_member ops r ip ttl d))"
    and remove_returns: "ok d \<Longrightarrow> \<not> isl (fst (remove_member ops r ip d))"
    and ensure_marker_returns: "ok d \<Longrightarrow> \<not> isl (fst (ensure_marker ops r d))"
begin

lemma remove_all_returns: "ok d \<Longrightarrow> \<not> isl (fst (remove_all ops r ips d))"
proof (induction ips arbitrary: d)
  case (Cons ip ips)
  obtain r1 d1 where s: "remove_member ops r ip d = (r1, d1)" by fastforce
  with remove_returns [OF Cons.prems, of r ip] obtain u where "r1 = Inr u" by (cases r1) auto
  with s remove_result [OF Cons.prems s] Cons.IH [of d1] show ?case by simp
qed simp

lemma add_all_returns: "ok d \<Longrightarrow> \<not> isl (fst (add_all ops r ips ttl d))"
proof (induction ips arbitrary: d)
  case (Cons ip ips)
  obtain r1 d1 where s: "add_member ops r ip ttl d = (r1, d1)" by fastforce
  with add_returns [OF Cons.prems, of r ip ttl] obtain u where "r1 = Inr u" by (cases r1) auto
  with s add_result [OF Cons.prems s] Cons.IH [of d1] show ?case by simp
qed simp

lemma apply_changes_returns:
  assumes "ok d"
  shows "\<not> isl (fst (apply_changes ops r rm ad ttl d))"
proof -
  obtain r1 d1 where e: "ensure_marker ops r d = (r1, d1)" by fastforce
  with ensure_marker_returns [OF assms, of r] obtain u where u: "r1 = Inr u" by (cases r1) auto
  have ok1: "ok d1" using ensure_marker_result [OF assms e] by blast
  obtain r2 d2 where m: "remove_all ops r rm d1 = (r2, d2)" by fastforce
  with remove_all_returns [OF ok1, of r rm] obtain v where v: "r2 = Inr v" by (cases r2) auto
  have "ok d2" using remove_all_result [OF ok1 m] by blast
  with e u m v add_all_returns [of d2 r ad ttl] show ?thesis by (simp add: apply_changes_def)
qed

end

section \<open>The in-memory driver\<close>

datatype dns_action = Added | Removed

record inmem =
  im_a :: "string \<rightharpoonup> string set"
  im_markers :: "string set"
  im_ops :: "(dns_action \<times> string \<times> string) list"

text \<open>\<open>InMemoryDnsDriver.__init__\<close>\<close>

definition inmem_init :: "(string, string list) dict \<Rightarrow> string list \<Rightarrow> inmem" where
  "inmem_init initial markers =
     \<lparr>im_a = map_option set \<circ> dict_get initial, im_markers = set markers, im_ops = []\<rparr>"

definition im_get :: "inmem \<Rightarrow> string \<Rightarrow> string set" where
  "im_get d r = (case im_a d r of None \<Rightarrow> {} | Some s \<Rightarrow> s)"

definition im_list_members :: "string \<Rightarrow> (inmem, string list) drv" where
  "im_list_members r d = (Inr (py_sorted (im_get d r)), d)"

definition im_add_member :: "string \<Rightarrow> string \<Rightarrow> int \<Rightarrow> (inmem, unit) drv" where
  "im_add_member r ip ttl d =
     (Inr (), d\<lparr>im_a := (im_a d)(r \<mapsto> insert ip (im_get d r)),
               im_ops := im_ops d @ [(Added, r, ip)]\<rparr>)"

definition im_remove_member :: "string \<Rightarrow> string \<Rightarrow> (inmem, unit) drv" where
  "im_remove_member r ip d =
     (Inr (), d\<lparr>im_a := (case im_a d r of None \<Rightarrow> im_a d | Some s \<Rightarrow> (im_a d)(r \<mapsto> s - {ip})),
               im_ops := im_ops d @ [(Removed, r, ip)]\<rparr>)"

definition im_has_marker :: "string \<Rightarrow> (inmem, bool) drv" where
  "im_has_marker r d = (Inr (r \<in> im_markers d), d)"

definition im_ensure_marker :: "string \<Rightarrow> (inmem, unit) drv" where
  "im_ensure_marker r d = (Inr (), d\<lparr>im_markers := insert r (im_markers d)\<rparr>)"

definition inmem_ops :: "inmem dns_ops" where
  "inmem_ops = \<lparr>list_members = im_list_members, add_member = im_add_member,
     remove_member = im_remove_member, has_marker = im_has_marker,
     ensure_marker = im_ensure_marker\<rparr>"

definition inmem_ok :: "inmem \<Rightarrow> bool" where
  "inmem_ok d \<longleftrightarrow> (\<forall>r s. im_a d r = Some s \<longrightarrow> finite s)"

lemmas inmem_defs = inmem_ops_def im_list_members_def im_add_member_def im_remove_member_def
  im_has_marker_def im_ensure_marker_def im_get_def

lemma inmem_ok_get: "inmem_ok d \<Longrightarrow> finite (im_get d r)"
  by (simp add: inmem_ok_def im_get_def split: option.split)

lemma inmem_ok_init: "inmem_ok (inmem_init initial markers)"
  by (auto simp: inmem_ok_def inmem_init_def)

interpretation inmem: dns_driver inmem_ops im_get im_markers inmem_ok
proof
  fix d d' r res xs
  assume ok: "inmem_ok d"
  show "list_members inmem_ops r d = (res, d') \<Longrightarrow>
      inmem_ok d' \<and> im_get d' = im_get d \<and> im_markers d' = im_markers d"
    using ok by (auto simp: inmem_ops_def im_list_members_def)
  show "list_members inmem_ops r d = (Inr xs, d') \<Longrightarrow> set xs = im_get d r"
    using inmem_ok_get [OF ok] by (auto simp: inmem_ops_def im_list_members_def)
next
  fix d d' r ip ttl res
  assume ok: "inmem_ok d"
  show "add_member inmem_ops r ip ttl d = (res, d') \<Longrightarrow>
      inmem_ok d' \<and> im_markers d' = im_markers d \<and>
      may_apply res (im_get d) ((im_get d)(r := insert ip (im_get d r))) (im_get d')"
    using ok inmem_ok_get [OF ok]
    by (auto simp: inmem_defs inmem_ok_def fun_eq_iff split: if_splits)
  show "remove_member inmem_ops r ip d = (res, d') \<Longrightarrow>
      inmem_ok d' \<and> im_markers d' = im_markers d \<and>
      may_apply res (im_get d) ((im_get d)(r := im_get d r - {ip})) (im_get d')"
    using ok by (auto simp: inmem_defs inmem_ok_def fun_eq_iff split: if_splits option.splits)
next
  fix d d' r res
  assume ok: "inmem_ok d"
  show "has_marker inmem_ops r d = (res, d') \<Longrightarrow>
      inmem_ok d' \<and> im_get d' = im_get d \<and> im_markers d' = im_markers d \<and>
      (case res of Inl _ \<Rightarrow> True | Inr b \<Rightarrow> b \<longleftrightarrow> r \<in> im_markers d)"
    using ok by (auto simp: inmem_ops_def im_has_marker_def)
next
  fix d d' r res
  assume ok: "inmem_ok d"
  show "ensure_marker inmem_ops r d = (res, d') \<Longrightarrow>
      inmem_ok d' \<and> im_get d' = im_get d \<and>
      may_apply res (im_markers d) (insert r (im_markers d)) (im_markers d')"
    using ok by (auto simp: inmem_defs inmem_ok_def fun_eq_iff)
qed

interpretation inmem: reliable_driver inmem_ops im_get im_markers inmem_ok
  by unfold_locales (simp_all add: inmem_defs)

end
