(* ===== verification/Watch.thy ===== *)
theory Watch
  imports Probe Dns
begin

text \<open>
  The failover loop of \<open>watch.py\<close>. A round takes what the prober returned (or the exception it
  raised), and acts on the driver's state and the audit log; an exception of the driver ends
  the round where it happens, with the state as it then is. The loop over rounds may run
  forever, so it returns an option, with \<open>None\<close> for not returning.
\<close>

section \<open>The decision\<close>

definition should_eject :: "node_status option \<Rightarrow> eject_when \<Rightarrow> bool \<times> string list" where
  "should_eject status ew =
     (let r1 = (if ew_unhealthy ew \<and>
                   (case status of None \<Rightarrow> True
                    | Some s \<Rightarrow> \<not> ns_reachable s \<or> ns_healthy s = Some False)
                then [''unhealthy or unreachable''] else []);
          r2 = (case (ew_slot_lag ew, status) of
                  (Some limit, Some s) \<Rightarrow>
                    (case ns_slot_lag s of
                       Some lag \<Rightarrow> if lag > limit
                         then [''slot_lag '' @ show_int lag @ '' > '' @ show_int limit] else []
                     | None \<Rightarrow> [])
                | _ \<Rightarrow> []);
          r3 = (if ew_delinquent ew \<and>
                   (case status of None \<Rightarrow> False | Some s \<Rightarrow> ns_delinquent s = Some True)
                then [''delinquent''] else []);
          reasons = r1 @ r2 @ r3
      in (reasons \<noteq> [], reasons))"

text \<open>\<open>_node_ips\<close>: a later node of the same name replaces an earlier one\<close>

definition node_ips :: "fleet \<Rightarrow> (string, string) dict" where
  "node_ips f =
     dict_of_pairs (concat (map (\<lambda>(_, c). map (\<lambda>n. (n_name n, host n)) (cl_nodes c)) (fl_clusters f)))"

definition status_by_name :: "cluster_status list \<Rightarrow> (string, node_status) dict" where
  "status_by_name clusters =
     dict_of_pairs (concat (map (\<lambda>c. map (\<lambda>n. (ns_name n, n)) (cs_nodes c)) clusters))"

section \<open>One round\<close>

record pool_decision =
  pd_ip :: string
  pd_eject :: bool
  pd_reasons :: "string list"

record pool_report =
  pw_record :: string
  pw_current :: "string list"
  pw_decisions :: "(string, pool_decision) dict"
  pw_protected :: bool
  pw_note :: "string option"
  pw_added :: "string list"
  pw_removed :: "string list"

definition decision_of ::
  "(string, string) dict \<Rightarrow> (string, node_status) dict \<Rightarrow> eject_when \<Rightarrow> string \<Rightarrow> pool_decision" where
  "decision_of ips statuses ew m =
     (let (ej, reasons) = should_eject (dict_get statuses m) ew
      in \<lparr>pd_ip = the (dict_get ips m), pd_eject = ej, pd_reasons = reasons\<rparr>)"

definition decision_entry_json :: "pool_decision \<Rightarrow> json" where
  "decision_entry_json d = JObj
     [(''ip'', JStr (pd_ip d)), (''eject'', JBool (pd_eject d)),
      (''reasons'', json_strs (pd_reasons d))]"

definition decisions_json :: "(string, pool_decision) dict \<Rightarrow> json" where
  "decisions_json ds = JObj (map (\<lambda>(m, d). (m, decision_entry_json d)) ds)"

definition watch_entry :: "pool \<Rightarrow> string \<Rightarrow> json \<Rightarrow> audit_entry" where
  "watch_entry p mode detail =
     \<lparr>en_operation = ''dns_watch'', en_cluster = pl_cluster p, en_node = pl_record p,
      en_mode = mode, en_allowed = True, en_detail = Some detail\<rparr>"

text \<open>
  What the body of the loop over the pools computes before it acts, once every member's
  address is known
\<close>

record pool_plan =
  pp_decisions :: "(string, pool_decision) dict"
  pp_member_ips :: "string set"
  pp_desired :: "string set"

definition plan_pool ::
  "(string, string) dict \<Rightarrow> (string, node_status) dict \<Rightarrow> pool \<Rightarrow> pool_plan" where
  "plan_pool ips statuses p =
     (let decisions = dict_of_pairs
            (map (\<lambda>m. (m, decision_of ips statuses (pl_eject_when p) m)) (pl_members p))
      in \<lparr>pp_decisions = decisions,
          pp_member_ips = (\<lambda>m. the (dict_get ips m)) ` set (pl_members p),
          pp_desired = (\<lambda>m. the (dict_get ips m)) `
            {m \<in> set (pl_members p). \<not> pd_eject (the (dict_get decisions m))}\<rparr>)"

type_synonym 'd watch_state = "'d \<times> audit_log option"

text \<open>Last-member protection: nothing is changed, and it is recorded when something is served\<close>

definition protect_pool ::
  "bool \<Rightarrow> pool \<Rightarrow> string set \<Rightarrow> pool_report \<Rightarrow> 'd watch_state \<Rightarrow>
   (exn + pool_report) \<times> 'd watch_state" where
  "protect_pool dry_run p current report = (\<lambda>(d, al).
     (Inr (report\<lparr>pw_protected := True, pw_note :=
        Some ''all members failing; keeping current records to avoid NXDOMAIN''\<rparr>), d,
      (if current \<noteq> {} then
         map_option (audit_put (watch_entry p (if dry_run then ''dry-run'' else ''execute'')
           (JObj [(''protected'', JBool True), (''current'', json_strs (py_sorted current))]))) al
       else al)))"

text \<open>Remove the failing members, add the recovered ones\<close>

definition reconcile_pool ::
  "'d dns_ops \<Rightarrow> bool \<Rightarrow> pool \<Rightarrow> pool_plan \<Rightarrow> string set \<Rightarrow> pool_report \<Rightarrow> 'd watch_state \<Rightarrow>
   (exn + pool_report) \<times> 'd watch_state" where
  "reconcile_pool ops dry_run p plan current report = (\<lambda>(d, al).
     (let to_remove = py_sorted ((current \<inter> pp_member_ips plan) - pp_desired plan);
          to_add = py_sorted (pp_desired plan - current);
          report1 = report\<lparr>pw_added := to_add, pw_removed := to_remove\<rparr>
      in if to_add = [] \<and> to_remove = [] then (Inr report1, d, al)
         else if dry_run then (Inr report1, d, al)
         else (case apply_changes ops (pl_record p) to_remove to_add (pl_ttl p) d of
                 (Inl e, d2) \<Rightarrow> (Inl e, d2, al)
               | (Inr _, d2) \<Rightarrow>
                   (Inr report1, d2,
                    map_option (audit_put (watch_entry p ''execute'' (JObj
                      [(''added'', json_strs to_add), (''removed'', json_strs to_remove),
                       (''decisions'', decisions_json (pp_decisions plan))]))) al))))"

definition watch_pool ::
  "'d dns_ops \<Rightarrow> bool \<Rightarrow> (string, string) dict \<Rightarrow> (string, node_status) dict \<Rightarrow> pool \<Rightarrow>
   'd watch_state \<Rightarrow> (exn + pool_report) \<times> 'd watch_state" where
  "watch_pool ops dry_run ips statuses p = (\<lambda>(d, al).
     (case find (\<lambda>m. dict_get ips m = None) (pl_members p) of
        Some m \<Rightarrow> (Inl (KeyError m), d, al)
      | None \<Rightarrow>
     (case list_members ops (pl_record p) d of
        (Inl e, d1) \<Rightarrow> (Inl e, d1, al)
      | (Inr listed, d1) \<Rightarrow>
          let current = set listed;
              plan = plan_pool ips statuses p;
              report = \<lparr>pw_record = pl_record p, pw_current = py_sorted current,
                pw_decisions = pp_decisions plan, pw_protected = False, pw_note = None,
                pw_added = [], pw_removed = []\<rparr>
          in if pp_desired plan = {} then protect_pool dry_run p current report (d1, al)
             else reconcile_pool ops dry_run p plan current report (d1, al))))"

fun watch_pools ::
  "'d dns_ops \<Rightarrow> bool \<Rightarrow> (string, string) dict \<Rightarrow> (string, node_status) dict \<Rightarrow> pool list \<Rightarrow>
   'd watch_state \<Rightarrow> (exn + pool_report list) \<times> 'd watch_state" where
  "watch_pools ops dry_run ips statuses [] s = (Inr [], s)"
| "watch_pools ops dry_run ips statuses (p # ps) s =
     (case watch_pool ops dry_run ips statuses p s of
        (Inl e, s1) \<Rightarrow> (Inl e, s1)
      | (Inr r, s1) \<Rightarrow>
          (case watch_pools ops dry_run ips statuses ps s1 of
             (Inl e, s2) \<Rightarrow> (Inl e, s2)
           | (Inr rs, s2) \<Rightarrow> (Inr (r # rs), s2)))"

record watch_report =
  wr_pools :: "pool_report list"
  wr_note :: "string option"

definition watch_once ::
  "fleet \<Rightarrow> 'd dns_ops \<Rightarrow> bool \<Rightarrow> (exn + cluster_status list) \<Rightarrow> 'd watch_state \<Rightarrow>
   (exn + watch_report) \<times> 'd watch_state" where
  "watch_once f ops dry_run probed s =
     (case fl_dns f of
        None \<Rightarrow> (Inr \<lparr>wr_pools = [], wr_note = Some ''no dns pools configured''\<rparr>, s)
      | Some dns \<Rightarrow>
          if dn_pools dns = [] then
            (Inr \<lparr>wr_pools = [], wr_note = Some ''no dns pools configured''\<rparr>, s)
          else (case probed of
             Inl e \<Rightarrow> (Inl e, s)
           | Inr clusters \<Rightarrow>
               (case watch_pools ops dry_run (node_ips f) (status_by_name clusters) (dn_pools dns) s of
                  (Inl e, s1) \<Rightarrow> (Inl e, s1)
                | (Inr rs, s1) \<Rightarrow> (Inr \<lparr>wr_pools = rs, wr_note = None\<rparr>, s1))))"

section \<open>The loop\<close>

text \<open>
  \<open>watch_loop\<close>: \<open>prober n\<close> is what the prober gives in round \<open>n\<close>; the reports handed to
  \<open>on_round\<close> and the sleeps between rounds are collected in order.
\<close>

datatype round_event = Round watch_report | Pause int

partial_function (option) watch_loop ::
  "fleet \<Rightarrow> 'd dns_ops \<Rightarrow> (int \<Rightarrow> exn + cluster_status list) \<Rightarrow> int \<Rightarrow> int option \<Rightarrow> bool \<Rightarrow> int \<Rightarrow>
   round_event list \<Rightarrow> 'd watch_state \<Rightarrow> ((exn + unit) \<times> round_event list \<times> 'd watch_state) option" where
  "watch_loop f ops prober interval iterations dry_run n out s =
     (if (case iterations of None \<Rightarrow> True | Some k \<Rightarrow> n < k) then
        (case watch_once f ops dry_run (prober n) s of
           (Inl e, s1) \<Rightarrow> Some (Inl e, out, s1)
         | (Inr report, s1) \<Rightarrow>
             (let n1 = n + 1; out1 = out @ [Round report]
              in if (case iterations of None \<Rightarrow> False | Some k \<Rightarrow> n1 \<ge> k)
                 then Some (Inr (), out1, s1)
                 else watch_loop f ops prober interval iterations dry_run n1
                        (out1 @ [Pause interval]) s1))
      else Some (Inr (), out, s))"

section \<open>Facts on the decision\<close>

lemma map_of_rev_map_pair:
  "map_of (rev (map (\<lambda>m. (m, f m)) ms)) m = (if m \<in> set ms then Some (f m) else None)"
  by (simp add: rev_map map_of_map_restrict restrict_map_def)

text \<open>
  The members that stay, by the rule of the configuration: reachable and not unhealthy when the
  pool ejects unhealthy members, a known lag within the limit when there is one, and not
  delinquent when the pool ejects delinquent members.
\<close>

definition keeps :: "(string, node_status) dict \<Rightarrow> pool \<Rightarrow> string \<Rightarrow> bool" where
  "keeps st p m \<longleftrightarrow>
   (ew_unhealthy (pl_eject_when p) \<longrightarrow>
      (\<exists>s. dict_get st m = Some s \<and> ns_reachable s \<and> ns_healthy s \<noteq> Some False)) \<and>
   (\<forall>s. dict_get st m = Some s \<longrightarrow>
      (\<forall>lim lag. ew_slot_lag (pl_eject_when p) = Some lim \<longrightarrow> ns_slot_lag s = Some lag \<longrightarrow> lag \<le> lim) \<and>
      (ew_delinquent (pl_eject_when p) \<longrightarrow> ns_delinquent s \<noteq> Some True))"

lemma keeps_should_eject:
  "keeps st p m \<longleftrightarrow> \<not> fst (should_eject (dict_get st m) (pl_eject_when p))"
  by (cases "dict_get st m"; cases "ew_slot_lag (pl_eject_when p)")
    (auto simp: keeps_def should_eject_def Let_def split: option.splits)

definition healthy_ips ::
  "(string, string) dict \<Rightarrow> (string, node_status) dict \<Rightarrow> pool \<Rightarrow> string set" where
  "healthy_ips ips statuses p =
     (\<lambda>m. the (dict_get ips m)) ` {m \<in> set (pl_members p). keeps statuses p m}"

definition pool_ips :: "(string, string) dict \<Rightarrow> pool \<Rightarrow> string set" where
  "pool_ips ips p = (\<lambda>m. the (dict_get ips m)) ` set (pl_members p)"

lemma plan_pool_sets:
  "pp_desired (plan_pool ips st p) = healthy_ips ips st p"
  "pp_member_ips (plan_pool ips st p) = pool_ips ips p"
proof -
  have "pd_eject (the (dict_get (pp_decisions (plan_pool ips st p)) m)) \<longleftrightarrow> \<not> keeps st p m"
    if "m \<in> set (pl_members p)" for m
    using that by (simp add: plan_pool_def Let_def map_of_rev_map_pair decision_of_def
        keeps_should_eject split_beta)
  then show "pp_desired (plan_pool ips st p) = healthy_ips ips st p"
    by (auto simp: plan_pool_def healthy_ips_def Let_def)
  show "pp_member_ips (plan_pool ips st p) = pool_ips ips p"
    by (simp add: plan_pool_def pool_ips_def Let_def)
qed

lemma finite_healthy_ips [simp]: "finite (healthy_ips ips st p)" "finite (pool_ips ips p)"
  by (simp_all add: healthy_ips_def pool_ips_def)

lemma healthy_subset: "healthy_ips ips st p \<subseteq> pool_ips ips p"
  by (auto simp: healthy_ips_def pool_ips_def)

section \<open>One pool, for any driver\<close>

text \<open>What a round does to the addresses of one record, from the members it found\<close>

definition reconciled ::
  "(string, string) dict \<Rightarrow> (string, node_status) dict \<Rightarrow> pool \<Rightarrow> string set \<Rightarrow> string set" where
  "reconciled ips st p cur =
     (if healthy_ips ips st p = {} then cur
      else healthy_ips ips st p \<union> (cur - pool_ips ips p))"

text \<open>The abstract round: the pools one after the other, as a function on the records' addresses\<close>

fun reconcile_all ::
  "(string, string) dict \<Rightarrow> (string, node_status) dict \<Rightarrow> pool list \<Rightarrow>
   (string \<Rightarrow> string set) \<Rightarrow> (string \<Rightarrow> string set)" where
  "reconcile_all ips st [] M = M"
| "reconcile_all ips st (p # ps) M =
     reconcile_all ips st ps (M(pl_record p := reconciled ips st p (M (pl_record p))))"

lemma reconciled_nonempty: "cur \<noteq> {} \<Longrightarrow> reconciled ips st p cur \<noteq> {}"
  by (simp add: reconciled_def)

lemma find_missing: "find (\<lambda>m. dict_get ips m = None) ms = None \<longleftrightarrow> (\<forall>m \<in> set ms. dict_get ips m \<noteq> None)"
  by (auto simp: find_None_iff)

context dns_driver begin

lemma reconcile_pool_result:
  assumes ok: "ok d" and run: "reconcile_pool ops dry p (plan_pool ips st p) cur rep0 (d, al) = (res, d', al')"
    and cur: "cur = members d (pl_record p)" and h: "healthy_ips ips st p \<noteq> {}"
  shows "ok d' \<and> (q \<noteq> pl_record p \<or> dry \<longrightarrow> members d' q = members d q)
    \<and> (dry \<longrightarrow> marked d' = marked d)
    \<and> (\<not> isl res \<longrightarrow> \<not> dry \<longrightarrow>
        members d' (pl_record p) = reconciled ips st p (members d (pl_record p)))
    \<and> members d (pl_record p) - (pool_ips ips p - healthy_ips ips st p) \<subseteq> members d' (pl_record p)"
proof -
  let ?r = "pl_record p" and ?h = "healthy_ips ips st p" and ?p = "pool_ips ips p"
  define rm where "rm = py_sorted ((cur \<inter> ?p) - ?h)"
  define ad where "ad = py_sorted (?h - cur)"
  have sets: "set rm = (cur \<inter> ?p) - ?h" "set ad = ?h - cur"
    by (simp_all add: rm_def ad_def)
  note unfolded = run [unfolded reconcile_pool_def plan_pool_sets Let_def prod.case,
      folded rm_def ad_def]
  consider "ad = []" "rm = []" | "dry" | "\<not> (ad = [] \<and> rm = [])" "\<not> dry" by blast
  then show ?thesis
  proof cases
    case 1
    then have "members d ?r = reconciled ips st p (members d ?r)"
      using sets h by (auto simp: reconciled_def cur)
    moreover from 1 unfolded have "d' = d" by simp
    ultimately show ?thesis using ok by auto
  next
    case 2
    then have "d' = d" using unfolded by (simp split: if_splits)
    with 2 ok show ?thesis by auto
  next
    case 3
    obtain ares d2 where a: "apply_changes ops ?r rm ad (pl_ttl p) d = (ares, d2)" by fastforce
    note c = apply_changes_result [OF ok a]
    have d': "d' = d2" "\<not> isl res \<Longrightarrow> ares = Inr ()"
      using unfolded 3 a by (auto split: sum.splits)
    have "members d2 ?r = reconciled ips st p (members d ?r)" if "ares = Inr ()"
      using c(5) [OF that] sets h healthy_subset [of ips st p]
      by (auto simp: reconciled_def cur)
    with c(1-4) d' sets 3 show ?thesis by (auto simp: cur)
  qed
qed

lemma watch_pool_result:
  assumes ok: "ok d" and run: "watch_pool ops dry ips st p (d, al) = (res, d', al')"
  shows "ok d' \<and> (q \<noteq> pl_record p \<or> dry \<longrightarrow> members d' q = members d q)
    \<and> (dry \<longrightarrow> marked d' = marked d)
    \<and> (\<not> isl res \<longrightarrow> \<not> dry \<longrightarrow>
        members d' (pl_record p) = reconciled ips st p (members d (pl_record p)))
    \<and> members d (pl_record p) - (pool_ips ips p - healthy_ips ips st p) \<subseteq> members d' (pl_record p)
    \<and> (healthy_ips ips st p = {} \<longrightarrow> members d' = members d)"
proof (cases "find (\<lambda>m. dict_get ips m = None) (pl_members p)")
  case (Some m)
  with run ok show ?thesis by (auto simp: watch_pool_def)
next
  case known: None
  obtain lres d1 where l: "list_members ops (pl_record p) d = (lres, d1)" by fastforce
  show ?thesis
  proof (cases lres)
    case (Inl e)
    with run known l list_keeps [OF ok l] show ?thesis by (auto simp: watch_pool_def)
  next
    case (Inr listed)
    note m = list_members_result [OF ok l [unfolded Inr]]
    show ?thesis
    proof (cases "healthy_ips ips st p = {}")
      case True
      with run known l Inr m show ?thesis
        by (auto simp: watch_pool_def Let_def plan_pool_sets reconciled_def protect_pool_def)
    next
      case False
      with run known l Inr obtain rep0 where
        "reconcile_pool ops dry p (plan_pool ips st p) (set listed) rep0 (d1, al) = (res, d', al')"
        by (auto simp: watch_pool_def Let_def plan_pool_sets)
      from reconcile_pool_result [OF m(1) this] m False show ?thesis by auto
    qed
  qed
qed

text \<open>A whole round\<close>

lemma watch_pools_result:
  assumes "ok d" and "watch_pools ops dry ips st ps (d, al) = (res, d', al')"
  shows "ok d' \<and> (dry \<longrightarrow> members d' = members d \<and> marked d' = marked d)
    \<and> (\<not> isl res \<longrightarrow> \<not> dry \<longrightarrow> members d' = reconcile_all ips st ps (members d))
    \<and> ((\<forall>p \<in> set ps. pl_record p = r \<longrightarrow> ip \<notin> pool_ips ips p - healthy_ips ips st p) \<longrightarrow>
        ip \<in> members d r \<longrightarrow> ip \<in> members d' r)"
  using assms
proof (induction ps arbitrary: d al res d' al')
  case (Cons p ps)
  obtain r1 d1 al1 where w: "watch_pool ops dry ips st p (d, al) = (r1, d1, al1)"
    by (metis prod_cases3)
  note p_res = watch_pool_result [OF Cons.prems(1) w]
  have dry1: "dry \<Longrightarrow> members d1 = members d \<and> marked d1 = marked d" using p_res by auto
  have keep1: "ip \<in> members d r \<Longrightarrow>
      (pl_record p = r \<longrightarrow> ip \<notin> pool_ips ips p - healthy_ips ips st p) \<Longrightarrow> ip \<in> members d1 r"
    using p_res by (cases "pl_record p = r") auto
  show ?case
  proof (cases r1)
    case (Inl e)
    with Cons.prems(2) w p_res dry1 keep1 show ?thesis by auto
  next
    case (Inr rp)
    have rec1: "\<not> dry \<Longrightarrow> members d1 =
        (members d)(pl_record p := reconciled ips st p (members d (pl_record p)))"
      using p_res Inr by (auto simp: fun_eq_iff)
    obtain r2 d2 al2 where ws: "watch_pools ops dry ips st ps (d1, al1) = (r2, d2, al2)"
      by (metis prod_cases3)
    have "ok d1" using p_res by blast
    note IH = Cons.IH [OF this ws]
    have d': "d' = d2" "isl r2 = isl res"
      using Cons.prems(2) w Inr ws by (auto split: sum.splits)
    have rec: "members d' = reconcile_all ips st (p # ps) (members d)" if "\<not> isl res" "\<not> dry"
      unfolding reconcile_all.simps d'(1) rec1 [OF that(2), symmetric]
      using IH that d'(2) by blast
    have keep: "ip \<in> members d' r" if "ip \<in> members d r"
        "\<forall>p \<in> set (p # ps). pl_record p = r \<longrightarrow> ip \<notin> pool_ips ips p - healthy_ips ips st p"
    proof -
      have "ip \<in> members d1 r" using that by (intro keep1) simp_all
      with that(2) IH show ?thesis unfolding d'(1) by simp
    qed
    have "ok d'" "dry \<longrightarrow> members d' = members d \<and> marked d' = marked d"
      using d' IH dry1 by auto
    with rec keep show ?thesis by blast
  qed
qed simp

lemma watch_once_result:
  assumes "ok d" and "watch_once f ops dry (Inr clusters) (d, al) = (res, d', al')"
    and "fl_dns f = Some dns"
  shows "ok d' \<and> (dry \<longrightarrow> members d' = members d \<and> marked d' = marked d)
    \<and> (\<not> isl res \<longrightarrow> \<not> dry \<longrightarrow> members d' =
        reconcile_all (node_ips f) (status_by_name clusters) (dn_pools dns) (members d))
    \<and> ((\<forall>p \<in> set (dn_pools dns). pl_record p = r \<longrightarrow>
          ip \<notin> pool_ips (node_ips f) p - healthy_ips (node_ips f) (status_by_name clusters) p) \<longrightarrow>
        ip \<in> members d r \<longrightarrow> ip \<in> members d' r)"
proof (cases "dn_pools dns = []")
  case True
  with assms show ?thesis by (auto simp: watch_once_def)
next
  case False
  obtain r1 d1 al1 where w: "watch_pools ops dry (node_ips f) (status_by_name clusters)
      (dn_pools dns) (d, al) = (r1, d1, al1)" by (metis prod_cases3)
  with False assms(2,3) have "d' = d1" "isl r1 = isl res"
    by (auto simp: watch_once_def split: sum.splits)
  with watch_pools_result [OF assms(1) w] show ?thesis by auto
qed

end

lemma reconcile_all_nonempty: "M r \<noteq> {} \<Longrightarrow> reconcile_all ips st ps M r \<noteq> {}"
proof (induction ps arbitrary: M)
  case (Cons p ps)
  have "(M(pl_record p := reconciled ips st p (M (pl_record p)))) r \<noteq> {}"
    using Cons.prems reconciled_nonempty by (cases "r = pl_record p") simp_all
  then show ?case by (simp only: reconcile_all.simps Cons.IH not_False_eq_True)
qed simp

end
