(* ===== verification/Watch_Rounds.thy ===== *)
theory Watch_Rounds
  imports Watch
begin

text \<open>
  What the failover loop of \<open>watch.py\<close> guarantees, for every driver that keeps the contract of
  \<open>Dns\<close> and whatever the prober answers: rounds refine the abstract reconciliation, never
  leave a served record empty, keep healthy members even when the driver fails, and end.
\<close>

section \<open>Any round\<close>

lemma reconcile_all_frame:
  "r \<notin> pl_record ` set ps \<Longrightarrow> reconcile_all ips st ps M r = M r"
  by (induction ps arbitrary: M) auto

context dns_driver begin

lemma watch_once_frame:
  assumes "ok d" and "watch_once f ops dry probed (d, al) = (res, d', al')"
  shows "ok d' \<and> (dry \<longrightarrow> members d' = members d \<and> marked d' = marked d)
    \<and> (\<not> isl res \<longrightarrow> members d r \<noteq> {} \<longrightarrow> members d' r \<noteq> {})"
proof (cases "fl_dns f")
  case None
  with assms show ?thesis by (auto simp: watch_once_def)
next
  case (Some dns)
  show ?thesis
  proof (cases probed)
    case (Inl e)
    with assms Some show ?thesis by (auto simp: watch_once_def split: if_splits)
  next
    case (Inr clusters)
    have run: "watch_once f ops dry (Inr clusters) (d, al) = (res, d', al')"
      using assms(2) Inr by simp
    note res = watch_once_result [OF assms(1) run Some, of r]
    have "members d' r \<noteq> {}" if "\<not> isl res" "members d r \<noteq> {}"
    proof (cases dry)
      case True
      with res that show ?thesis by simp
    next
      case False
      with res that(1) have "members d' =
          reconcile_all (node_ips f) (status_by_name clusters) (dn_pools dns) (members d)" by blast
      with reconcile_all_nonempty [where M = "members d", OF that(2)] show ?thesis by metis
    qed
    with res show ?thesis by blast
  qed
qed

end

section \<open>The loop\<close>

text \<open>An invariant \<open>I\<close> of the rounds that return, and what a failing round leaves\<close>

definition round_inv ::
  "fleet \<Rightarrow> 'd dns_ops \<Rightarrow> bool \<Rightarrow> ('d \<Rightarrow> bool) \<Rightarrow> ('d \<Rightarrow> bool) \<Rightarrow> bool" where
  "round_inv f ops dry I J \<longleftrightarrow>
     (\<forall>probed d al res d' al'. I d \<longrightarrow> watch_once f ops dry probed (d, al) = (res, d', al') \<longrightarrow>
        (case res of Inl _ \<Rightarrow> J d' | Inr _ \<Rightarrow> I d'))"

lemma watch_loop_inv_raw:
  "watch_loop f ops prober interval iterations dry n out s = Some y \<Longrightarrow>
   round_inv f ops dry I J \<longrightarrow> I (fst s) \<longrightarrow>
   (case fst y of Inl _ \<Rightarrow> J (fst (snd (snd y))) | Inr _ \<Rightarrow> I (fst (snd (snd y))))"
proof (induction rule: watch_loop.raw_induct [rotated, consumes 1, case_names step])
  case (step loop f ops prober interval iterations dry n out s y)
  show ?case
  proof (intro impI)
    assume inv: "round_inv f ops dry I J" and I: "I (fst s)"
    obtain res d' al' where w: "watch_once f ops dry (prober n) s = (res, d', al')"
      by (metis prod_cases3)
    then have "watch_once f ops dry (prober n) (fst s, snd s) = (res, d', al')" by simp
    with inv I have c: "case res of Inl _ \<Rightarrow> J d' | Inr _ \<Rightarrow> I d'" unfolding round_inv_def by blast
    show "case fst y of Inl _ \<Rightarrow> J (fst (snd (snd y))) | Inr _ \<Rightarrow> I (fst (snd (snd y)))"
    proof (cases res)
      case (Inl e)
      with step(2) w c I show ?thesis by (auto split: if_splits)
    next
      case (Inr report)
      note IH = step(1) [of f ops prober interval iterations dry "n + 1"
          "(out @ [Round report]) @ [Pause interval]" "(d', al')" y]
      from Inr c have "I d'" by simp
      with IH inv step(2) w Inr I show ?thesis by (auto simp: Let_def split: if_splits)
    qed
  qed
qed

lemma watch_loop_inv:
  assumes "watch_loop f ops prober interval iterations dry n out (d, al) = Some (res, out', d', al')"
    and "round_inv f ops dry I J" and "I d"
  shows "case res of Inl _ \<Rightarrow> J d' | Inr _ \<Rightarrow> I d'"
  using watch_loop_inv_raw [OF assms(1), of I J, unfolded fst_conv snd_conv] assms(2,3) by blast

context dns_driver begin

lemma round_inv_nonempty:
  "round_inv f ops dry (\<lambda>d. ok d \<and> members d r \<noteq> {}) (\<lambda>_. True)"
  unfolding round_inv_def
proof (intro allI impI)
  fix probed d al res d' al'
  assume "ok d \<and> members d r \<noteq> {}" "watch_once f ops dry probed (d, al) = (res, d', al')"
  with watch_once_frame [of d f dry probed al res d' al' r]
  show "case res of Inl _ \<Rightarrow> True | Inr _ \<Rightarrow> ok d' \<and> members d' r \<noteq> {}"
    by (cases res) simp_all
qed

lemma round_inv_dry:
  "round_inv f ops True (\<lambda>d. ok d \<and> members d = M \<and> marked d = K)
     (\<lambda>d. ok d \<and> members d = M \<and> marked d = K)"
  unfolding round_inv_def
proof (intro allI impI)
  fix probed d al res d' al'
  assume "ok d \<and> members d = M \<and> marked d = K"
    "watch_once f ops True probed (d, al) = (res, d', al')"
  with watch_once_frame [of d f True probed al res d' al']
  show "case res of Inl _ \<Rightarrow> ok d' \<and> members d' = M \<and> marked d' = K
      | Inr _ \<Rightarrow> ok d' \<and> members d' = M \<and> marked d' = K"
    by (cases res) simp_all
qed

end

text \<open>How many rounds a log of the loop shows, and how many pauses\<close>

definition rounds :: "round_event list \<Rightarrow> nat" where
  "rounds out = length (filter (\<lambda>e. case e of Round _ \<Rightarrow> True | Pause _ \<Rightarrow> False) out)"

definition pauses :: "round_event list \<Rightarrow> nat" where
  "pauses out = length (filter (\<lambda>e. case e of Round _ \<Rightarrow> False | Pause _ \<Rightarrow> True) out)"

lemma rounds_simps [simp]:
  "rounds (out @ [Round r]) = Suc (rounds out)" "rounds (out @ [Pause i]) = rounds out"
  "pauses (out @ [Round r]) = pauses out" "pauses (out @ [Pause i]) = Suc (pauses out)"
  "rounds (out @ [Round r, Pause i]) = Suc (rounds out)"
  "pauses (out @ [Round r, Pause i]) = Suc (pauses out)"
  "rounds [] = 0" "pauses [] = 0"
  by (simp_all add: rounds_def pauses_def)

lemma watch_loop_returns_from:
  assumes "n < k"
  shows "\<exists>res out' s'. watch_loop f ops prober interval (Some k) dry n out s = Some (res, out', s')
    \<and> (case res of Inl _ \<Rightarrow> rounds out' < rounds out + nat (k - n)
         | Inr _ \<Rightarrow> rounds out' = rounds out + nat (k - n))
    \<and> pauses out' + rounds out + 1 = pauses out + rounds out' + (if isl res then 1 else 0)"
  using assms
proof (induction "nat (k - n)" arbitrary: n out s)
  case (Suc m)
  obtain res s1 where w: "watch_once f ops dry (prober n) s = (res, s1)" by (metis prod.collapse)
  show ?case
  proof (cases res)
    case (Inl e)
    with w Suc.prems show ?thesis by (subst watch_loop.simps) simp
  next
    case (Inr report)
    show ?thesis
    proof (cases "k \<le> n + 1")
      case True
      with Suc.prems have "k = n + 1" by simp
      with w Inr show ?thesis by (subst watch_loop.simps) simp
    next
      case False
      let ?out = "(out @ [Round report]) @ [Pause interval]"
      have eq: "watch_loop f ops prober interval (Some k) dry n out s =
          watch_loop f ops prober interval (Some k) dry (n + 1) ?out s1"
        using w Inr False Suc.prems by (subst watch_loop.simps) (simp add: Let_def)
      have "m = nat (k - (n + 1))" "n + 1 < k" using Suc.hyps(2) False by auto
      from Suc.hyps(1) [OF this, of ?out s1] obtain res2 out2 s2 where
        "watch_loop f ops prober interval (Some k) dry (n + 1) ?out s1 = Some (res2, out2, s2)"
        "case res2 of Inl _ \<Rightarrow> rounds out2 < rounds ?out + nat (k - (n + 1))
          | Inr _ \<Rightarrow> rounds out2 = rounds ?out + nat (k - (n + 1))"
        "pauses out2 + rounds ?out + 1 = pauses ?out + rounds out2 + (if isl res2 then 1 else 0)"
        by blast
      with eq False show ?thesis
        by (intro exI [of _ res2] exI [of _ out2] exI [of _ s2])
          (auto split: sum.splits)
    qed
  qed
qed simp

section \<open>Rounds on a loaded fleet\<close>

text \<open>In a well-formed fleet every member of a pool has an address.\<close>

lemma node_ips_known:
  assumes "pool_wf f p" and "m \<in> set (pl_members p)"
  shows "dict_get (node_ips f) m \<noteq> None"
proof -
  from assms obtain c where c: "(pl_cluster p, c) \<in> set (fl_clusters f)" and
    m: "m \<in> n_name ` set (cl_nodes c)"
    unfolding pool_wf_def by (meson map_of_SomeD subsetD)
  let ?pairs = "concat (map (\<lambda>(_, c). map (\<lambda>n. (n_name n, host n)) (cl_nodes c)) (fl_clusters f))"
  from m obtain n where "n \<in> set (cl_nodes c)" "n_name n = m" by blast
  with c have "(m, host n) \<in> set ?pairs" by (auto intro!: bexI [of _ "(pl_cluster p, c)"])
  then have "m \<in> fst ` set ?pairs" by (rule image_eqI [rotated]) (simp only: fst_conv)
  from map_of_rev_is_Some [OF this] show ?thesis
    unfolding node_ips_def map_of_dict_of_pairs by (metis option.distinct(1))
qed

context reliable_driver begin

lemma watch_pool_returns:
  assumes ok: "ok d" and known: "\<forall>m \<in> set (pl_members p). dict_get ips m \<noteq> None"
  shows "\<not> isl (fst (watch_pool ops dry ips st p (d, al)))"
proof -
  have f: "find (\<lambda>m. dict_get ips m = None) (pl_members p) = None"
    using known by (simp add: find_missing)
  obtain lres d1 where l: "list_members ops (pl_record p) d = (lres, d1)" by fastforce
  with list_returns [OF ok, of "pl_record p"] obtain xs where xs: "lres = Inr xs"
    by (cases lres) auto
  from list_keeps [OF ok l] have "ok d1" by blast
  note a = apply_changes_returns [OF this]
  show ?thesis
  proof (cases "healthy_ips ips st p = {}")
    case True
    with f l xs show ?thesis
      by (simp add: watch_pool_def Let_def plan_pool_sets protect_pool_def)
  next
    case False
    let ?rm = "py_sorted ((set xs \<inter> pool_ips ips p) - healthy_ips ips st p)"
    let ?ad = "py_sorted (healthy_ips ips st p - set xs)"
    obtain r2 d2 where c: "apply_changes ops (pl_record p) ?rm ?ad (pl_ttl p) d1 = (r2, d2)"
      by fastforce
    with a [of "pl_record p" ?rm ?ad "pl_ttl p"] obtain u where "r2 = Inr u" by (cases r2) auto
    with f l xs False c show ?thesis
      by (simp add: watch_pool_def Let_def plan_pool_sets reconcile_pool_def)
  qed
qed

lemma watch_pools_returns:
  assumes "ok d" and "\<forall>p \<in> set ps. \<forall>m \<in> set (pl_members p). dict_get ips m \<noteq> None"
  shows "\<not> isl (fst (watch_pools ops dry ips st ps (d, al)))"
  using assms
proof (induction ps arbitrary: d al)
  case (Cons p ps)
  obtain r1 d1 al1 where w: "watch_pool ops dry ips st p (d, al) = (r1, d1, al1)"
    by (metis prod_cases3)
  from Cons.prems(2) have "\<forall>m \<in> set (pl_members p). dict_get ips m \<noteq> None" by simp
  from watch_pool_returns [OF Cons.prems(1) this, of dry st al] w obtain rep where
    r1: "r1 = Inr rep" by (cases r1) auto
  have "ok d1" using watch_pool_result [OF Cons.prems(1) w] by blast
  from Cons.IH [OF this, of al1] Cons.prems(2) have
    "\<not> isl (fst (watch_pools ops dry ips st ps (d1, al1)))" by simp
  with w r1 show ?case
    by (cases "watch_pools ops dry ips st ps (d1, al1)") (auto split: sum.splits)
qed simp

lemma watch_once_returns:
  assumes "ok d" and "fleet_wf f"
  obtains rep d' al' where "watch_once f ops dry (Inr clusters) (d, al) = (Inr rep, d', al')"
proof (cases "fl_dns f")
  case None
  then show ?thesis using that by (simp add: watch_once_def)
next
  case (Some dns)
  then have known: "\<forall>p \<in> set (dn_pools dns). \<forall>m \<in> set (pl_members p). dict_get (node_ips f) m \<noteq> None"
    using assms(2) node_ips_known unfolding fleet_wf_def by blast
  obtain r1 d1 al1 where w: "watch_pools ops dry (node_ips f) (status_by_name clusters)
      (dn_pools dns) (d, al) = (r1, d1, al1)" by (metis prod_cases3)
  with watch_pools_returns [OF assms(1) known, of dry "status_by_name clusters" al]
  obtain reps where "r1 = Inr reps" by (cases r1) auto
  with w Some show ?thesis using that by (cases "dn_pools dns = []") (auto simp: watch_once_def)
qed

end

section \<open>What a round records\<close>

text \<open>The audit entries of a round, read off its report\<close>

definition pool_entries :: "bool \<Rightarrow> pool \<Rightarrow> pool_report \<Rightarrow> audit_entry list" where
  "pool_entries dry p r =
     (if pw_protected r then
        (if pw_current r = [] then []
         else [watch_entry p (if dry then ''dry-run'' else ''execute'')
                 (JObj [(''protected'', JBool True), (''current'', json_strs (pw_current r))])])
      else if dry \<or> (pw_added r = [] \<and> pw_removed r = []) then []
      else [watch_entry p ''execute'' (JObj
              [(''added'', json_strs (pw_added r)), (''removed'', json_strs (pw_removed r)),
               (''decisions'', decisions_json (pw_decisions r))])])"

definition round_entries :: "bool \<Rightarrow> pool list \<Rightarrow> pool_report list \<Rightarrow> audit_entry list" where
  "round_entries dry ps rs = concat (map2 (pool_entries dry) ps rs)"

lemma watch_pool_entries:
  assumes "watch_pool ops dry ips st p (d, Some a) = (Inr rep, d', al')"
  shows "\<exists>a'. al' = Some a' \<and> audit_entries a' = audit_entries a @ pool_entries dry p rep"
proof -
  obtain xs d1 where l: "list_members ops (pl_record p) d = (Inr xs, d1)"
    and known: "find (\<lambda>m. dict_get ips m = None) (pl_members p) = None"
    using assms by (auto simp: watch_pool_def split: option.splits prod.splits sum.splits)
  show ?thesis
  proof (cases "healthy_ips ips st p = {}")
    case True
    with assms l known show ?thesis
      by (auto simp: watch_pool_def Let_def plan_pool_sets protect_pool_def pool_entries_def
          audit_entries_put)
  next
    case False
    with assms l known show ?thesis
      by (auto simp: watch_pool_def Let_def plan_pool_sets reconcile_pool_def pool_entries_def
          audit_entries_put split: if_splits prod.splits sum.splits)
  qed
qed

lemma watch_pools_entries:
  "watch_pools ops dry ips st ps (d, Some a) = (Inr reps, d', al') \<Longrightarrow>
   \<exists>a'. al' = Some a' \<and> audit_entries a' = audit_entries a @ round_entries dry ps reps"
proof (induction ps arbitrary: d a reps)
  case (Cons p ps)
  obtain r1 d1 al1 where w: "watch_pool ops dry ips st p (d, Some a) = (r1, d1, al1)"
    by (metis prod_cases3)
  with Cons.prems obtain rep where r1: "r1 = Inr rep" by (cases r1) auto
  from watch_pool_entries [OF w [unfolded r1]] obtain a1 where
    a1: "al1 = Some a1" "audit_entries a1 = audit_entries a @ pool_entries dry p rep" by blast
  from Cons.prems w r1 a1 obtain reps2 where
    "watch_pools ops dry ips st ps (d1, Some a1) = (Inr reps2, d', al')" "reps = rep # reps2"
    by (auto split: prod.splits sum.splits)
  with Cons.IH a1 show ?case by (fastforce simp: round_entries_def)
qed (auto simp: round_entries_def)

section \<open>Properties\<close>

text \<open>A fleet with one pool of two nodes, one of which lags, for the witnesses\<close>

definition two_node_pool :: pool where
  "two_node_pool =
     \<lparr>pl_record = ''rpc'', pl_cluster = ''mainnet'', pl_members = [''rpc1'', ''rpc2''],
      pl_ttl = 30, pl_eject_when = default_eject_when\<lparr>ew_slot_lag := Some 50\<rparr>\<rparr>"

definition two_node_fleet :: fleet where
  "two_node_fleet =
     \<lparr>fl_clusters = [(''mainnet'', \<lparr>cl_reference_rpc = ''ref'', cl_install = None, cl_network = None,
        cl_nodes = [basic_node ''rpc1'' Rpc ''10.0.0.1'' (Some ''u1'') None,
                    basic_node ''rpc2'' Rpc ''10.0.0.2'' (Some ''u2'') None]\<rparr>)],
      fl_builders = [],
      fl_dns = Some \<lparr>dn_provider = Cloudflare, dn_zone = ''z'',
        dn_pools = [two_node_pool]\<rparr>\<rparr>"

definition lagging_rpc1 :: "cluster_status list" where
  "lagging_rpc1 =
     [\<lparr>cs_name = ''mainnet'', cs_reference_rpc = ''ref'', cs_reference_slot = JNull,
       cs_reference_version = JNull, cs_reference_error = None,
       cs_nodes = [(fresh_status ''rpc1'' ''mainnet'' Rpc)\<lparr>ns_reachable := True,
                      ns_healthy := Some True, ns_slot_lag := Some 500\<rparr>,
                   (fresh_status ''rpc2'' ''mainnet'' Rpc)\<lparr>ns_reachable := True,
                      ns_healthy := Some True, ns_slot_lag := Some 3\<rparr>]\<rparr>]"

definition serving_rpc1 :: inmem where
  "serving_rpc1 = inmem_init [(''rpc'', [''10.0.0.1''])] []"

lemma two_node_fleet_wf: "fleet_wf two_node_fleet"
  by (simp add: fleet_wf_def two_node_fleet_def two_node_pool_def cluster_wf_def builder_known_def
      pool_wf_def basic_node_def)

text \<open>
  C1. On a validated fleet, with a driver that keeps its contract and does not fail, a round
  returns whatever the probe said, and what it does to every record's addresses is exactly the
  abstract reconciliation: pool by pool, the members that pass stay or come in, the members
  that fail go, addresses that belong to no member are left alone, and a pool whose members
  all fail is not touched.
\<close>

theorem watch_round_refines:
  assumes "reliable_driver ops members marked ok" and "ok d" and "fleet_wf f"
    and "fl_dns f = Some dns"
  shows "\<exists>rep d' al'. watch_once f ops False (Inr clusters) (d, al) = (Inr rep, d', al') \<and> ok d' \<and>
    members d' = reconcile_all (node_ips f) (status_by_name clusters) (dn_pools dns) (members d)"
proof -
  have drv: "dns_driver ops members marked ok"
    using assms(1) by (simp add: reliable_driver_def)
  from reliable_driver.watch_once_returns [OF assms(1-3)] obtain rep d' al' where
    w: "watch_once f ops False (Inr clusters) (d, al) = (Inr rep, d', al')" by metis
  with dns_driver.watch_once_result [OF drv assms(2) w assms(4)] show ?thesis by auto
qed

lemma serving_rpc1_ok: "inmem_ok serving_rpc1"
  by (simp add: serving_rpc1_def inmem_ok_init)

lemma two_node_dns: "fl_dns two_node_fleet = Some (the (fl_dns two_node_fleet))"
  by (simp add: two_node_fleet_def)

theorem watch_round_refines_witness:
  "\<exists>rep d' al'. watch_once two_node_fleet inmem_ops False (Inr lagging_rpc1) (serving_rpc1, None) =
      (Inr rep, d', al') \<and> inmem_ok d' \<and>
    im_get d' = reconcile_all (node_ips two_node_fleet) (status_by_name lagging_rpc1)
      (dn_pools (the (fl_dns two_node_fleet))) (im_get serving_rpc1)"
  by (rule watch_round_refines [OF inmem.reliable_driver_axioms serving_rpc1_ok
        two_node_fleet_wf two_node_dns])



text \<open>
  C3. A member that passes its checks, and an address that belongs to no member, stays in
  rotation through a round in every case: also when the driver raises in the middle of it, at
  any call, and the round ends with that error.
\<close>

theorem watch_keeps_healthy:
  assumes "dns_driver ops members marked ok" and "ok d" and "fl_dns f = Some dns"
    and "watch_once f ops dry (Inr clusters) (d, al) = (res, d', al')"
    and "ip \<in> members d r"
    and "\<forall>p \<in> set (dn_pools dns). pl_record p = r \<longrightarrow> ip \<notin> pool_ips (node_ips f) p
           \<or> ip \<in> healthy_ips (node_ips f) (status_by_name clusters) p"
  shows "ip \<in> members d' r"
proof -
  from assms(6) have "\<forall>p \<in> set (dn_pools dns). pl_record p = r \<longrightarrow>
      ip \<notin> pool_ips (node_ips f) p - healthy_ips (node_ips f) (status_by_name clusters) p" by blast
  with dns_driver.watch_once_result [OF assms(1,2,4,3), of r ip] assms(5) show ?thesis by blast
qed

theorem watch_keeps_healthy_witness:
  "\<exists>d'. fst (snd (watch_once two_node_fleet inmem_ops False (Inr lagging_rpc1)
      (inmem_init [(''rpc'', [''10.0.0.1'', ''10.0.0.2''])] [], None))) = d'
    \<and> ''10.0.0.2'' \<in> im_get d' ''rpc''"
proof -
  let ?d = "inmem_init [(''rpc'', [''10.0.0.1'', ''10.0.0.2''])] []"
  obtain res d' al' where w: "watch_once two_node_fleet inmem_ops False (Inr lagging_rpc1)
      (?d, None) = (res, d', al')" by (metis prod_cases3)
  have k: "keeps (status_by_name lagging_rpc1) two_node_pool ''rpc2''"
    by (simp add: keeps_def two_node_pool_def status_by_name_def lagging_rpc1_def
        dict_of_pairs_def default_eject_when_def fresh_status_def)
  have "dict_get (node_ips two_node_fleet) ''rpc2'' = Some ''10.0.0.2''"
    by (simp add: node_ips_def two_node_fleet_def basic_node_def dict_of_pairs_def)
  with k have h: "''10.0.0.2'' \<in>
      healthy_ips (node_ips two_node_fleet) (status_by_name lagging_rpc1) two_node_pool"
    unfolding healthy_ips_def
    by (intro image_eqI [of _ _ "''rpc2''"]) (simp_all add: two_node_pool_def)
  have "''10.0.0.2'' \<in> im_get d' ''rpc''"
  proof (rule watch_keeps_healthy [OF inmem.dns_driver_axioms inmem_ok_init two_node_dns w])
    show "''10.0.0.2'' \<in> im_get ?d ''rpc''" by (simp add: inmem_init_def im_get_def)
    show "\<forall>p \<in> set (dn_pools (the (fl_dns two_node_fleet))). pl_record p = ''rpc'' \<longrightarrow>
        ''10.0.0.2'' \<notin> pool_ips (node_ips two_node_fleet) p \<or>
        ''10.0.0.2'' \<in> healthy_ips (node_ips two_node_fleet) (status_by_name lagging_rpc1) p"
      using h by (simp add: two_node_fleet_def)
  qed
  with w show ?thesis by simp
qed

text \<open>A driver that can only remove: every \<open>add_member\<close> raises\<close>

definition no_add_ops :: "inmem dns_ops" where
  "no_add_ops = inmem_ops\<lparr>add_member := \<lambda>_ _ _ d. (Inl (DnsError ''quota exceeded''), d)\<rparr>"

lemma no_add_fields:
  "list_members no_add_ops = list_members inmem_ops"
  "remove_member no_add_ops = remove_member inmem_ops"
  "has_marker no_add_ops = has_marker inmem_ops"
  "ensure_marker no_add_ops = ensure_marker inmem_ops"
  "add_member no_add_ops r ip ttl d = (Inl (DnsError ''quota exceeded''), d)"
  by (simp_all add: no_add_ops_def)

interpretation no_add: dns_driver no_add_ops im_get im_markers inmem_ok
  by (unfold_locales; unfold no_add_fields)
    ((rule inmem.list_keeps inmem.list_result inmem.remove_result inmem.has_marker_result
      inmem.ensure_marker_result; assumption) | fastforce simp: may_apply_def)+


text \<open>
  C10. A dry run never changes the DNS: whatever the prober answers, and however the loop ends,
  every record has the addresses it had and no record is marked that was not.
\<close>

theorem watch_dry_run_frame:
  assumes "dns_driver ops members marked ok" and "ok d"
    and "watch_loop f ops prober interval iterations True 0 [] (d, al) = Some (res, out, d', al')"
  shows "members d' = members d \<and> marked d' = marked d"
  using watch_loop_inv [OF assms(3) dns_driver.round_inv_dry [OF assms(1)],
      of "members d" "marked d"] assms(2)
  by (cases res) simp_all

theorem watch_dry_run_frame_witness:
  "im_get (fst (snd (snd (the (watch_loop two_node_fleet inmem_ops (\<lambda>_. Inr lagging_rpc1) 30 (Some 1)
      True 0 [] (serving_rpc1, None)))))) = im_get serving_rpc1"
proof -
  obtain rep d' al' where w: "watch_once two_node_fleet inmem_ops True (Inr lagging_rpc1)
      (serving_rpc1, None) = (Inr rep, d', al')"
    using inmem.watch_once_returns [OF serving_rpc1_ok two_node_fleet_wf] by metis
  have l: "watch_loop two_node_fleet inmem_ops (\<lambda>_. Inr lagging_rpc1) 30 (Some 1) True 0 []
      (serving_rpc1, None) = Some (Inr (), [Round rep], d', al')"
    by (subst watch_loop.simps) (simp add: w)
  from watch_dry_run_frame [OF inmem.dns_driver_axioms serving_rpc1_ok l] l show ?thesis by simp
qed

text \<open>
  C11. With a number of rounds \<open>k\<close> the loop always returns, for every driver and prober. It
  reports exactly \<open>k\<close> rounds (none when \<open>k\<close> is not positive), or fewer when a round raised,
  and pauses between two rounds only, never after the last one.
\<close>

theorem watch_loop_returns:
  "\<exists>res out s'. watch_loop f ops prober interval (Some k) dry 0 [] s = Some (res, out, s')
    \<and> (case res of Inl _ \<Rightarrow> rounds out < nat k | Inr _ \<Rightarrow> rounds out = nat k)
    \<and> pauses out = (if isl res then rounds out else rounds out - 1)"
proof (cases "0 < k")
  case True
  from watch_loop_returns_from [OF this, of f ops prober interval dry "[]" s]
  obtain res out s' where l:
    "watch_loop f ops prober interval (Some k) dry 0 [] s = Some (res, out, s')"
    "case res of Inl _ \<Rightarrow> rounds out < rounds [] + nat (k - 0)
      | Inr _ \<Rightarrow> rounds out = rounds [] + nat (k - 0)"
    "pauses out + rounds [] + 1 = pauses [] + rounds out + (if isl res then 1 else 0)"
    by blast
  from l(3) have "pauses out = (if isl res then rounds out else rounds out - 1)" by auto
  moreover from l(2) have "case res of Inl _ \<Rightarrow> rounds out < nat k | Inr _ \<Rightarrow> rounds out = nat k"
    by (simp split: sum.splits)
  ultimately show ?thesis using l(1) by blast
next
  case False
  then have "watch_loop f ops prober interval (Some k) dry 0 [] s = Some (Inr (), [], s)"
    by (subst watch_loop.simps) simp
  with False show ?thesis by simp
qed



section \<open>Names shared by two clusters\<close>

text \<open>Two clusters that both have a node \<open>rpc1\<close>, and a pool of the first of them\<close>

definition shared_name_fleet :: fleet where
  "shared_name_fleet =
     \<lparr>fl_clusters =
        [(''mainnet'', \<lparr>cl_reference_rpc = ''ref1'', cl_install = None, cl_network = None,
           cl_nodes = [basic_node ''rpc1'' Rpc ''10.0.0.1'' (Some ''u1'') None]\<rparr>),
         (''testnet'', \<lparr>cl_reference_rpc = ''ref2'', cl_install = None, cl_network = None,
           cl_nodes = [basic_node ''rpc1'' Rpc ''10.9.9.9'' (Some ''u9'') None]\<rparr>)],
      fl_builders = [],
      fl_dns = Some \<lparr>dn_provider = Cloudflare, dn_zone = ''z'',
        dn_pools = [\<lparr>pl_record = ''rpc'', pl_cluster = ''mainnet'', pl_members = [''rpc1''],
          pl_ttl = 30, pl_eject_when = default_eject_when\<rparr>]\<rparr>\<rparr>"

text \<open>
  Node names are unique only in their cluster, but the watch loop looks members up by name
  across the fleet, the last cluster winning. So this configuration is accepted, every other
  operation finds the mainnet node under the name, and the mainnet pool gets the address of the
  testnet node of the same name.
\<close>

theorem shared_name_wrong_address:
  "validate_model shared_name_fleet = Inr shared_name_fleet
   \<and> map_option (\<lambda>(cn, c, n). (cn, host n)) (find_node shared_name_fleet ''rpc1'') =
       Some (''mainnet'', ''10.0.0.1'')
   \<and> pool_ips (node_ips shared_name_fleet) (hd (dn_pools (the (fl_dns shared_name_fleet)))) =
       {''10.9.9.9''}"
proof (intro conjI)
  have "fleet_wf shared_name_fleet"
    by (simp add: fleet_wf_def shared_name_fleet_def cluster_wf_def builder_known_def
        pool_wf_def basic_node_def)
  then show "validate_model shared_name_fleet = Inr shared_name_fleet"
    by (simp add: validate_model_wf)
  show "map_option (\<lambda>(cn, c, n). (cn, host n)) (find_node shared_name_fleet ''rpc1'') =
       Some (''mainnet'', ''10.0.0.1'')"
    by (simp add: find_node_def shared_name_fleet_def basic_node_def)
  show "pool_ips (node_ips shared_name_fleet) (hd (dn_pools (the (fl_dns shared_name_fleet)))) =
       {''10.9.9.9''}"
    by (simp add: pool_ips_def node_ips_def shared_name_fleet_def basic_node_def dict_of_pairs_def)
qed

end
