(* ===== verification/Catchup.thy ===== *)
theory Catchup
  imports Executor Probe Schedule
begin

text \<open>
  The waiting part of \<open>operations.py\<close>: the sampler that compares a node with the reference of its
  cluster, the loop that waits until the node has caught up, and the leader view of a validator.
  The loop is a partial function, since an interval that is not positive would keep it running;
  with a positive one it is proved to return.
\<close>

section \<open>Sampling\<close>

record sample =
  sm_healthy :: "bool option"
  sm_node_slot :: json
  sm_ref_slot :: json
  sm_lag :: "int option"

definition sample_json :: "sample \<Rightarrow> (string \<times> json) list" where
  "sample_json s =
     [(''healthy'', json_opt JBool (sm_healthy s)), (''node_slot'', sm_node_slot s),
      (''ref_slot'', sm_ref_slot s), (''lag'', json_opt JInt (sm_lag s))]"

type_synonym sampler = "node \<Rightarrow> string \<Rightarrow> sample io"

text \<open>The inner part of the second \<open>try\<close>, once the health is known\<close>

definition sample_slot :: "env \<Rightarrow> string \<Rightarrow> sample \<Rightarrow> sample io" where
  "sample_slot E url out =
     bind_io (attempt (rpc_call E url ''getSlot'' [])) (\<lambda>r. case r of
       Inl _ \<Rightarrow> ret out
     | Inr slot \<Rightarrow>
         bind_io (lift (lag_of (sm_ref_slot out) slot)) (\<lambda>lag.
         ret (out\<lparr>sm_node_slot := slot, sm_lag := lag\<rparr>)))"

definition default_sampler :: "env \<Rightarrow> sampler" where
  "default_sampler E n reference_rpc =
     bind_io (attempt (rpc_call E reference_rpc ''getSlot'' [])) (\<lambda>r0.
     let out = \<lparr>sm_healthy = None, sm_node_slot = JNull,
                sm_ref_slot = (case r0 of Inl _ \<Rightarrow> JNull | Inr slot \<Rightarrow> slot), sm_lag = None\<rparr> in
     if \<not> truthy (n_rpc_url n) then ret out
     else
       (let url = the (n_rpc_url n) in
        bind_io (attempt (rpc_call E url ''getHealth'' [])) (\<lambda>r. case r of
          Inr health \<Rightarrow> sample_slot E url (out\<lparr>sm_healthy := Some (health = JStr ''ok'')\<rparr>)
        | Inl e \<Rightarrow> if is_rpc_error e then sample_slot E url (out\<lparr>sm_healthy := Some False\<rparr>)
                   else ret out)))"

section \<open>Waiting\<close>

record catchup =
  cu_caught_up :: bool
  cu_waited_s :: int
  cu_last :: "sample option"

definition catchup_json :: "catchup \<Rightarrow> json" where
  "catchup_json c = JObj
     ([(''caught_up'', JBool (cu_caught_up c)), (''waited_s'', JInt (cu_waited_s c))]
      @ (case cu_last c of None \<Rightarrow> [] | Some s \<Rightarrow> sample_json s))"

text \<open>The condition of the return inside the loop\<close>

definition caught_up :: "int \<Rightarrow> sample \<Rightarrow> bool" where
  "caught_up max_lag s \<longleftrightarrow>
     sm_healthy s = Some True \<and> (case sm_lag s of None \<Rightarrow> False | Some lag \<Rightarrow> lag \<le> max_lag)"

partial_function (option) wait_loop ::
  "sampler \<Rightarrow> node \<Rightarrow> string \<Rightarrow> int \<Rightarrow> int \<Rightarrow> int \<Rightarrow> int \<Rightarrow> sample option \<Rightarrow> world \<Rightarrow>
   ((exn + catchup) \<times> world) option" where
  "wait_loop sampler n reference_rpc max_lag timeout_s interval_s waited prev w =
     (if waited \<le> timeout_s then
        (case sampler n reference_rpc w of
           (Inl e, w1) \<Rightarrow> Some (Inl e, w1)
         | (Inr s, w1) \<Rightarrow>
             if caught_up max_lag s then
               Some (Inr \<lparr>cu_caught_up = True, cu_waited_s = waited, cu_last = Some s\<rparr>, w1)
             else
               wait_loop sampler n reference_rpc max_lag timeout_s interval_s (waited + interval_s)
                 (Some s) (snd (sleep interval_s w1)))
      else Some (Inr \<lparr>cu_caught_up = False, cu_waited_s = waited, cu_last = prev\<rparr>, w))"

definition wait_for_catchup ::
  "sampler \<Rightarrow> node \<Rightarrow> string \<Rightarrow> int \<Rightarrow> int \<Rightarrow> int \<Rightarrow> world \<Rightarrow> ((exn + catchup) \<times> world) option" where
  "wait_for_catchup sampler n reference_rpc max_lag timeout_s interval_s w =
     wait_loop sampler n reference_rpc max_lag timeout_s interval_s 0 None w"

text \<open>
  The call the operations make, polling every five seconds. It always returns
  (\<open>await_catchup_returns\<close>), so \<open>the\<close> is the value returned.
\<close>

definition await_catchup :: "sampler \<Rightarrow> node \<Rightarrow> string \<Rightarrow> int \<Rightarrow> int \<Rightarrow> catchup io" where
  "await_catchup sampler n reference_rpc max_lag timeout_s =
     (\<lambda>w. the (wait_for_catchup sampler n reference_rpc max_lag timeout_s 5 w))"

text \<open>The default timeout: ten minutes\<close>

definition catchup_timeout :: int where
  "catchup_timeout = 600"

section \<open>The leader view\<close>

type_synonym leader_fn = "node \<Rightarrow> string \<Rightarrow> int \<Rightarrow> leader_report option io"

text \<open>\<open>except (httpx.HTTPError, RpcError, KeyError)\<close>\<close>

fun is_leader_failure :: "exn \<Rightarrow> bool" where
  "is_leader_failure (HttpError _) = True"
| "is_leader_failure (RpcError _ _) = True"
| "is_leader_failure (KeyError _) = True"
| "is_leader_failure _ = False"

definition leader_info :: "env \<Rightarrow> leader_fn" where
  "leader_info E n reference_rpc min_window_minutes =
     (if n_role n \<noteq> Validator \<or> \<not> truthy (n_identity n) then ret None
      else catch
        (bind_io (leader_windows E reference_rpc (the (n_identity n)) min_window_minutes)
           (\<lambda>l. ret (Some l)))
        (\<lambda>e. if is_leader_failure e then Some (ret None) else None))"

definition leader_opt_json :: "leader_report option \<Rightarrow> json" where
  "leader_opt_json = json_opt leader_json"

section \<open>The loop returns, and what it returns\<close>

definition good_sample :: "int \<Rightarrow> sample \<Rightarrow> bool" where
  "good_sample max_lag s \<longleftrightarrow> sm_healthy s = Some True \<and> (\<exists>k. sm_lag s = Some k \<and> k \<le> max_lag)"

lemma caught_up_good: "caught_up max_lag s \<longleftrightarrow> good_sample max_lag s"
  by (auto simp: caught_up_def good_sample_def split: option.splits)

definition catchup_ok :: "int \<Rightarrow> int \<Rightarrow> int \<Rightarrow> catchup \<Rightarrow> bool" where
  "catchup_ok max_lag timeout_s interval_s c \<longleftrightarrow>
     (if cu_caught_up c then
        cu_waited_s c \<le> timeout_s \<and> (\<exists>s. cu_last c = Some s \<and> good_sample max_lag s)
      else timeout_s < cu_waited_s c \<and>
        (\<exists>s. cu_last c = Some s \<and> \<not> good_sample max_lag s) \<and> cu_waited_s c \<le> timeout_s + interval_s)"

lemma wait_loop_returns:
  assumes "0 < interval_s" and "waited \<le> timeout_s"
  shows "\<exists>res w'. wait_loop sampler n ref max_lag timeout_s interval_s waited prev w = Some (res, w')
    \<and> (case res of Inl _ \<Rightarrow> True | Inr c \<Rightarrow> waited \<le> cu_waited_s c \<and> catchup_ok max_lag timeout_s interval_s c)"
  using assms
proof (induction "nat (timeout_s - waited)" arbitrary: waited prev w rule: less_induct)
  case less
  let ?loop = "wait_loop sampler n ref max_lag timeout_s interval_s"
  obtain r w1 where s: "sampler n ref w = (r, w1)" by fastforce
  show ?case
  proof (cases r)
    case (Inl e)
    with s less.prems show ?thesis by (subst wait_loop.simps) simp
  next
    case (Inr smp)
    show ?thesis
    proof (cases "caught_up max_lag smp")
      case True
      with s Inr less.prems show ?thesis
        by (subst wait_loop.simps) (simp add: catchup_ok_def caught_up_good)
    next
      case False
      let ?w2 = "snd (sleep interval_s w1)"
      have eq: "?loop waited prev w = ?loop (waited + interval_s) (Some smp) ?w2"
        using s Inr False less.prems by (subst wait_loop.simps) simp
      show ?thesis
      proof (cases "waited + interval_s \<le> timeout_s")
        case True
        have "nat (timeout_s - (waited + interval_s)) < nat (timeout_s - waited)"
          using less.prems True by simp
        from less.hyps [OF this less.prems(1) True, of "Some smp" ?w2] obtain res w' where
          "?loop (waited + interval_s) (Some smp) ?w2 = Some (res, w')"
          "case res of Inl _ \<Rightarrow> True | Inr c \<Rightarrow> waited + interval_s \<le> cu_waited_s c
             \<and> catchup_ok max_lag timeout_s interval_s c" by blast
        with eq less.prems(1) show ?thesis by (auto split: sum.splits)
      next
        case over: False
        then have "?loop (waited + interval_s) (Some smp) ?w2 =
            Some (Inr \<lparr>cu_caught_up = False, cu_waited_s = waited + interval_s,
              cu_last = Some smp\<rparr>, ?w2)"
          by (subst wait_loop.simps) simp
        with eq over False less.prems show ?thesis by (simp add: catchup_ok_def caught_up_good)
      qed
    qed
  qed
qed

lemma wait_loop_quiet:
  assumes "\<And>n r. adds P (sampler n r)" and "\<And>i. P (Slept i)"
  shows "wait_loop sampler n ref max_lag timeout_s interval_s waited prev w = Some (res, w') \<Longrightarrow>
    \<exists>es. trace w' = trace w @ es \<and> list_all P es \<and> audit w' = audit w"
proof -
  have "adds P (sampler n r) \<longrightarrow> (\<exists>es. trace (snd y) = trace w @ es \<and> list_all P es \<and> audit (snd y) = audit w)"
    if "wait_loop sampler n r max_lag timeout_s interval_s waited prev w = Some y"
    for sampler n r max_lag timeout_s interval_s waited prev w and y :: "(exn + catchup) \<times> world"
    using that
  proof (induction rule: wait_loop.raw_induct [rotated, consumes 1, case_names step])
    case (step loop sampler n ref max_lag timeout_s interval_s waited prev w y)
    show ?case
    proof
      assume q: "adds P (sampler n ref)"
      obtain r w1 where s: "sampler n ref w = (r, w1)" by fastforce
      with q obtain es where es: "trace w1 = trace w @ es" "list_all P es" "audit w1 = audit w"
        by (elim addsE)
      show "\<exists>es. trace (snd y) = trace w @ es \<and> list_all P es \<and> audit (snd y) = audit w"
      proof (cases "waited \<le> timeout_s \<and> (\<exists>smp. r = Inr smp \<and> \<not> caught_up max_lag smp)")
        case True
        then obtain smp where smp: "r = Inr smp" "\<not> caught_up max_lag smp" by blast
        with step(2) s True have "loop sampler n ref max_lag timeout_s interval_s
            (waited + interval_s) (Some smp) (snd (sleep interval_s w1)) = Some y" by simp
        from step(1) [OF this] q obtain es2 where
          "trace (snd y) = trace (snd (sleep interval_s w1)) @ es2" "list_all P es2"
          "audit (snd y) = audit (snd (sleep interval_s w1))" by blast
        with es assms(2) [of interval_s] show ?thesis by (auto simp: sleep_def emit_def)
      next
        case False
        with step(2) s es show ?thesis by (auto split: if_splits sum.splits)
      qed
    qed
  qed
  from this [of sampler n ref max_lag timeout_s interval_s waited prev w "(res, w')"] assms(1)
  show "wait_loop sampler n ref max_lag timeout_s interval_s waited prev w = Some (res, w') \<Longrightarrow>
    \<exists>es. trace w' = trace w @ es \<and> list_all P es \<and> audit w' = audit w" by simp
qed

lemma await_catchup_returns:
  "\<exists>res w'. wait_for_catchup sampler n ref max_lag timeout_s 5 w = Some (res, w')
    \<and> await_catchup sampler n ref max_lag timeout_s w = (res, w')"
proof (cases "0 \<le> timeout_s")
  case True
  from wait_loop_returns [of 5 0 timeout_s sampler n ref max_lag None w] True obtain res w' where
    "wait_loop sampler n ref max_lag timeout_s 5 0 None w = Some (res, w')" by auto
  then show ?thesis by (simp add: wait_for_catchup_def await_catchup_def)
next
  case False
  then have "\<exists>res w'. wait_loop sampler n ref max_lag timeout_s 5 0 None w = Some (res, w')"
    by (subst wait_loop.simps) simp
  then show ?thesis by (auto simp: wait_for_catchup_def await_catchup_def)
qed

lemma adds_await:
  assumes "\<And>n r. adds P (sampler n r)" and "\<And>i. P (Slept i)"
  shows "adds P (await_catchup sampler n ref max_lag timeout_s)"
proof (rule addsI)
  fix w
  from await_catchup_returns obtain res w' where
    a: "wait_for_catchup sampler n ref max_lag timeout_s 5 w = Some (res, w')"
    "await_catchup sampler n ref max_lag timeout_s w = (res, w')" by blast
  from wait_loop_quiet [OF assms a(1) [unfolded wait_for_catchup_def]] a(2)
  show "\<exists>es. trace (snd (await_catchup sampler n ref max_lag timeout_s w)) = trace w @ es \<and>
    list_all P es \<and> audit (snd (await_catchup sampler n ref max_lag timeout_s w)) = audit w" by simp
qed

section \<open>The observers of an operation\<close>

text \<open>
  What the operations rely on of the sampler and of the leader function they are given: they
  watch and may take time, but run no command and write nothing to the audit log.
\<close>

locale quiet_sampler =
  fixes sampler :: sampler
  assumes sampler_quiet: "adds is_quiet (sampler n ref)"
begin

lemma doing_sampler: "doing [] (sampler n ref)"
  by (rule adds_doing [OF sampler_quiet])

lemma doing_await: "doing [] (await_catchup sampler n ref max_lag timeout_s)"
  by (rule adds_doing, rule adds_await [OF sampler_quiet]) simp

end

locale observers = quiet_sampler +
  fixes leader_fn :: leader_fn
  assumes leader_quiet: "adds is_quiet (leader_fn n ref m)"
begin

lemma doing_leader: "doing [] (leader_fn n ref m)"
  by (rule adds_doing [OF leader_quiet])

end

lemma adds_default_sampler: "adds is_rpc_event (default_sampler E n ref)"
  unfolding default_sampler_def sample_slot_def Let_def
  by (intro frame_rules adds_rpc)

lemma adds_leader_info: "adds is_rpc_event (leader_info E n ref m)"
  unfolding leader_info_def
  by (intro frame_rules adds_leader_windows) (auto intro!: adds_ret split: if_splits)

lemma rpc_event_quiet: "is_rpc_event e \<Longrightarrow> is_quiet e"
  by (cases e) simp_all

lemma rpc_quiet: "adds is_rpc_event m \<Longrightarrow> adds is_quiet m"
  by (erule adds_mono, erule rpc_event_quiet)

interpretation live: observers "default_sampler E" "leader_info E"
  by unfold_locales (rule rpc_quiet [OF adds_default_sampler], rule rpc_quiet [OF adds_leader_info])

text \<open>
  C22. Waiting for a node always ends when the interval is positive, whatever the sampler
  answers. It says caught up only on a sample that is healthy and within the allowed lag, taken
  before the timeout; and not caught up only when the time is over and the last sample was not
  good enough. The total wait never exceeds the timeout by more than one interval.
\<close>

theorem wait_for_catchup_returns:
  assumes "0 < interval_s" and "0 \<le> timeout_s"
  shows "\<exists>res w'. wait_for_catchup sampler n ref max_lag timeout_s interval_s w = Some (res, w')
    \<and> (case res of Inl _ \<Rightarrow> True | Inr c \<Rightarrow> catchup_ok max_lag timeout_s interval_s c)"
proof -
  from wait_loop_returns [OF assms, of sampler n ref max_lag None w] obtain res w' where
    "wait_loop sampler n ref max_lag timeout_s interval_s 0 None w = Some (res, w')"
    "case res of Inl _ \<Rightarrow> True | Inr c \<Rightarrow> 0 \<le> cu_waited_s c \<and> catchup_ok max_lag timeout_s interval_s c"
    by auto
  then show ?thesis by (cases res) (simp_all add: wait_for_catchup_def)
qed

theorem wait_for_catchup_returns_witness:
  "\<exists>res w'. wait_for_catchup (\<lambda>n r. ret \<lparr>sm_healthy = Some False, sm_node_slot = JNull,
      sm_ref_slot = JNull, sm_lag = None\<rparr>) (basic_node ''n'' Rpc ''h'' None None) ''ref'' 2 10 5
      \<lparr>trace = [], audit = None\<rparr> = Some (res, w')"
  using wait_for_catchup_returns [of 5 10 "\<lambda>n r. ret \<lparr>sm_healthy = Some False, sm_node_slot = JNull,
      sm_ref_slot = JNull, sm_lag = None\<rparr>" "basic_node ''n'' Rpc ''h'' None None" "''ref''" 2
      "\<lparr>trace = [], audit = None\<rparr>"] by auto

end
