(* ===== verification/Restart.thy ===== *)
theory Restart
  imports Catchup Safety
begin

text \<open>
  \<open>restart_node\<close> of \<open>operations.py\<close>: preflight, gate, and past the gate the cycle of the service
  (a leader-aware exit for a validator, stop and start otherwise), the wait for the node to
  catch up, and the audit record. The policy is the one given or loaded.
\<close>

section \<open>Plan and checks\<close>

definition restart_plan :: "policy_rules \<Rightarrow> node \<Rightarrow> string \<Rightarrow> int \<Rightarrow> string list" where
  "restart_plan rules n reference_rpc max_lag =
     (let wait = ''wait until '' @ n_name n @ '' reports healthy and lag <= '' @ show_int max_lag
                 @ '' vs '' @ reference_rpc;
          verify = ''verify service active; record before/after slot''
      in if n_role n = Validator then
           [''agave-validator exit on '' @ n_name n @ '' (wait for a leader gap of >= ''
              @ show_int (pr_require_leader_window_minutes rules)
              @ '' min, then exit; systemd relaunches)'', wait, verify]
         else
           [''stop '' @ svc_unit (n_service n) @ '' on '' @ n_name n,
            ''start '' @ svc_unit (n_service n), wait, verify])"

definition disk_check :: "policy_rules \<Rightarrow> inspect_report \<Rightarrow> bool \<times> string" where
  "disk_check rules before =
     (disk_free_ok rules (use_pcts before),
      ''disk below policy floor min_disk_free_pct='' @ show_opt show_int (pr_min_disk_free_pct rules))"

definition restart_checks :: "policy_rules \<Rightarrow> inspect_report \<Rightarrow> (bool \<times> string) list" where
  "restart_checks rules before =
     [(sr_ok (ir_service before), ''node not reachable over SSH for preflight''),
      (sr_active (ir_service before) = Some ''active'',
       ''service not active before restart (is '' @ show_opt py_repr (sr_active (ir_service before))
         @ '')''),
      disk_check rules before]"

section \<open>The cycle of the service\<close>

datatype cycle_report =
    SafeExit step_report
  | StopStart step_report step_report

definition cycle_json :: "cycle_report \<Rightarrow> json" where
  "cycle_json c =
     (case c of
        SafeExit s \<Rightarrow> step_json s
      | StopStart stop start \<Rightarrow> JObj [(''stop'', step_json stop), (''start'', step_json start)])"

definition cycle_ok :: "cycle_report \<Rightarrow> bool" where
  "cycle_ok c = (case c of SafeExit s \<Rightarrow> sp_ok s | StopStart stop start \<Rightarrow> sp_ok stop \<and> sp_ok start)"

text \<open>The default of \<open>max_delinquent_stake\<close>\<close>

definition default_max_delinquent_stake :: int where
  "default_max_delinquent_stake = 5"

definition restart_cycle :: "env \<Rightarrow> policy_rules \<Rightarrow> node \<Rightarrow> cycle_report io" where
  "restart_cycle E rules n =
     (if n_role n = Validator then
        bind_io (validator_safe_exit E n (pr_require_leader_window_minutes rules)
                   default_max_delinquent_stake) (\<lambda>s. ret (SafeExit s))
      else
        bind_io (stop_service E n) (\<lambda>stop.
        bind_io (start_service E n) (\<lambda>start. ret (StopStart stop start))))"

section \<open>The operation\<close>

record restart_outcome =
  ro_decision :: gate_decision
  ro_before_slot :: json
  ro_cycle :: cycle_report
  ro_catchup :: catchup
  ro_after_service :: service_report
  ro_leader :: "leader_report option"

definition restart_succeeded :: "restart_outcome \<Rightarrow> bool" where
  "restart_succeeded r \<longleftrightarrow> cycle_ok (ro_cycle r) \<and> cu_caught_up (ro_catchup r)"

definition restart_json :: "restart_outcome \<Rightarrow> json" where
  "restart_json r = JObj
     [(''decision'', decision_json (ro_decision r)), (''before_slot'', ro_before_slot r),
      (''cycle'', cycle_json (ro_cycle r)), (''catchup'', catchup_json (ro_catchup r)),
      (''after_service'', service_json (ro_after_service r)),
      (''leader'', leader_opt_json (ro_leader r)), (''succeeded'', JBool (restart_succeeded r))]"

datatype restart_result =
    RestartUnknown string
  | RestartGated gate_decision inspect_report "leader_report option"
  | RestartDone restart_outcome

definition unknown_node :: "string \<Rightarrow> string" where
  "unknown_node name = ''unknown node '' @ py_repr name"

text \<open>What follows the gate when it lets the operation through, up to the record\<close>

definition restart_execute ::
  "env \<Rightarrow> sampler \<Rightarrow> policy_rules \<Rightarrow> cluster \<Rightarrow> node \<Rightarrow> int \<Rightarrow> gate_decision \<Rightarrow>
   leader_report option \<Rightarrow> restart_outcome io" where
  "restart_execute E sampler rules c n max_lag decision leader =
     bind_io (sampler n (cl_reference_rpc c)) (\<lambda>before.
     bind_io (restart_cycle E rules n) (\<lambda>cycle.
     bind_io (await_catchup sampler n (cl_reference_rpc c) max_lag catchup_timeout) (\<lambda>catch.
     bind_io (inspect_node E n) (\<lambda>after.
     ret \<lparr>ro_decision = decision, ro_before_slot = sm_node_slot before,
          ro_cycle = cycle, ro_catchup = catch, ro_after_service = ir_service after,
          ro_leader = leader\<rparr>))))"

text \<open>Return the dry run or the refusal, or go on\<close>

definition restart_decided ::
  "env \<Rightarrow> sampler \<Rightarrow> policy_rules \<Rightarrow> cluster \<Rightarrow> node \<Rightarrow> int \<Rightarrow> bool \<Rightarrow> inspect_report \<Rightarrow>
   leader_report option \<Rightarrow> gate_decision \<Rightarrow> restart_result io" where
  "restart_decided E sampler rules c n max_lag confirm before leader decision =
     (if \<not> confirm \<or> \<not> gd_allowed decision then ret (RestartGated decision before leader)
      else bind_io (restart_execute E sampler rules c n max_lag decision leader)
             (\<lambda>r. ret (RestartDone r)))"

text \<open>The audit entry of each way to return\<close>

definition restart_entry :: "string \<Rightarrow> string \<Rightarrow> restart_result \<Rightarrow> audit_entry" where
  "restart_entry cn node_name r =
     (case r of
        RestartGated d before leader \<Rightarrow>
          entry_of ''restart_node'' cn node_name (gd_mode d) (gd_allowed d) (JObj
            [(''plan'', json_strs (gd_plan d)), (''reasons'', json_strs (gd_reasons d)),
             (''preflight'', inspect_json before), (''leader'', leader_opt_json leader)])
      | RestartDone result \<Rightarrow>
          entry_of ''restart_node'' cn node_name ''execute'' True (restart_json result)
      | RestartUnknown e \<Rightarrow> entry_of [] [] [] [] False JNull)"

definition restart_node ::
  "env \<Rightarrow> policy \<Rightarrow> sampler \<Rightarrow> leader_fn \<Rightarrow> fleet \<Rightarrow> string \<Rightarrow> bool \<Rightarrow> int \<Rightarrow> restart_result io" where
  "restart_node E pol sampler leader_fn f node_name confirm max_lag =
     (case find_node f node_name of
        None \<Rightarrow> ret (RestartUnknown (unknown_node node_name))
      | Some (cn, c, n) \<Rightarrow>
          (let rules = for_cluster pol cn;
               plan = restart_plan rules n (cl_reference_rpc c) max_lag
           in bind_io (inspect_node E n) (\<lambda>before.
              bind_io (leader_fn n (cl_reference_rpc c) (pr_require_leader_window_minutes rules)) (\<lambda>leader.
              recorded (restart_entry cn node_name)
                (restart_decided E sampler rules c n max_lag confirm before leader
                   (gate ''restart_node'' cn node_name confirm plan (restart_checks rules before)))))))"

section \<open>What it runs\<close>

text \<open>The commands of the cycle, in order\<close>

definition cycle_commands :: "policy_rules \<Rightarrow> node \<Rightarrow> string list" where
  "cycle_commands rules n =
     (if n_role n = Validator then
        [safe_exit_command n (pr_require_leader_window_minutes rules) default_max_delinquent_stake]
      else [systemctl n ''stop'', systemctl n ''start''])"

lemma emits_restart_cycle: "emits (map (on_host n) (cycle_commands rules n)) (restart_cycle E rules n)"
proof (cases "n_role n = Validator")
  case True
  then show ?thesis
    by (simp add: restart_cycle_def cycle_commands_def emits_bind_ret emits_safe_exit)
next
  case False
  have "emits ([on_host n (systemctl n ''stop'')] @ [on_host n (systemctl n ''start'')])
      (restart_cycle E rules n)"
    by (simp only: restart_cycle_def False if_False, rule emits_bind [OF emits_stop],
        rule emits_bind_ret [OF emits_start])
  with False show ?thesis by (simp add: cycle_commands_def)
qed

lemma doing_restart_cycle: "doing (host_argvs n (cycle_commands rules n)) (restart_cycle E rules n)"
  using emits_doing [OF emits_restart_cycle] by (simp add: commands_on_host)

text \<open>When the gate lets a restart through\<close>

definition restart_goes :: "policy_rules \<Rightarrow> bool \<Rightarrow> inspect_report \<Rightarrow> bool" where
  "restart_goes rules confirm before \<longleftrightarrow>
     confirm \<and> sr_ok (ir_service before) \<and> sr_active (ir_service before) = Some ''active'' \<and>
     disk_free_ok rules (use_pcts before)"

lemma restart_gate:
  "(confirm \<and> gd_allowed (gate op cn nm confirm plan (restart_checks rules before))) =
   restart_goes rules confirm before"
  by (auto simp: gate_allowed restart_checks_def disk_check_def restart_goes_def)

context observers begin

lemma doing_restart_execute:
  "doing (host_argvs n (cycle_commands rules n @ inspect_commands n))
     (restart_execute E sampler rules c n max_lag decision leader)"
proof -
  have "doing ([] @ host_argvs n (cycle_commands rules n) @ [] @ host_argvs n (inspect_commands n))
      (restart_execute E sampler rules c n max_lag decision leader)"
    unfolding restart_execute_def
    by (intro doing_bind doing_sampler doing_restart_cycle doing_await doing_bind_ret doing_inspect)
  then show ?thesis by (simp add: host_argvs_def)
qed

lemma doing_restart_decided:
  assumes "confirm \<and> gd_allowed d \<longleftrightarrow> goes"
  shows "doing (host_argvs n (if goes then cycle_commands rules n @ inspect_commands n else []))
     (restart_decided E sampler rules c n max_lag confirm before leader d)"
proof (cases goes)
  case True
  with assms have "\<not> (\<not> confirm \<or> \<not> gd_allowed d)" by blast
  with True show ?thesis
    unfolding restart_decided_def by (simp only: if_True if_False) (rule doing_bind_ret [OF doing_restart_execute])
next
  case False
  with assms have "\<not> confirm \<or> \<not> gd_allowed d" by blast
  with False show ?thesis
    unfolding restart_decided_def by (simp only: if_True if_False) (simp add: doing_ret host_argvs_def)
qed

lemma restart_node_outcome:
  assumes n: "find_node f name = Some (cn, c, n)"
    and run: "restart_node E pol sampler leader_fn f name confirm max_lag w = (res, w')"
  defines "rules \<equiv> for_cluster pol cn"
  defines "decide \<equiv> \<lambda>before. gate ''restart_node'' cn name confirm
     (restart_plan rules n (cl_reference_rpc c) max_lag) (restart_checks rules before)"
  obtains before w1 where "inspect_node E n w = (Inr before, w1)"
    "outcome (host_argvs n (inspect_commands n @ (if restart_goes rules confirm before
         then cycle_commands rules n @ inspect_commands n else [])))
       (restart_entry cn name) w res w'"
    "\<And>r. res = Inr r \<Longrightarrow> (if restart_goes rules confirm before
       then \<exists>out. r = RestartDone out else \<exists>leader. r = RestartGated (decide before) before leader)"
proof -
  define rest where "rest before = (if restart_goes rules confirm before
      then cycle_commands rules n @ inspect_commands n else [])" for before
  let ?act = "\<lambda>before leader.
      restart_decided E sampler rules c n max_lag confirm before leader (decide before)"
  have goes: "confirm \<and> gd_allowed (decide before) \<longleftrightarrow> restart_goes rules confirm before" for before
    unfolding decide_def by (rule restart_gate)
  obtain before w1 where i: "inspect_node E n w = (Inr before, w1)"
    "trace w1 = trace w @ inspect_events n" "audit w1 = audit w"
    using emits_runE [OF emits_inspect_node] by blast
  have k: "bind_io (leader_fn n (cl_reference_rpc c) (pr_require_leader_window_minutes rules))
      (\<lambda>leader. recorded (restart_entry cn name) (?act before leader)) w1 = (res, w')"
    using run unfolding restart_node_def n option.case prod.case Let_def rules_def decide_def
    by (simp only: bind_io_run i(1))
  have act: "doing (host_argvs n (rest before)) (?act before leader)" for leader
    unfolding rest_def by (rule doing_restart_decided [OF goes])
  have t: "commands (inspect_events n) = host_argvs n (inspect_commands n)"
    by (simp add: inspect_events_def commands_on_host)
  have o: "outcome (host_argvs n (rest before)) (restart_entry cn name) w1 res w' \<and>
    (\<forall>r. res = Inr r \<longrightarrow> (if restart_goes rules confirm before
       then \<exists>out. r = RestartDone out else \<exists>leader. r = RestartGated (decide before) before leader))"
  proof (cases rule: doing_bindE [OF doing_leader k])
    case (1 e es)
    then show ?thesis
      using outcome_raised [of w' w1 es "[]" "host_argvs n (rest before)"] by simp
  next
    case (2 leader w2 es)
    note out = outcome_after [OF 2(3,4) recorded_outcome [OF act 2(2)]]
    have "if restart_goes rules confirm before
       then \<exists>out. r = RestartDone out else \<exists>leader. r = RestartGated (decide before) before leader"
      if "res = Inr r" for r
    proof -
      from recorded_returns [OF 2(2) [unfolded that]] obtain w3 where
        "?act before leader w2 = (Inr r, w3)" by blast
      then show ?thesis unfolding goes [symmetric] restart_decided_def
        by (auto simp: ret_run elim!: bind_io_Inr split: if_splits)
    qed
    with out 2(5) show ?thesis by simp
  qed
  have "host_argvs n (inspect_commands n @ rest before) =
      commands (inspect_events n) @ host_argvs n (rest before)"
    by (simp add: t host_argvs_def)
  with outcome_after [OF i(2,3) conjunct1 [OF o]] have
    "outcome (host_argvs n (inspect_commands n @ rest before)) (restart_entry cn name) w res w'" by simp
  from that [OF i(1) this [unfolded rest_def]] conjunct2 [OF o] show thesis by blast
qed

end

section \<open>Properties\<close>

text \<open>
  C23. What a restart runs on the node, whatever the hosts and the RPCs answer: the inspection,
  and after it, only when it is confirmed and the inspection found the node reachable, the
  service active and the disks within the policy, the cycle of the node's role followed by a
  second inspection. Nothing else is ever run, and a run that raises ran a first part of it.
\<close>

theorem restart_runs_exactly:
  assumes "observers sampler leader_fn" and "find_node f name = Some (cn, c, n)"
    and "restart_node E pol sampler leader_fn f name confirm max_lag w = (res, w')"
  shows "\<exists>before es. fst (inspect_node E n w) = Inr before \<and> trace w' = trace w @ es \<and>
    prefix (commands es) (host_argvs n (inspect_commands n
      @ (if restart_goes (for_cluster pol cn) confirm before
         then cycle_commands (for_cluster pol cn) n @ inspect_commands n else []))) \<and>
    (isl res \<or> commands es = host_argvs n (inspect_commands n
      @ (if restart_goes (for_cluster pol cn) confirm before
         then cycle_commands (for_cluster pol cn) n @ inspect_commands n else [])))"
proof -
  from observers.restart_node_outcome [OF assms] obtain before w1 where
    i: "inspect_node E n w = (Inr before, w1)" and
    o: "outcome (host_argvs n (inspect_commands n
      @ (if restart_goes (for_cluster pol cn) confirm before
         then cycle_commands (for_cluster pol cn) n @ inspect_commands n else [])))
      (restart_entry cn name) w res w'" by blast
  from o obtain es where "trace w' = trace w @ es" "prefix (commands es) (host_argvs n
      (inspect_commands n @ (if restart_goes (for_cluster pol cn) confirm before
         then cycle_commands (for_cluster pol cn) n @ inspect_commands n else [])))"
    "isl res \<or> commands es = host_argvs n (inspect_commands n
      @ (if restart_goes (for_cluster pol cn) confirm before
         then cycle_commands (for_cluster pol cn) n @ inspect_commands n else []))"
    by (cases res) (auto simp: outcome_def simp del: commands_simps)
  with i show ?thesis by (metis fst_conv)
qed

definition idle_env :: env where
  "idle_env = \<lparr>env_run = \<lambda>_ _. \<lparr>exit_code = 0, stdout = ''ActiveState=active'', stderr = []\<rparr>,
     env_rpc = \<lambda>t _ _ _. if length t < 8 then Body (JObj [(''result'', JInt 5)]) else NotJson,
     env_tmp = \<lambda>_. ''/tmp/solfleet-1'', env_str = \<lambda>_. []\<rparr>"

definition one_node_fleet :: fleet where
  "one_node_fleet =
     \<lparr>fl_clusters = [(''mainnet'', \<lparr>cl_reference_rpc = ''ref'', cl_install = None, cl_network = None,
        cl_nodes = [basic_node ''rpc1'' Rpc ''10.0.0.1'' (Some ''u1'') None]\<rparr>)],
      fl_builders = [], fl_dns = None\<rparr>"

definition rpc1 :: node where
  "rpc1 = basic_node ''rpc1'' Rpc ''10.0.0.1'' (Some ''u1'') None"

definition mainnet :: cluster where
  "mainnet = \<lparr>cl_reference_rpc = ''ref'', cl_install = None, cl_network = None, cl_nodes = [rpc1]\<rparr>"

lemma one_node_find: "find_node one_node_fleet ''rpc1'' = Some (''mainnet'', mainnet, rpc1)"
  by (simp add: find_node_def one_node_fleet_def mainnet_def rpc1_def basic_node_def)

definition fresh_world :: world where
  "fresh_world = \<lparr>trace = [], audit = Some (audit_init (\<lambda>_. ''t''))\<rparr>"

theorem restart_runs_exactly_witness:
  "\<exists>es. trace (snd (restart_node idle_env default_policy (default_sampler idle_env)
       (leader_info idle_env) one_node_fleet ''rpc1'' False 2 fresh_world)) = es
     \<and> prefix (commands es) (host_argvs rpc1 (inspect_commands rpc1))"
proof -
  obtain res w' where r: "restart_node idle_env default_policy (default_sampler idle_env)
      (leader_info idle_env) one_node_fleet ''rpc1'' False 2 fresh_world = (res, w')" by fastforce
  from restart_runs_exactly [OF live.observers_axioms one_node_find r] r show ?thesis
    by (auto simp: restart_goes_def fresh_world_def)
qed

text \<open>
  A restart that returns has appended exactly one entry to the audit log, with the mode
  and the verdict of its decision: the plan, the reasons and the preflight of a dry run or a
  refusal, the whole result of an execution. One that raises has recorded nothing.
\<close>

theorem restart_audited:
  assumes "observers sampler leader_fn" and "find_node f name = Some (cn, c, n)"
    and "audit w = Some al"
    and "restart_node E pol sampler leader_fn f name confirm max_lag w = (res, w')"
  shows "logged w' = logged w @ (case res of Inl _ \<Rightarrow> [] | Inr r \<Rightarrow> [restart_entry cn name r])"
proof -
  from observers.restart_node_outcome [OF assms(1,2,4)] obtain cs where
    o: "outcome cs (restart_entry cn name) w res w'" by metis
  show ?thesis
  proof (cases res)
    case (Inl e)
    with o assms(3) show ?thesis by (auto simp: outcome_def logged_def)
  next
    case (Inr r)
    with outcome_logged [OF o [unfolded Inr] assms(3)] show ?thesis by simp
  qed
qed

theorem restart_audited_witness:
  "length (logged (snd (restart_node idle_env default_policy (default_sampler idle_env)
     (leader_info idle_env) one_node_fleet ''rpc1'' False 2 fresh_world))) \<le> 1"
proof -
  obtain res w' where r: "restart_node idle_env default_policy (default_sampler idle_env)
      (leader_info idle_env) one_node_fleet ''rpc1'' False 2 fresh_world = (res, w')" by fastforce
  have a: "audit fresh_world = Some (audit_init (\<lambda>_. ''t''))" by (simp add: fresh_world_def)
  from restart_audited [OF live.observers_axioms one_node_find a r] r show ?thesis
    by (auto simp: logged_def fresh_world_def audit_entries_def audit_init_def split: sum.splits)
qed

text \<open>
  The world after the preflight of \<open>rpc1\<close>, and after the cycle of its service, in the
  environment \<open>idle_env\<close>, whose RPCs stop answering JSON once the service was cycled
\<close>

lemma idle_run:
  "run idle_env t c w = (Inr \<lparr>exit_code = 0, stdout = ''ActiveState=active'', stderr = []\<rparr>,
     w\<lparr>trace := trace w @ [on_host t c]\<rparr>)"
  by (simp add: run_def run_argv_def emit_def idle_env_def on_host_def)

lemma idle_rpc:
  "rpc_call idle_env url m ps w =
     ((if length (trace w) < 8 then Inr (JInt 5) else Inl JsonDecodeError),
      w\<lparr>trace := trace w @ [RpcCalled url m ps]\<rparr>)"
  by (simp add: rpc_call_def idle_env_def rpc_result_def)

lemma idle_inspect:
  "\<exists>r. inspect_node idle_env rpc1 w = (Inr r, w\<lparr>trace := trace w @ inspect_events rpc1\<rparr>)
     \<and> sr_ok (ir_service r) \<and> sr_active (ir_service r) = Some ''active''"
  by (simp add: inspect_node_def service_state_def installed_version_def disk_usage_def
      bind_io_def idle_run ret_def Let_def rpc1_def basic_node_def default_service_def
      inspect_events_def inspect_commands_def parse_kv_def splitlines_def is_line_end_def
      partition_char_def dict_of_pairs_def cr_ok_def disk_paths_def)

lemma idle_sample:
  "length (trace w) < 6 \<Longrightarrow> \<exists>s. default_sampler idle_env rpc1 ''ref'' w =
     (Inr s, w\<lparr>trace := trace w @ [RpcCalled ''ref'' ''getSlot'' [], RpcCalled ''u1'' ''getHealth'' [],
        RpcCalled ''u1'' ''getSlot'' []]\<rparr>)"
  "8 \<le> length (trace w) \<Longrightarrow> default_sampler idle_env rpc1 ''ref'' w =
     (Inl JsonDecodeError, w\<lparr>trace := trace w @ [RpcCalled ''ref'' ''getSlot'' []]\<rparr>)"
  by (simp_all add: default_sampler_def sample_slot_def attempt_def bind_io_def idle_rpc ret_def
      Let_def rpc1_def basic_node_def lift_def lag_of_def as_int_def)

lemma idle_await:
  "8 \<le> length (trace w) \<Longrightarrow> await_catchup (default_sampler idle_env) rpc1 ''ref'' 2 catchup_timeout w =
     (Inl JsonDecodeError, w\<lparr>trace := trace w @ [RpcCalled ''ref'' ''getSlot'' []]\<rparr>)"
  unfolding await_catchup_def wait_for_catchup_def
  by (subst wait_loop.simps) (simp add: idle_sample catchup_timeout_def)

text \<open>
  An execution can change a node and leave no record: the errors the sampler lets through
  (a reply that is no JSON, for one) end the operation after the service was stopped and
  started, before the audit record is written.
\<close>

theorem failed_sample_unaudited:
  "\<exists>w'. restart_node idle_env default_policy (default_sampler idle_env) (leader_info idle_env)
      one_node_fleet ''rpc1'' True 2 fresh_world = (Inl JsonDecodeError, w')
    \<and> on_host rpc1 (systemctl rpc1 ''stop'') \<in> set (trace w') \<and> logged w' = []"
proof -
  obtain before where b: "inspect_node idle_env rpc1 fresh_world =
      (Inr before, fresh_world\<lparr>trace := trace fresh_world @ inspect_events rpc1\<rparr>)"
    "sr_ok (ir_service before)" "sr_active (ir_service before) = Some ''active''"
    using idle_inspect [of fresh_world] by blast
  let ?w1 = "fresh_world\<lparr>trace := trace fresh_world @ inspect_events rpc1\<rparr>"
  have len: "length (trace ?w1) = 3"
    by (simp add: fresh_world_def inspect_events_def inspect_commands_def rpc1_def basic_node_def
        default_service_def)
  then obtain s where s: "default_sampler idle_env rpc1 ''ref'' ?w1 =
     (Inr s, ?w1\<lparr>trace := trace ?w1 @ [RpcCalled ''ref'' ''getSlot'' [],
        RpcCalled ''u1'' ''getHealth'' [], RpcCalled ''u1'' ''getSlot'' []]\<rparr>)"
    using idle_sample(1) [of ?w1] by auto
  have role: "n_role rpc1 = Rpc" by (simp add: rpc1_def basic_node_def)
  have ref: "cl_reference_rpc mainnet = ''ref''" by (simp add: mainnet_def)
  have leader: "leader_info idle_env rpc1 u m = ret None" for u m
    by (simp add: leader_info_def role)
  have "restart_goes default_rules True before"
    using b by (simp add: restart_goes_def disk_free_ok_def default_rules_def)
  then have go: "\<not> (\<not> True \<or> \<not> gd_allowed (gate ''restart_node'' cn nm True plan
      (restart_checks default_rules before)))" for cn nm plan
    using restart_gate by metis
  have rules: "for_cluster default_policy ''mainnet'' = default_rules"
    by (simp add: for_cluster_def default_policy_def)
  have a: "audit fresh_world = Some (audit_init (\<lambda>_. ''t''))" by (simp add: fresh_world_def)
  show ?thesis
    using len a
    by (simp add: restart_node_def one_node_find rules Let_def ref leader b(1)
        recorded_def restart_decided_def go [simplified] restart_execute_def bind_io_def s
        restart_cycle_def role stop_service_def start_service_def idle_run ret_def
        idle_await logged_def audit_entries_def audit_init_def)
qed

end
