(* ===== verification/Builder.thy ===== *)
theory Builder
  imports Executor Safety
begin

text \<open>
  The builder of \<open>builder.py\<close>: the commands that build a version, the artifact cache keyed by
  the version, and the bootstrap of a bare build host. A build host is an SSH target.
\<close>

section \<open>Names and commands\<close>

definition agave_bins :: "string list" where
  "agave_bins = [''agave-validator'', ''agave-ledger-tool'', ''solana'']"

definition geyser_lib_name :: string where
  "geyser_lib_name = ''libyellowstone_grpc_geyser.so''"

definition build_apt_packages :: "string list" where
  "build_apt_packages =
     [''build-essential'', ''pkg-config'', ''libssl-dev'', ''libudev-dev'',
      ''protobuf-compiler'', ''libclang-dev'', ''clang'', ''cmake'', ''jq'', ''git'', ''curl'']"

record artifact =
  ar_name :: string
  ar_remote_path :: string
  ar_sha256 :: "string option"

record build_result =
  br_version :: string
  br_source :: string
  br_out_dir :: string
  br_artifacts :: "artifact list"
  br_cached :: bool
  br_ok :: bool
  br_error :: "string option"
  br_log_tail :: string

definition artifact_json :: "artifact \<Rightarrow> json" where
  "artifact_json a = JObj
     [(''name'', JStr (ar_name a)), (''remote_path'', JStr (ar_remote_path a)),
      (''sha256'', str_json (ar_sha256 a))]"

text \<open>\<open>BuildResult.to_dict\<close>\<close>

definition build_json :: "build_result \<Rightarrow> json" where
  "build_json b = JObj
     [(''version'', JStr (br_version b)), (''source'', JStr (br_source b)),
      (''out_dir'', JStr (br_out_dir b)), (''artifacts'', JList (map artifact_json (br_artifacts b))),
      (''cached'', JBool (br_cached b)), (''ok'', JBool (br_ok b)),
      (''error'', str_json (br_error b)), (''log_tail'', JStr (br_log_tail b))]"

definition tag :: "string \<Rightarrow> string" where
  "tag version = (if startswith version ''v'' then version else ''v'' @ version)"

definition artifact_names :: "install_config \<Rightarrow> string list" where
  "artifact_names i = agave_bins @ (if truthy (in_geyser_repo i) then [geyser_lib_name] else [])"

definition out_dir :: "install_config \<Rightarrow> string \<Rightarrow> string" where
  "out_dir i version = rstrip_char CHR ''/'' (in_artifact_cache i) @ ''/'' @ version"

definition geyser_commands :: "install_config \<Rightarrow> string \<Rightarrow> string \<Rightarrow> string list" where
  "geyser_commands i cache out =
     (let src = cache @ ''/src/geyser'' in
      [''test -d '' @ src @ ''/.git || git clone '' @ the (in_geyser_repo i) @ '' '' @ src,
       ''git -C '' @ src @ '' fetch --tags origin'']
      @ (if truthy (in_geyser_ref i)
         then [''git -C '' @ src @ '' checkout '' @ the (in_geyser_ref i)] else [])
      @ [''cd '' @ src @ '' && cargo build --release'',
         ''cp '' @ src @ ''/target/release/'' @ geyser_lib_name @ '' '' @ out @ ''/''
           @ geyser_lib_name])"

definition build_commands :: "install_config \<Rightarrow> string \<Rightarrow> string list \<times> string" where
  "build_commands i version =
     (let cache = rstrip_char CHR ''/'' (in_artifact_cache i);
          out = out_dir i version;
          src = cache @ ''/src/agave''
      in ([''mkdir -p '' @ out @ '' '' @ cache @ ''/src'',
           ''test -d '' @ src @ ''/.git || git clone '' @ in_agave_repo i @ '' '' @ src,
           ''git -C '' @ src @ '' fetch --tags origin'',
           ''git -C '' @ src @ '' checkout '' @ tag version,
           ''cd '' @ src @ '' && ./scripts/cargo-install-all.sh '' @ out @ ''/install'']
          @ map (\<lambda>b. ''cp '' @ out @ ''/install/bin/'' @ b @ '' '' @ out @ ''/'' @ b) agave_bins
          @ (if truthy (in_geyser_repo i) then geyser_commands i cache out else []), out))"

section \<open>Building\<close>

text \<open>\<open>_sha256\<close> is the code of \<open>remote_sha256\<close> again.\<close>

definition collect :: "env \<Rightarrow> builder_host \<Rightarrow> string \<Rightarrow> string list \<Rightarrow> artifact list io" where
  "collect E b out names =
     for_each (\<lambda>name.
       bind_io (remote_sha256 E b (out @ ''/'' @ name)) (\<lambda>sha.
       ret \<lparr>ar_name = name, ar_remote_path = out @ ''/'' @ name, ar_sha256 = sha\<rparr>)) names"

definition cache_test :: "string \<Rightarrow> string list \<Rightarrow> string" where
  "cache_test out names = join '' && '' (map (\<lambda>n. ''test -f '' @ out @ ''/'' @ n) names)"

definition is_cached :: "env \<Rightarrow> builder_host \<Rightarrow> string \<Rightarrow> string list \<Rightarrow> bool io" where
  "is_cached E b out names = bind_io (run E b (cache_test out names)) (\<lambda>r. ret (cr_ok r))"

definition log_entry :: "string \<Rightarrow> command_result \<Rightarrow> string" where
  "log_entry cmd r = strip (''$ '' @ cmd @ newline @ stdout r @ stderr r)"

text \<open>\<open>"\n".join(log[-4:])\<close>\<close>

definition log_tail :: "string list \<Rightarrow> string" where
  "log_tail entries = join newline (drop (length entries - 4) entries)"

text \<open>The loop over the steps: the error of the first step that fails, and the log\<close>

fun run_steps ::
  "env \<Rightarrow> builder_host \<Rightarrow> string list \<Rightarrow> string list \<Rightarrow> (string option \<times> string list) io" where
  "run_steps E b [] entries = ret (None, entries)"
| "run_steps E b (cmd # cmds) entries =
     bind_io (run E b cmd) (\<lambda>r.
       if cr_ok r then run_steps E b cmds (entries @ [log_entry cmd r])
       else ret (Some (''build step failed: '' @ cmd @ '': ''
                   @ or_else (strip (stderr r)) (show_int (exit_code r))),
                 entries @ [log_entry cmd r]))"

definition build_fresh :: "env \<Rightarrow> builder_host \<Rightarrow> install_config \<Rightarrow> string \<Rightarrow> build_result io" where
  "build_fresh E b i version =
     (let (cmds, out) = build_commands i version in
      bind_io (run_steps E b cmds []) (\<lambda>(err, entries).
        case err of
          Some e \<Rightarrow> ret \<lparr>br_version = version, br_source = source_name (in_source i),
            br_out_dir = out, br_artifacts = [], br_cached = False, br_ok = False,
            br_error = Some e, br_log_tail = log_tail entries\<rparr>
        | None \<Rightarrow>
            bind_io (collect E b out (artifact_names i)) (\<lambda>arts.
            ret \<lparr>br_version = version, br_source = source_name (in_source i), br_out_dir = out,
              br_artifacts = arts, br_cached = False, br_ok = True, br_error = None,
              br_log_tail = log_tail entries\<rparr>)))"

definition build_artifacts ::
  "env \<Rightarrow> builder_host \<Rightarrow> install_config \<Rightarrow> string \<Rightarrow> bool \<Rightarrow> build_result io" where
  "build_artifacts E b i version force =
     (let names = artifact_names i; out = snd (build_commands i version) in
      bind_io (if force then ret False else is_cached E b out names) (\<lambda>cached.
        if cached then
          bind_io (collect E b out names) (\<lambda>arts.
          ret \<lparr>br_version = version, br_source = source_name (in_source i), br_out_dir = out,
            br_artifacts = arts, br_cached = True, br_ok = True, br_error = None,
            br_log_tail = []\<rparr>)
        else build_fresh E b i version))"

section \<open>Bootstrapping a build host\<close>

definition bootstrap_commands :: "string list" where
  \<open>bootstrap_commands =
     [''DEBIAN_FRONTEND=noninteractive apt-get update -qq'',
      ''DEBIAN_FRONTEND=noninteractive apt-get install -y -qq '' @ join '' '' build_apt_packages,
      ''command -v rustup >/dev/null 2>&1 || curl --proto '' @ [CHR 0x27] @ ''=https'' @ [CHR 0x27]
        @ '' --tlsv1.2 -sSf https://sh.rustup.rs | sh -s -- -y --profile minimal'',
      ''ln -sf "$HOME/.cargo/bin/cargo" /usr/local/bin/cargo'',
      ''ln -sf "$HOME/.cargo/bin/rustc" /usr/local/bin/rustc'',
      ''ln -sf "$HOME/.cargo/bin/rustup" /usr/local/bin/rustup'',
      ''for c in /usr/lib/llvm-*/lib/libclang.so /usr/lib/*/libclang-[0-9]*.so; do ''
        @ ''[ -e "$c" ] && ln -sf "$c" /usr/lib/x86_64-linux-gnu/libclang.so && break; done || true'',
      ''ldconfig'']\<close>

definition bootstrap_plan :: "string list" where
  "bootstrap_plan =
     [''apt install: '' @ join '', '' build_apt_packages,
      ''install rustup (Rust toolchain) if missing'',
      ''symlink cargo/rustc/rustup into /usr/local/bin (non-interactive PATH)'',
      ''expose libclang.so for clang-sys; ldconfig'']"

definition bootstrap_script :: string where
  "bootstrap_script = ''set -e'' @ newline @ join newline bootstrap_commands @ newline
     @ ''echo BOOTSTRAP_OK'' @ newline @ ''cargo --version; rustc --version; protoc --version''"

record bootstrap_outcome =
  bo_decision :: gate_decision
  bo_ok :: bool
  bo_versions :: "string list"
  bo_error :: "string option"

datatype bootstrap_result =
    BootstrapUnknown string
  | BootstrapGated gate_decision
  | BootstrapDone bootstrap_outcome

definition bootstrap_json :: "bootstrap_outcome \<Rightarrow> json" where
  "bootstrap_json b = JObj
     [(''decision'', decision_json (bo_decision b)), (''ok'', JBool (bo_ok b)),
      (''versions'', json_strs (bo_versions b)), (''error'', str_json (bo_error b))]"

definition bootstrap_outcome_of :: "gate_decision \<Rightarrow> command_result \<Rightarrow> bootstrap_outcome" where
  "bootstrap_outcome_of decision r =
     (let success = cr_ok r \<and> contains ''BOOTSTRAP_OK'' (stdout r);
          err = strip (stderr r)
      in \<lparr>bo_decision = decision, bo_ok = success,
          bo_versions = filter (\<lambda>ln. list_ex (\<lambda>t. contains t ln) [''cargo '', ''rustc '', ''libprotoc''])
            (splitlines (stdout r)),
          bo_error = (if success then None
            else Some (or_else (drop (length err - 500) err) (''exit '' @ show_int (exit_code r))))\<rparr>)"

definition bootstrap_entry :: "string \<Rightarrow> bootstrap_result \<Rightarrow> audit_entry" where
  "bootstrap_entry builder_name r =
     (case r of
        BootstrapGated d \<Rightarrow>
          entry_of ''bootstrap_builder'' ''builders'' builder_name (gd_mode d) (gd_allowed d) (JObj
            [(''plan'', json_strs (gd_plan d)), (''packages'', json_strs build_apt_packages),
             (''reasons'', json_strs (gd_reasons d))])
      | BootstrapDone out \<Rightarrow>
          entry_of ''bootstrap_builder'' ''builders'' builder_name ''execute'' True (bootstrap_json out)
      | BootstrapUnknown e \<Rightarrow> entry_of [] [] [] [] False JNull)"

definition bootstrap_decided :: "env \<Rightarrow> builder_host \<Rightarrow> bool \<Rightarrow> gate_decision \<Rightarrow> bootstrap_result io" where
  "bootstrap_decided E b confirm decision =
     (if \<not> confirm \<or> \<not> gd_allowed decision then ret (BootstrapGated decision)
      else bind_io (run E b bootstrap_script) (\<lambda>r.
             ret (BootstrapDone (bootstrap_outcome_of decision r))))"

definition bootstrap_builder :: "env \<Rightarrow> fleet \<Rightarrow> string \<Rightarrow> bool \<Rightarrow> bootstrap_result io" where
  "bootstrap_builder E f builder_name confirm =
     (case find_builder f (Some builder_name) of
        None \<Rightarrow> ret (BootstrapUnknown (''unknown builder '' @ py_repr builder_name @ ''; known: ''
                   @ repr_list (sort (dict_keys (fl_builders f)))))
      | Some b \<Rightarrow>
          bind_io (run E b ''true'') (\<lambda>r.
          recorded (bootstrap_entry builder_name)
            (bootstrap_decided E b confirm
              (gate ''bootstrap_builder'' ''builders'' builder_name confirm bootstrap_plan
                 [(cr_ok r, ''builder not reachable over SSH'')]))))"

section \<open>What a build runs\<close>

definition sha_commands :: "string \<Rightarrow> string list \<Rightarrow> string list" where
  "sha_commands out names = map (\<lambda>name. ''sha256sum '' @ out @ ''/'' @ name) names"

lemma collect_run:
  obtains arts w' where "collect E b out names w = (Inr arts, w')"
    "trace w' = trace w @ map (on_host b) (sha_commands out names)" "audit w' = audit w"
    "map ar_name arts = names"
proof -
  have "\<exists>arts w'. collect E b out names w = (Inr arts, w') \<and>
      trace w' = trace w @ map (on_host b) (sha_commands out names) \<and> audit w' = audit w \<and>
      map ar_name arts = names"
  proof (induction names arbitrary: w)
    case Nil
    show ?case by (simp add: collect_def ret_def sha_commands_def)
  next
    case (Cons name names)
    obtain sha w1 where s: "remote_sha256 E b (out @ ''/'' @ name) w = (Inr sha, w1)"
      "trace w1 = trace w @ [on_host b (''sha256sum '' @ out @ ''/'' @ name)]" "audit w1 = audit w"
      using emits_runE [OF emits_remote_sha256, of E b "out @ ''/'' @ name" w] by blast
    from Cons.IH [of w1] obtain arts w2 where "collect E b out names w1 = (Inr arts, w2)"
      "trace w2 = trace w1 @ map (on_host b) (sha_commands out names)" "audit w2 = audit w1"
      "map ar_name arts = names" by blast
    with s show ?case by (simp add: collect_def bind_io_def ret_def sha_commands_def)
  qed
  with that show thesis by blast
qed

lemma run_steps_run:
  obtains err entries k w' where "run_steps E b cmds entries0 w = (Inr (err, entries), w')"
    "trace w' = trace w @ map (on_host b) (take k cmds)" "audit w' = audit w" "k \<le> length cmds"
    "err = None \<longrightarrow> k = length cmds" "err \<noteq> None \<longrightarrow> 0 < k"
proof -
  have "\<exists>err entries k w'. run_steps E b cmds entries0 w = (Inr (err, entries), w') \<and>
    trace w' = trace w @ map (on_host b) (take k cmds) \<and> audit w' = audit w \<and> k \<le> length cmds \<and>
    (err = None \<longrightarrow> k = length cmds) \<and> (err \<noteq> None \<longrightarrow> 0 < k)"
  proof (induction cmds arbitrary: entries0 w)
    case Nil
    show ?case by (simp add: ret_def)
  next
    case (Cons c cs)
    obtain r w1 where s: "run E b c w = (Inr r, w1)"
      "trace w1 = trace w @ [on_host b c]" "audit w1 = audit w"
      using emits_runE [OF emits_run, of E b c w] by blast
    show ?case
    proof (cases "cr_ok r")
      case True
      from Cons.IH [of "entries0 @ [log_entry c r]" w1] obtain err entries k w2 where
        "run_steps E b cs (entries0 @ [log_entry c r]) w1 = (Inr (err, entries), w2)"
        "trace w2 = trace w1 @ map (on_host b) (take k cs)" "audit w2 = audit w1" "k \<le> length cs"
        "err = None \<longrightarrow> k = length cs" "err \<noteq> None \<longrightarrow> 0 < k" by blast
      with s True show ?thesis
        by (intro exI [of _ err] exI [of _ entries] exI [of _ "Suc k"] exI [of _ w2])
          (simp add: bind_io_def)
    next
      case False
      with s show ?thesis
        by (intro exI [of _ "Some _"] exI [of _ "entries0 @ [log_entry c r]"] exI [of _ 1]
            exI [of _ w1]) (simp add: bind_io_def ret_def)
    qed
  qed
  with that show thesis by blast
qed

text \<open>The commands of a build: the cache test, the first \<open>k\<close> steps, the checksums\<close>

definition build_trace ::
  "install_config \<Rightarrow> string \<Rightarrow> bool \<Rightarrow> bool \<Rightarrow> nat \<Rightarrow> bool \<Rightarrow> string list" where
  "build_trace i version force cached k success =
     (let (cmds, out) = build_commands i version; names = artifact_names i in
      (if force then [] else [cache_test out names])
      @ (if cached then [] else take k cmds)
      @ (if success then sha_commands out names else []))"

definition build_faithful :: "install_config \<Rightarrow> string \<Rightarrow> bool \<Rightarrow> nat \<Rightarrow> build_result \<Rightarrow> bool" where
  "build_faithful i version force k r \<longleftrightarrow>
     (if br_ok r then map ar_name (br_artifacts r) = artifact_names i
        \<and> (if br_cached r then \<not> force else k = length (fst (build_commands i version)))
      else br_artifacts r = [] \<and> \<not> br_cached r \<and> 0 < k
        \<and> k \<le> length (fst (build_commands i version)))"

lemma build_artifacts_run:
  obtains r k w' where "build_artifacts E b i version force w = (Inr r, w')"
    "trace w' = trace w @ map (on_host b) (build_trace i version force (br_cached r) k (br_ok r))"
    "audit w' = audit w" "build_faithful i version force k r"
proof -
  obtain cmds out where co: "build_commands i version = (cmds, out)" by fastforce
  let ?names = "artifact_names i"
  let ?test = "if force then ret False else is_cached E b out ?names"
  have "emits (if force then [] else [on_host b (cache_test out ?names)]) ?test"
    by (simp add: emits_ret is_cached_def emits_bind_ret emits_run)
  then obtain cached w1 where t: "?test w = (Inr cached, w1)"
    "trace w1 = trace w @ (if force then [] else [on_host b (cache_test out ?names)])"
    "audit w1 = audit w" using emits_runE by blast
  have nf: "cached \<Longrightarrow> \<not> force" using t(1) by (auto simp: ret_def)
  show thesis
  proof (cases cached)
    case True
    obtain arts w2 where c: "collect E b out ?names w1 = (Inr arts, w2)"
      "trace w2 = trace w1 @ map (on_host b) (sha_commands out ?names)" "audit w2 = audit w1"
      "map ar_name arts = ?names" by (rule collect_run)
    from True nf t c co show thesis
      by (intro that [where w' = w2 and k = 0]) (auto simp: build_artifacts_def bind_io_def ret_def build_trace_def
          build_faithful_def Let_def)
  next
    case False
    obtain err entries k w2 where s: "run_steps E b cmds [] w1 = (Inr (err, entries), w2)"
      "trace w2 = trace w1 @ map (on_host b) (take k cmds)" "audit w2 = audit w1" "k \<le> length cmds"
      "err = None \<longrightarrow> k = length cmds" "err \<noteq> None \<longrightarrow> 0 < k" by (rule run_steps_run)
    show thesis
    proof (cases err)
      case None
      obtain arts w3 where c: "collect E b out ?names w2 = (Inr arts, w3)"
        "trace w3 = trace w2 @ map (on_host b) (sha_commands out ?names)" "audit w3 = audit w2"
        "map ar_name arts = ?names" by (rule collect_run)
      from None False t s c co show thesis
        by (intro that [where w' = w3 and k = k]) (auto simp: build_artifacts_def build_fresh_def bind_io_def ret_def
            build_trace_def build_faithful_def Let_def)
    next
      case (Some e)
      from Some False t s co show thesis
        by (intro that [where w' = w2 and k = k]) (auto simp: build_artifacts_def build_fresh_def bind_io_def ret_def
            build_trace_def build_faithful_def Let_def)
    qed
  qed
qed

section \<open>Properties\<close>


lemma build_commands_out: "snd (build_commands i version) = out_dir i version"
  by (simp add: build_commands_def Let_def)

text \<open>
  The cache is keyed by the version alone. When it holds the files, the build returns them
  whatever geyser revision the operator pins, so changing the pinned revision (or the source
  repositories) ships the old library; and the commands of a build do not depend on the
  configured source at all.
\<close>

theorem cache_ignores_geyser_ref:
  assumes "cr_ok (env_run E (trace w) (ssh_argv b (cache_test (out_dir i version) (artifact_names i))))"
  shows "build_artifacts E b (i\<lparr>in_geyser_ref := ref, in_agave_repo := repo\<rparr>) version False w =
      build_artifacts E b i version False w
    \<and> build_commands (i\<lparr>in_source := src\<rparr>) version = build_commands i version"
proof
  let ?i = "i\<lparr>in_geyser_ref := ref, in_agave_repo := repo\<rparr>"
  have n: "artifact_names ?i = artifact_names i" by (simp add: artifact_names_def)
  have o: "out_dir ?i version = out_dir i version" by (simp add: out_dir_def)
  have c: "\<exists>w1. is_cached E b (out_dir i version) (artifact_names i) w = (Inr True, w1)"
    using assms by (simp add: is_cached_def run_def run_argv_def emit_def bind_io_def ret_def)
  then obtain w1 where c: "is_cached E b (out_dir i version) (artifact_names i) w = (Inr True, w1)" ..
  show "build_artifacts E b ?i version False w = build_artifacts E b i version False w"
    by (simp add: build_artifacts_def Let_def build_commands_out n o c bind_io_def)
  show "build_commands (i\<lparr>in_source := src\<rparr>) version = build_commands i version"
    by (simp add: build_commands_def Let_def out_dir_def geyser_commands_def)
qed

definition yes_env :: env where
  "yes_env = \<lparr>env_run = \<lambda>_ _. \<lparr>exit_code = 0, stdout = ''BOOTSTRAP_OK'', stderr = []\<rparr>,
     env_rpc = \<lambda>_ _ _ _. NotJson, env_tmp = \<lambda>_. ''/tmp/solfleet-1'', env_str = \<lambda>_. []\<rparr>"

theorem cache_ignores_geyser_ref_witness:
  "build_artifacts yes_env \<lparr>host = ''10.0.0.9'', ssh = default_ssh\<rparr>
     (default_install\<lparr>in_geyser_repo := Some ''g'', in_geyser_ref := Some ''v2'',
        in_agave_repo := ''r''\<rparr>) ''4.1.0'' False \<lparr>trace = [], audit = None\<rparr> =
   build_artifacts yes_env \<lparr>host = ''10.0.0.9'', ssh = default_ssh\<rparr>
     (default_install\<lparr>in_geyser_repo := Some ''g''\<rparr>) ''4.1.0'' False \<lparr>trace = [], audit = None\<rparr>"
proof -
  have "cr_ok (env_run yes_env (trace \<lparr>trace = [], audit = None\<rparr>)
      (ssh_argv \<lparr>host = ''10.0.0.9'', ssh = default_ssh\<rparr>
        (cache_test (out_dir (default_install\<lparr>in_geyser_repo := Some ''g''\<rparr>) ''4.1.0'')
          (artifact_names (default_install\<lparr>in_geyser_repo := Some ''g''\<rparr>)))))"
    by (simp add: yes_env_def cr_ok_def)
  from conjunct1 [OF cache_ignores_geyser_ref [OF this, where ref = "Some ''v2''" and repo = "''r''" and src = Jito]] show ?thesis
    by simp
qed

lemma bootstrap_logged:
  assumes "find_builder f (Some name) = Some b" and "audit w = Some al"
  shows "\<exists>r w'. bootstrap_builder E f name confirm w = (Inr r, w') \<and>
     trace w' = trace w @ map (on_host b) (''true'' #
       (if confirm \<and> cr_ok (env_run E (trace w) (ssh_argv b ''true''))
        then [bootstrap_script] else [])) \<and>
     logged w' = logged w @ [bootstrap_entry name r]"
proof -
  let ?r = "env_run E (trace w) (ssh_argv b ''true'')"
  let ?d = "gate ''bootstrap_builder'' ''builders'' name confirm bootstrap_plan
      [(cr_ok ?r, ''builder not reachable over SSH'')]"
  let ?w1 = "w\<lparr>trace := trace w @ [on_host b ''true'']\<rparr>"
  have p: "run E b ''true'' w = (Inr ?r, ?w1)"
    by (simp add: run_def run_argv_def emit_def on_host_def)
  have d: "gd_allowed ?d \<longleftrightarrow> cr_ok ?r" by (simp add: gate_allowed)
  have "emits (map (on_host b) (if confirm \<and> cr_ok ?r then [bootstrap_script] else []))
      (bootstrap_decided E b confirm ?d)"
    using d by (simp add: bootstrap_decided_def emits_ret emits_bind_ret emits_run)
  then obtain r w2 where "bootstrap_decided E b confirm ?d ?w1 = (Inr r, w2)"
    "trace w2 = trace ?w1 @ map (on_host b) (if confirm \<and> cr_ok ?r then [bootstrap_script] else [])"
    "audit w2 = audit ?w1" by (rule emits_runE)
  with assms p show ?thesis
    by (simp add: bootstrap_builder_def bind_io_def recorded_def logged_def audit_entries_put)
qed

text \<open>
  C25. Bootstrapping a known build host always returns. It runs one harmless probe, and the
  install script only when it was confirmed and the probe succeeded; and it records exactly one
  entry, for a dry run, a refusal and an execution alike.
\<close>

theorem bootstrap_runs_exactly:
  assumes "find_builder f (Some name) = Some b" and "audit w = Some al"
  shows "\<exists>r w'. bootstrap_builder E f name confirm w = (Inr r, w') \<and>
     trace w' = trace w @ map (on_host b) (''true'' #
       (if confirm \<and> cr_ok (env_run E (trace w) (ssh_argv b ''true''))
        then [bootstrap_script] else [])) \<and>
     logged w' = logged w @ [bootstrap_entry name r]"
  by (rule bootstrap_logged [OF assms])

theorem bootstrap_runs_exactly_witness:
  "\<exists>r w'. bootstrap_builder yes_env sample_fleet ''b'' True
      \<lparr>trace = [], audit = Some (audit_init (\<lambda>_. ''t''))\<rparr> = (Inr r, w')
    \<and> on_host \<lparr>host = ''10.0.0.9'', ssh = default_ssh\<rparr> bootstrap_script \<in> set (trace w')"
proof -
  have b: "find_builder sample_fleet (Some ''b'') = Some \<lparr>host = ''10.0.0.9'', ssh = default_ssh\<rparr>"
    by (simp add: find_builder_def sample_fleet_def)
  have a: "audit \<lparr>trace = [], audit = Some (audit_init (\<lambda>_. ''t''))\<rparr> = Some (audit_init (\<lambda>_. ''t''))"
    by simp
  show ?thesis
    using bootstrap_runs_exactly [OF b a, of yes_env True] by (auto simp: yes_env_def cr_ok_def)
qed

end
