(* ===== verification/Upgrade.thy ===== *)
theory Upgrade
  imports Restart Builder
begin

text \<open>
  The upgrade of \<open>operations.py\<close>: its plan and checks, the distribution of the artifacts with
  the comparison of checksums, the swap on the node, and \<open>execute_upgrade\<close>, which builds,
  distributes, swaps, cycles the service and verifies.
\<close>

section \<open>Plan and checks\<close>

definition builds_geyser :: "install_config option \<Rightarrow> bool" where
  "builds_geyser inst = (case inst of None \<Rightarrow> False | Some i \<Rightarrow> truthy (in_geyser_repo i))"

definition install_builder :: "install_config option \<Rightarrow> string option" where
  "install_builder inst = (case inst of None \<Rightarrow> None | Some i \<Rightarrow> in_builder i)"

definition upgrade_plan :: "cluster \<Rightarrow> node \<Rightarrow> string \<Rightarrow> string list" where
  "upgrade_plan c n target_version =
     (let inst = cl_install c;
          src = (case inst of None \<Rightarrow> ''agave'' | Some i \<Rightarrow> source_name (in_source i));
          geyser = (if builds_geyser inst
                    then '' (+ matching libyellowstone_grpc_geyser.so)'' else []);
          cycle = (if n_role n = Validator
                   then ''agave-validator exit (leader-aware), systemd relaunches new binary''
                   else ''stop '' @ svc_unit (n_service n) @ '', swap, start'')
      in [''on builder '' @ show_opt py_repr (install_builder inst) @ '': build '' @ src @ '' ''
            @ target_version @ '' from source'' @ geyser,
          ''distribute artifact set to '' @ n_name n @ ''; checksum-verify each (abort on mismatch)'',
          cycle,
          ''swap '' @ svc_binary (n_service n) @ '' + geyser .so + version marker atomically'',
          ''wait until healthy + caught up to '' @ cl_reference_rpc c,
          ''verify reported version == '' @ target_version @ ''; record before/after''])"

definition upgrade_checks ::
  "string \<Rightarrow> cluster \<Rightarrow> node \<Rightarrow> policy_rules \<Rightarrow> string \<Rightarrow> builder_host option \<Rightarrow> (bool \<times> string) list" where
  "upgrade_checks cn c n rules target_version builder =
     (let inst = cl_install c in
      [(version_allowed rules (Some target_version),
        ''version '' @ target_version @ '' not in allowed_versions ''
          @ repr_list (pr_allowed_versions rules) @ '' for '' @ cn),
       (install_builder inst \<noteq> None,
        ''cluster '' @ cn @ '' has no install.builder configured (strategy=build requires one)''),
       (builder \<noteq> None,
        ''builder node '' @ show_opt py_repr (install_builder inst) @ '' not found in fleet''),
       (\<not> builds_geyser inst \<or> svc_geyser_lib (n_service n) \<noteq> None,
        n_name n @ '' builds a geyser .so but service.geyser_lib (its target path) is unset'')])"

definition cluster_builder :: "fleet \<Rightarrow> cluster \<Rightarrow> builder_host option" where
  "cluster_builder f c =
     (case cl_install c of None \<Rightarrow> None | Some i \<Rightarrow> find_builder f (in_builder i))"

datatype plan_result =
    PlanUnknown string
  | Planned gate_decision string string

definition upgrade_note :: string where
  "upgrade_note = ''in-place upgrade: this single node has downtime during the swap; ''
     @ ''zero-downtime rolling arrives in M2 with the DNS pool.''"

definition plan_upgrade :: "policy \<Rightarrow> fleet \<Rightarrow> string \<Rightarrow> string \<Rightarrow> plan_result" where
  "plan_upgrade pol f node_name target_version =
     (case find_node f node_name of
        None \<Rightarrow> PlanUnknown (unknown_node node_name)
      | Some (cn, c, n) \<Rightarrow>
          let rules = for_cluster pol cn
          in Planned (gate ''upgrade'' cn node_name False (upgrade_plan c n target_version)
               (upgrade_checks cn c n rules target_version (cluster_builder f c)))
             target_version upgrade_note)"

section \<open>Distribution\<close>

text \<open>\<open>os.path.dirname\<close>: up to the last slash, without the slashes at its end unless it has only those\<close>

definition dirname :: "string \<Rightarrow> string" where
  "dirname p =
     (let head = rev (dropWhile (\<lambda>c. c \<noteq> CHR ''/'') (rev p))
      in if head \<noteq> [] \<and> \<not> list_all (\<lambda>c. c = CHR ''/'') head then rstrip_char CHR ''/'' head
         else head)"

text \<open>\<open>os.path.join\<close> of two parts\<close>

definition path_join :: "string \<Rightarrow> string \<Rightarrow> string" where
  "path_join a b =
     (if startswith b ''/'' then b
      else if a = [] \<or> endswith a ''/'' then a @ b
      else a @ ''/'' @ b)"

definition dest_for :: "node \<Rightarrow> string \<Rightarrow> string option" where
  "dest_for n artifact_name =
     (if artifact_name = geyser_lib_name then svc_geyser_lib (n_service n)
      else if artifact_name \<in> set agave_bins then
        Some (or_else (dirname (svc_binary (n_service n))) ''/usr/local/bin'' @ ''/'' @ artifact_name)
      else None)"

record staged_artifact =
  sg_name :: string
  sg_dest :: string
  sg_staged :: string
  sg_pull_ok :: bool
  sg_push_ok :: bool
  sg_sha_match :: bool
  sg_expected_sha :: "string option"
  sg_got_sha :: "string option"

datatype dist_entry =
    DistSkipped string
  | DistStaged staged_artifact

record dist_report =
  di_ok :: bool
  di_staging :: string
  di_artifacts :: "dist_entry list"

definition dist_entry_json :: "dist_entry \<Rightarrow> json" where
  "dist_entry_json e =
     (case e of
        DistSkipped name \<Rightarrow> JObj
          [(''name'', JStr name), (''skipped'', JStr ''no destination on target'')]
      | DistStaged s \<Rightarrow> JObj
          [(''name'', JStr (sg_name s)), (''dest'', JStr (sg_dest s)), (''staged'', JStr (sg_staged s)),
           (''pull_ok'', JBool (sg_pull_ok s)), (''push_ok'', JBool (sg_push_ok s)),
           (''sha_match'', JBool (sg_sha_match s)),
           (''expected_sha'', str_json (sg_expected_sha s)), (''got_sha'', str_json (sg_got_sha s))])"

definition dist_json :: "dist_report \<Rightarrow> json" where
  "dist_json d = JObj
     [(''ok'', JBool (di_ok d)), (''staging'', JStr (di_staging d)),
      (''artifacts'', JList (map dist_entry_json (di_artifacts d)))]"

definition entry_good :: "dist_entry \<Rightarrow> bool" where
  "entry_good e = (case e of DistSkipped _ \<Rightarrow> True
     | DistStaged s \<Rightarrow> sg_pull_ok s \<and> sg_push_ok s \<and> sg_sha_match s)"

definition staged_path :: "string \<Rightarrow> string" where
  "staged_path dest = dest @ ''.solfleet-new''"

definition distribute_one ::
  "env \<Rightarrow> builder_host \<Rightarrow> node \<Rightarrow> string \<Rightarrow> artifact \<Rightarrow> dist_entry io" where
  "distribute_one E b target staging art =
     (case dest_for target (ar_name art) of
        None \<Rightarrow> ret (DistSkipped (ar_name art))
      | Some dest \<Rightarrow>
          (let local = path_join staging (ar_name art) in
           bind_io (scp_from E b (ar_remote_path art) local) (\<lambda>pull.
           bind_io (scp_to E target local (staged_path dest)) (\<lambda>push.
           bind_io (remote_sha256 E target (staged_path dest)) (\<lambda>got.
           ret (DistStaged \<lparr>sg_name = ar_name art, sg_dest = dest, sg_staged = staged_path dest,
             sg_pull_ok = cr_ok pull, sg_push_ok = cr_ok push,
             sg_sha_match = (got \<noteq> None \<and> ar_sha256 art \<noteq> None \<and> got = ar_sha256 art),
             sg_expected_sha = ar_sha256 art, sg_got_sha = got\<rparr>))))))"

definition distribute :: "env \<Rightarrow> builder_host \<Rightarrow> node \<Rightarrow> artifact list \<Rightarrow> dist_report io" where
  "distribute E b target artifacts =
     bind_io (mkdtemp E) (\<lambda>staging.
     bind_io (for_each (distribute_one E b target staging) artifacts) (\<lambda>results.
     ret \<lparr>di_ok = list_all entry_good results, di_staging = staging, di_artifacts = results\<rparr>))"

section \<open>Version and marker\<close>

definition version_matches :: "string option \<Rightarrow> string \<Rightarrow> bool" where
  "version_matches reported target =
     (if \<not> truthy reported then False
      else let t = lstrip_char CHR ''v'' target; r = lstrip_char CHR ''v'' (the reported)
           in r = t \<or> startswith r t)"

datatype marker_report =
    MarkerSkipped
  | MarkerSet bool string "string option"

definition marker_json :: "marker_report \<Rightarrow> json" where
  "marker_json m =
     (case m of
        MarkerSkipped \<Rightarrow> JObj [(''skipped'', JBool True)]
      | MarkerSet success v err \<Rightarrow> JObj
          [(''ok'', JBool success), (''value'', JStr v), (''error'', str_json err)])"

definition marker_write :: "node \<Rightarrow> string \<Rightarrow> string" where
  "marker_write n version =
     (let q = [CHR 0x27]
      in ''printf '' @ q @ ''%s'' @ q @ '' '' @ q @ tag version @ q @ '' > ''
         @ the (svc_version_marker (n_service n)))"

definition update_marker :: "env \<Rightarrow> node \<Rightarrow> string \<Rightarrow> marker_report io" where
  "update_marker E n version =
     (if \<not> truthy (svc_version_marker (n_service n)) then ret MarkerSkipped
      else bind_io (run E n (marker_write n version)) (\<lambda>r.
             ret (MarkerSet (cr_ok r) (tag version) (cmd_error r))))"

section \<open>Swapping and cycling\<close>

text \<open>The swaps of the verified entries\<close>

definition swap_of :: "dist_entry \<Rightarrow> swap option" where
  "swap_of e =
     (case e of
        DistSkipped _ \<Rightarrow> None
      | DistStaged s \<Rightarrow> if sg_sha_match s
          then Some (sg_staged s, sg_dest s, sg_name s \<in> set agave_bins) else None)"

definition swaps_of :: "dist_report \<Rightarrow> swap list" where
  "swaps_of d = List.map_filter swap_of (di_artifacts d)"

record swap_cycle =
  sc_swap :: step_report
  sc_marker :: marker_report
  sc_cycle :: cycle_report

text \<open>
  A validator keeps running on the old files until its leader-aware exit; another node is
  stopped around the swap.
\<close>

definition upgrade_cycle ::
  "env \<Rightarrow> policy_rules \<Rightarrow> node \<Rightarrow> string \<Rightarrow> swap list \<Rightarrow> swap_cycle io" where
  "upgrade_cycle E rules n target_version swaps =
     (if n_role n = Validator then
        bind_io (atomic_swap E n swaps) (\<lambda>sw.
        bind_io (update_marker E n target_version) (\<lambda>marker.
        bind_io (validator_safe_exit E n (pr_require_leader_window_minutes rules)
                   default_max_delinquent_stake) (\<lambda>exit_step.
        ret \<lparr>sc_swap = sw, sc_marker = marker, sc_cycle = SafeExit exit_step\<rparr>)))
      else
        bind_io (stop_service E n) (\<lambda>stop.
        bind_io (atomic_swap E n swaps) (\<lambda>sw.
        bind_io (update_marker E n target_version) (\<lambda>marker.
        bind_io (start_service E n) (\<lambda>start.
        ret \<lparr>sc_swap = sw, sc_marker = marker, sc_cycle = StopStart stop start\<rparr>)))))"

section \<open>The operation\<close>

record upgrade_outcome =
  uo_decision :: gate_decision
  uo_build :: build_result
  uo_dist :: dist_report
  uo_cycle :: swap_cycle
  uo_catchup :: catchup
  uo_reported :: "string option"
  uo_version_ok :: bool

definition upgrade_succeeded :: "upgrade_outcome \<Rightarrow> bool" where
  "upgrade_succeeded u \<longleftrightarrow> sp_ok (sc_swap (uo_cycle u)) \<and> cycle_ok (sc_cycle (uo_cycle u)) \<and>
     cu_caught_up (uo_catchup u) \<and> uo_version_ok u"

definition upgrade_json :: "upgrade_outcome \<Rightarrow> json" where
  "upgrade_json u = JObj
     [(''decision'', decision_json (uo_decision u)),
      (''build'', JObj [(''version'', JStr (br_version (uo_build u))),
         (''cached'', JBool (br_cached (uo_build u))),
         (''artifacts'', json_strs (map ar_name (br_artifacts (uo_build u))))]),
      (''distribute'', JObj [(''ok'', JBool (di_ok (uo_dist u))),
         (''artifacts'', JList (map dist_entry_json (di_artifacts (uo_dist u))))]),
      (''swap'', step_json (sc_swap (uo_cycle u))),
      (''marker'', marker_json (sc_marker (uo_cycle u))),
      (''cycle'', cycle_json (sc_cycle (uo_cycle u))),
      (''catchup'', catchup_json (uo_catchup u)),
      (''reported_version'', str_json (uo_reported u)),
      (''version_ok'', JBool (uo_version_ok u)), (''succeeded'', JBool (upgrade_succeeded u))]"

datatype upgrade_result =
    UpgradeUnknown string
  | UpgradeGated gate_decision inspect_report
  | UpgradeBuildFailed gate_decision build_result
  | UpgradeDistFailed gate_decision build_result dist_report
  | UpgradeDone upgrade_outcome

definition upgrade_entry :: "string \<Rightarrow> string \<Rightarrow> upgrade_result \<Rightarrow> audit_entry" where
  "upgrade_entry cn node_name r =
     (let executed = entry_of ''upgrade'' cn node_name ''execute'' True in
      case r of
        UpgradeUnknown e \<Rightarrow> entry_of [] [] [] [] False JNull
      | UpgradeGated d before \<Rightarrow>
          entry_of ''upgrade'' cn node_name (gd_mode d) (gd_allowed d) (JObj
            [(''plan'', json_strs (gd_plan d)), (''reasons'', json_strs (gd_reasons d)),
             (''preflight'', inspect_json before)])
      | UpgradeBuildFailed d b \<Rightarrow> executed (JObj
          [(''decision'', decision_json d), (''build'', build_json b), (''succeeded'', JBool False)])
      | UpgradeDistFailed d b di \<Rightarrow> executed (JObj
          [(''decision'', decision_json d), (''build'', build_json b),
           (''distribute'', dist_json di), (''succeeded'', JBool False)])
      | UpgradeDone u \<Rightarrow> executed (upgrade_json u))"

text \<open>Step 3 and after it: the swap, the wait and the verification\<close>

definition upgrade_swap ::
  "env \<Rightarrow> sampler \<Rightarrow> policy_rules \<Rightarrow> cluster \<Rightarrow> node \<Rightarrow> string \<Rightarrow> int \<Rightarrow> gate_decision \<Rightarrow>
   build_result \<Rightarrow> dist_report \<Rightarrow> upgrade_result io" where
  "upgrade_swap E sampler rules c n target_version max_lag decision build di =
     bind_io (upgrade_cycle E rules n target_version (swaps_of di)) (\<lambda>cycle.
     bind_io (await_catchup sampler n (cl_reference_rpc c) max_lag catchup_timeout) (\<lambda>catch.
     bind_io (inspect_node E n) (\<lambda>after.
     let reported = vr_binary_version (ir_version after)
     in ret (UpgradeDone \<lparr>uo_decision = decision, uo_build = build, uo_dist = di,
          uo_cycle = cycle, uo_catchup = catch, uo_reported = reported,
          uo_version_ok = version_matches reported target_version\<rparr>))))"

definition upgrade_execute ::
  "env \<Rightarrow> sampler \<Rightarrow> policy_rules \<Rightarrow> cluster \<Rightarrow> node \<Rightarrow> install_config \<Rightarrow> builder_host \<Rightarrow> string \<Rightarrow>
   int \<Rightarrow> bool \<Rightarrow> gate_decision \<Rightarrow> upgrade_result io" where
  "upgrade_execute E sampler rules c n i b target_version max_lag force decision =
     bind_io (build_artifacts E b i target_version force) (\<lambda>build.
       if \<not> br_ok build then ret (UpgradeBuildFailed decision build)
       else
         bind_io (distribute E b n (br_artifacts build)) (\<lambda>di.
           if \<not> di_ok di then ret (UpgradeDistFailed decision build di)
           else upgrade_swap E sampler rules c n target_version max_lag decision build di))"

definition upgrade_preflight :: "policy_rules \<Rightarrow> inspect_report \<Rightarrow> (bool \<times> string) list" where
  "upgrade_preflight rules before =
     [(sr_ok (ir_service before), ''node not reachable over SSH for preflight''),
      disk_check rules before]"

text \<open>
  Past the gate the checks have established that the cluster has an install section and its
  builder is found, so \<open>the\<close> is applied to what is there (\<open>upgrade_goes_builder\<close>).
\<close>

definition upgrade_decided ::
  "env \<Rightarrow> sampler \<Rightarrow> policy_rules \<Rightarrow> fleet \<Rightarrow> cluster \<Rightarrow> node \<Rightarrow> string \<Rightarrow> int \<Rightarrow> bool \<Rightarrow> bool \<Rightarrow>
   inspect_report \<Rightarrow> gate_decision \<Rightarrow> upgrade_result io" where
  "upgrade_decided E sampler rules f c n target_version max_lag force confirm before decision =
     (if \<not> confirm \<or> \<not> gd_allowed decision then ret (UpgradeGated decision before)
      else upgrade_execute E sampler rules c n (the (cl_install c)) (the (cluster_builder f c))
             target_version max_lag force decision)"

definition upgrade_decision ::
  "policy_rules \<Rightarrow> fleet \<Rightarrow> string \<Rightarrow> cluster \<Rightarrow> node \<Rightarrow> string \<Rightarrow> string \<Rightarrow> bool \<Rightarrow> inspect_report \<Rightarrow>
   gate_decision" where
  "upgrade_decision rules f cn c n node_name target_version confirm before =
     gate ''upgrade'' cn node_name confirm (upgrade_plan c n target_version)
       (upgrade_checks cn c n rules target_version (cluster_builder f c)
        @ upgrade_preflight rules before)"

definition execute_upgrade ::
  "env \<Rightarrow> policy \<Rightarrow> sampler \<Rightarrow> fleet \<Rightarrow> string \<Rightarrow> string \<Rightarrow> bool \<Rightarrow> int \<Rightarrow> bool \<Rightarrow> upgrade_result io" where
  "execute_upgrade E pol sampler f node_name target_version confirm max_lag force =
     (case find_node f node_name of
        None \<Rightarrow> ret (UpgradeUnknown (unknown_node node_name))
      | Some (cn, c, n) \<Rightarrow>
          (let rules = for_cluster pol cn in
           bind_io (inspect_node E n) (\<lambda>before.
           recorded (upgrade_entry cn node_name)
             (upgrade_decided E sampler rules f c n target_version max_lag force confirm before
               (upgrade_decision rules f cn c n node_name target_version confirm before)))))"

section \<open>What distribution runs and returns\<close>

definition dist_argvs :: "builder_host \<Rightarrow> node \<Rightarrow> string \<Rightarrow> artifact \<Rightarrow> string list list" where
  "dist_argvs b t staging art =
     (case dest_for t (ar_name art) of
        None \<Rightarrow> []
      | Some dest \<Rightarrow>
          [scp_from_argv b (ar_remote_path art) (path_join staging (ar_name art)),
           scp_to_argv t (path_join staging (ar_name art)) (staged_path dest),
           ssh_argv t (''sha256sum '' @ staged_path dest)])"

text \<open>The entry says of its artifact what was found\<close>

definition entry_for :: "node \<Rightarrow> artifact \<Rightarrow> dist_entry \<Rightarrow> bool" where
  "entry_for t art e \<longleftrightarrow>
     (case dest_for t (ar_name art) of
        None \<Rightarrow> e = DistSkipped (ar_name art)
      | Some dest \<Rightarrow> (\<exists>s. e = DistStaged s \<and> sg_name s = ar_name art \<and> sg_dest s = dest \<and>
          sg_staged s = staged_path dest \<and> sg_expected_sha s = ar_sha256 art \<and>
          (sg_sha_match s \<longleftrightarrow> ar_sha256 art \<noteq> None \<and> sg_got_sha s = ar_sha256 art)))"

lemma emits_scp_from: "emits [Ran (scp_from_argv b r l)] (scp_from E b r l)"
  by (simp add: scp_from_def emits_run_argv)

lemma emits_scp_to: "emits [Ran (scp_to_argv b r l)] (scp_to E b r l)"
  by (simp add: scp_to_def emits_run_argv)

lemma distribute_one_run:
  obtains e w' where "distribute_one E b t staging art w = (Inr e, w')"
    "trace w' = trace w @ map Ran (dist_argvs b t staging art)" "audit w' = audit w"
    "entry_for t art e"
proof (cases "dest_for t (ar_name art)")
  case None
  then show thesis
    by (intro that [where w' = w]) (auto simp: distribute_one_def ret_def dist_argvs_def entry_for_def)
next
  case (Some dest)
  let ?local = "path_join staging (ar_name art)"
  obtain pull w1 where p: "scp_from E b (ar_remote_path art) ?local w = (Inr pull, w1)"
    "trace w1 = trace w @ [Ran (scp_from_argv b (ar_remote_path art) ?local)]" "audit w1 = audit w"
    using emits_runE [OF emits_scp_from] by blast
  obtain push w2 where q: "scp_to E t ?local (staged_path dest) w1 = (Inr push, w2)"
    "trace w2 = trace w1 @ [Ran (scp_to_argv t ?local (staged_path dest))]" "audit w2 = audit w1"
    using emits_runE [OF emits_scp_to] by blast
  obtain got w3 where r: "remote_sha256 E t (staged_path dest) w2 = (Inr got, w3)"
    "trace w3 = trace w2 @ [on_host t (''sha256sum '' @ staged_path dest)]" "audit w3 = audit w2"
    using emits_runE [OF emits_remote_sha256] by blast
  from Some p q r show thesis
    by (intro that [where w' = w3])
      (auto simp: distribute_one_def Let_def bind_io_def ret_def dist_argvs_def entry_for_def on_host_def)
qed

lemma distribute_all_run:
  "\<exists>es w'. for_each (distribute_one E b t staging) arts w = (Inr es, w') \<and>
     trace w' = trace w @ map Ran (concat (map (dist_argvs b t staging) arts)) \<and>
     audit w' = audit w \<and> list_all2 (entry_for t) arts es"
proof (induction arts arbitrary: w)
  case (Cons art arts)
  obtain e w1 where o: "distribute_one E b t staging art w = (Inr e, w1)"
    "trace w1 = trace w @ map Ran (dist_argvs b t staging art)" "audit w1 = audit w"
    "entry_for t art e" by (rule distribute_one_run)
  from Cons.IH [of w1] obtain es w2 where "for_each (distribute_one E b t staging) arts w1 = (Inr es, w2)"
    "trace w2 = trace w1 @ map Ran (concat (map (dist_argvs b t staging) arts))"
    "audit w2 = audit w1" "list_all2 (entry_for t) arts es" by blast
  with o show ?case by (simp add: bind_io_def ret_def)
qed (simp add: ret_def)

lemma distribute_run:
  obtains d w' where "distribute E b t arts w = (Inr d, w')"
    "trace w' = trace w @ MadeTempDir (di_staging d)
       # map Ran (concat (map (dist_argvs b t (di_staging d)) arts))"
    "audit w' = audit w" "list_all2 (entry_for t) arts (di_artifacts d)"
    "di_ok d = list_all entry_good (di_artifacts d)"
proof -
  let ?staging = "env_tmp E (trace w)"
  let ?w1 = "w\<lparr>trace := trace w @ [MadeTempDir ?staging]\<rparr>"
  from distribute_all_run [of E b t ?staging arts ?w1] obtain es w' where
    f: "for_each (distribute_one E b t ?staging) arts ?w1 = (Inr es, w')"
    "trace w' = trace ?w1 @ map Ran (concat (map (dist_argvs b t ?staging) arts))"
    "audit w' = audit ?w1" "list_all2 (entry_for t) arts es" by blast
  have "distribute E b t arts w = (Inr \<lparr>di_ok = list_all entry_good es, di_staging = ?staging,
      di_artifacts = es\<rparr>, w')"
    using f(1) by (simp add: distribute_def mkdtemp_def bind_io_def ret_def)
  from that [OF this] f show thesis by simp
qed

text \<open>The complete set of swaps for a list of artifacts\<close>

definition full_swaps :: "node \<Rightarrow> artifact list \<Rightarrow> swap list" where
  "full_swaps t arts = List.map_filter (\<lambda>art. map_option
     (\<lambda>dest. (staged_path dest, dest, ar_name art \<in> set agave_bins)) (dest_for t (ar_name art))) arts"

lemma swaps_full:
  assumes "list_all2 (entry_for t) arts es" and "list_all entry_good es"
  shows "List.map_filter swap_of es = full_swaps t arts"
  using assms
proof (induction rule: list_all2_induct)
  case (Cons art arts e es)
  from Cons have "entry_good e" "entry_for t art e" by simp_all
  then have "swap_of e = map_option (\<lambda>dest. (staged_path dest, dest, ar_name art \<in> set agave_bins))
      (dest_for t (ar_name art))"
    by (cases "dest_for t (ar_name art)") (auto simp: entry_good_def entry_for_def swap_of_def)
  with Cons show ?case by (simp add: full_swaps_def map_filter_def)
qed (simp add: full_swaps_def map_filter_def)

section \<open>What an upgrade runs\<close>

definition marker_commands :: "node \<Rightarrow> string \<Rightarrow> string list" where
  "marker_commands n version =
     (if truthy (svc_version_marker (n_service n)) then [marker_write n version] else [])"

definition upgrade_cycle_commands ::
  "policy_rules \<Rightarrow> node \<Rightarrow> string \<Rightarrow> swap list \<Rightarrow> string list" where
  "upgrade_cycle_commands rules n version swaps =
     (if n_role n = Validator then
        [swap_command swaps] @ marker_commands n version
        @ [safe_exit_command n (pr_require_leader_window_minutes rules) default_max_delinquent_stake]
      else [systemctl n ''stop'', swap_command swaps] @ marker_commands n version
        @ [systemctl n ''start''])"

lemma emits_update_marker:
  "emits (map (on_host n) (marker_commands n v)) (update_marker E n v)"
  by (simp add: update_marker_def marker_commands_def emits_ret emits_bind_ret emits_run)

lemma emits_upgrade_cycle:
  "emits (map (on_host n) (upgrade_cycle_commands rules n v swaps)) (upgrade_cycle E rules n v swaps)"
proof (cases "n_role n = Validator")
  case True
  have "emits ([on_host n (swap_command swaps)] @ map (on_host n) (marker_commands n v)
      @ [on_host n (safe_exit_command n (pr_require_leader_window_minutes rules)
           default_max_delinquent_stake)]) (upgrade_cycle E rules n v swaps)"
    unfolding upgrade_cycle_def if_P [OF True]
    by (rule emits_bind [OF emits_swap], rule emits_bind [OF emits_update_marker],
        rule emits_bind_ret [OF emits_safe_exit])
  with True show ?thesis by (simp add: upgrade_cycle_commands_def)
next
  case False
  have "emits ([on_host n (systemctl n ''stop'')] @ [on_host n (swap_command swaps)]
      @ map (on_host n) (marker_commands n v) @ [on_host n (systemctl n ''start'')])
      (upgrade_cycle E rules n v swaps)"
    unfolding upgrade_cycle_def if_not_P [OF False]
    by (rule emits_bind [OF emits_stop], rule emits_bind [OF emits_swap],
        rule emits_bind [OF emits_update_marker], rule emits_bind_ret [OF emits_start])
  with False show ?thesis by (simp add: upgrade_cycle_commands_def)
qed

text \<open>When the gate lets an upgrade through\<close>

definition upgrade_goes ::
  "policy_rules \<Rightarrow> fleet \<Rightarrow> cluster \<Rightarrow> node \<Rightarrow> string \<Rightarrow> bool \<Rightarrow> inspect_report \<Rightarrow> bool" where
  "upgrade_goes rules f c n version confirm before \<longleftrightarrow>
     confirm \<and> version_allowed rules (Some version) \<and> install_builder (cl_install c) \<noteq> None \<and>
     cluster_builder f c \<noteq> None \<and>
     (builds_geyser (cl_install c) \<longrightarrow> svc_geyser_lib (n_service n) \<noteq> None) \<and>
     sr_ok (ir_service before) \<and> disk_free_ok rules (use_pcts before)"

lemma upgrade_gate:
  "(confirm \<and> gd_allowed (upgrade_decision rules f cn c n nm version confirm before)) =
   upgrade_goes rules f c n version confirm before"
  by (auto simp: upgrade_decision_def gate_allowed upgrade_checks_def upgrade_preflight_def
      disk_check_def upgrade_goes_def Let_def)

lemma upgrade_goes_builder:
  assumes "upgrade_goes rules f c n version confirm before"
  obtains i b where "cl_install c = Some i" "cluster_builder f c = Some b"
  using assms by (auto simp: upgrade_goes_def cluster_builder_def split: option.splits)

text \<open>Every command from the build on, for the results the build and the distribution gave\<close>

definition upgrade_argvs ::
  "policy_rules \<Rightarrow> node \<Rightarrow> install_config \<Rightarrow> builder_host \<Rightarrow> string \<Rightarrow> bool \<Rightarrow> build_result \<Rightarrow> nat \<Rightarrow>
   dist_report \<Rightarrow> string list list" where
  "upgrade_argvs rules n i b version force build k d =
     host_argvs b (build_trace i version force (br_cached build) k (br_ok build))
     @ (if br_ok build then
          concat (map (dist_argvs b n (di_staging d)) (br_artifacts build))
          @ (if di_ok d then
               host_argvs n (upgrade_cycle_commands rules n version
                 (full_swaps n (br_artifacts build)) @ inspect_commands n)
             else [])
        else [])"

text \<open>How the result of the operation follows from them\<close>

fun upgrade_result_for :: "build_result \<Rightarrow> dist_report \<Rightarrow> upgrade_result \<Rightarrow> bool" where
  "upgrade_result_for build d (UpgradeBuildFailed dec build') = (build' = build \<and> \<not> br_ok build)"
| "upgrade_result_for build d (UpgradeDistFailed dec build' d') =
     (build' = build \<and> d' = d \<and> br_ok build \<and> \<not> di_ok d)"
| "upgrade_result_for build d (UpgradeDone u) =
     (uo_build u = build \<and> uo_dist u = d \<and> br_ok build \<and> di_ok d)"
| "upgrade_result_for build d _ = False"

context quiet_sampler begin

lemma doing_upgrade_swap:
  "doing (host_argvs n (upgrade_cycle_commands rules n v (swaps_of d) @ inspect_commands n))
     (upgrade_swap E sampler rules c n v max_lag dec build d)"
proof -
  have cyc: "doing (host_argvs n (upgrade_cycle_commands rules n v (swaps_of d)))
      (upgrade_cycle E rules n v (swaps_of d))"
    using emits_doing [OF emits_upgrade_cycle] by (simp add: commands_on_host)
  have "doing (host_argvs n (upgrade_cycle_commands rules n v (swaps_of d)) @ []
      @ host_argvs n (inspect_commands n)) (upgrade_swap E sampler rules c n v max_lag dec build d)"
    unfolding upgrade_swap_def Let_def
    by (intro doing_bind cyc doing_await doing_bind_ret doing_inspect)
  then show ?thesis by (simp add: host_argvs_def)
qed

lemma upgrade_swap_result:
  "upgrade_swap E sampler rules c n v max_lag dec build d w = (Inr r, w') \<Longrightarrow>
   \<exists>u. r = UpgradeDone u \<and> uo_build u = build \<and> uo_dist u = d"
  by (auto simp: upgrade_swap_def Let_def ret_run elim!: bind_io_Inr)

lemma upgrade_execute_outcome:
  assumes run: "recorded entry (upgrade_execute E sampler rules c n i b v max_lag force dec) w = (res, w')"
  obtains build k d w1 w2 where "build_artifacts E b i v force w = (Inr build, w1)"
    "build_faithful i v force k build"
    "distribute E b n (br_artifacts build) w1 = (Inr d, w2)"
    "outcome (upgrade_argvs rules n i b v force build k d) entry w res w'"
    "\<And>r. res = Inr r \<Longrightarrow> upgrade_result_for build d r"
proof -
  obtain build k w1 where bd: "build_artifacts E b i v force w = (Inr build, w1)"
    "trace w1 = trace w @ map (on_host b) (build_trace i v force (br_cached build) k (br_ok build))"
    "audit w1 = audit w" "build_faithful i v force k build" by (rule build_artifacts_run)
  obtain d w2 where di: "distribute E b n (br_artifacts build) w1 = (Inr d, w2)"
    "trace w2 = trace w1 @ MadeTempDir (di_staging d)
       # map Ran (concat (map (dist_argvs b n (di_staging d)) (br_artifacts build)))"
    "audit w2 = audit w1" "list_all2 (entry_for n) (br_artifacts build) (di_artifacts d)"
    "di_ok d = list_all entry_good (di_artifacts d)" by (rule distribute_run)
  have step1: "(if \<not> br_ok build then recorded entry (ret (UpgradeBuildFailed dec build)) w1
      else recorded entry (if \<not> di_ok d then ret (UpgradeDistFailed dec build d)
        else upgrade_swap E sampler rules c n v max_lag dec build d) w2) = (res, w')"
    using run by (cases "br_ok build") (simp_all add: upgrade_execute_def recorded_bind bd(1) di(1))
  note after1 = outcome_after [OF bd(2,3)] and after2 = outcome_after [OF di(2,3)]
  have "outcome (upgrade_argvs rules n i b v force build k d) entry w res w'
      \<and> (\<forall>r. res = Inr r \<longrightarrow> upgrade_result_for build d r)"
  proof (cases "br_ok build")
    case False
    with step1 have r: "recorded entry (ret (UpgradeBuildFailed dec build)) w1 = (res, w')" by simp
    from after1 [OF recorded_ret_outcome [OF r]] recorded_ret_result [OF r] False show ?thesis
      by (simp add: upgrade_argvs_def commands_on_host)
  next
    case ok: True
    show ?thesis
    proof (cases "di_ok d")
      case False
      with step1 ok have r: "recorded entry (ret (UpgradeDistFailed dec build d)) w2 = (res, w')"
        by simp
      from after1 [OF after2 [OF recorded_ret_outcome [OF r]]] recorded_ret_result [OF r] ok False
      show ?thesis by (simp add: upgrade_argvs_def commands_on_host commands_map_Ran)
    next
      case True
      with step1 ok have r: "recorded entry
          (upgrade_swap E sampler rules c n v max_lag dec build d) w2 = (res, w')" by simp
      have "swaps_of d = full_swaps n (br_artifacts build)"
        unfolding swaps_of_def using di(4,5) True by (intro swaps_full) simp_all
      with after1 [OF after2 [OF recorded_outcome [OF doing_upgrade_swap r]]] ok True
      have "outcome (upgrade_argvs rules n i b v force build k d) entry w res w'"
        by (simp add: upgrade_argvs_def commands_on_host commands_map_Ran)
      moreover have "upgrade_result_for build d x" if "res = Inr x" for x
        using recorded_returns [OF r [unfolded that]] upgrade_swap_result ok True by fastforce
      ultimately show ?thesis by blast
    qed
  qed
  with bd(1,4) di(1) show thesis by (intro that) blast+
qed

end

context quiet_sampler begin

lemma execute_upgrade_outcome:
  assumes n: "find_node f name = Some (cn, c, n)"
    and run: "execute_upgrade E pol sampler f name v confirm max_lag force w = (res, w')"
  defines "rules \<equiv> for_cluster pol cn"
  obtains (gated) before w1 where "inspect_node E n w = (Inr before, w1)"
      "\<not> upgrade_goes rules f c n v confirm before"
      "res = Inr (UpgradeGated (upgrade_decision rules f cn c n name v confirm before) before)"
      "outcome (host_argvs n (inspect_commands n)) (upgrade_entry cn name) w res w'"
    | (went) before w1 i b build k d w2 w3 where "inspect_node E n w = (Inr before, w1)"
      "upgrade_goes rules f c n v confirm before"
      "cl_install c = Some i" "cluster_builder f c = Some b"
      "build_artifacts E b i v force w1 = (Inr build, w2)" "build_faithful i v force k build"
      "distribute E b n (br_artifacts build) w2 = (Inr d, w3)"
      "outcome (host_argvs n (inspect_commands n) @ upgrade_argvs rules n i b v force build k d)
         (upgrade_entry cn name) w res w'"
      "\<And>r. res = Inr r \<Longrightarrow> upgrade_result_for build d r"
proof -
  obtain before w1 where i: "inspect_node E n w = (Inr before, w1)"
    "trace w1 = trace w @ inspect_events n" "audit w1 = audit w"
    using emits_runE [OF emits_inspect_node] by blast
  have t: "commands (inspect_events n) = host_argvs n (inspect_commands n)"
    by (simp add: inspect_events_def commands_on_host)
  note after = outcome_after [OF i(2,3), unfolded t]
  let ?dec = "upgrade_decision rules f cn c n name v confirm before"
  have k: "recorded (upgrade_entry cn name) (upgrade_decided E sampler rules f c n v max_lag force
      confirm before ?dec) w1 = (res, w')"
    using run unfolding execute_upgrade_def n option.case prod.case Let_def rules_def
    by (simp only: bind_io_run i(1))
  show thesis
  proof (cases "upgrade_goes rules f c n v confirm before")
    case False
    then have "\<not> confirm \<or> \<not> gd_allowed ?dec" using upgrade_gate by blast
    with k have r: "recorded (upgrade_entry cn name) (ret (UpgradeGated ?dec before)) w1 = (res, w')"
      unfolding upgrade_decided_def by (simp only: if_True)
    show thesis
      using after [OF recorded_ret_outcome [OF r]]
      by (intro gated [OF i(1) False recorded_ret_result [OF r]]) simp
  next
    case True
    then have "\<not> (\<not> confirm \<or> \<not> gd_allowed ?dec)" using upgrade_gate by blast
    with k have r: "recorded (upgrade_entry cn name) (upgrade_execute E sampler rules c n
        (the (cl_install c)) (the (cluster_builder f c)) v max_lag force ?dec) w1 = (res, w')"
      unfolding upgrade_decided_def by (simp only: if_False)
    from upgrade_goes_builder [OF True] obtain inst b where
      ib: "cl_install c = Some inst" "cluster_builder f c = Some b" by metis
    from upgrade_execute_outcome [OF r [unfolded ib option.sel]] obtain build k d w2 w3 where
      x: "build_artifacts E b inst v force w1 = (Inr build, w2)" "build_faithful inst v force k build"
      "distribute E b n (br_artifacts build) w2 = (Inr d, w3)"
      "outcome (upgrade_argvs rules n inst b v force build k d) (upgrade_entry cn name) w1 res w'"
      "\<And>r. res = Inr r \<Longrightarrow> upgrade_result_for build d r" by metis
    show thesis by (rule went [OF i(1) True ib x(1-3) after [OF x(4)] x(5)])
  qed
qed

end

section \<open>Properties\<close>

text \<open>
  C26. What an upgrade runs, whatever the hosts answer: the inspection of the node; only when it
  is confirmed and every check passes, the build; only when the build is good, the distribution;
  and only when every artifact was pulled, pushed and found on the node with the checksum it
  has on the builder, the swap of the complete set, the cycle of the service and a second
  inspection. A failed build or distribution leaves the service and its files alone. A run that
  raises ran a first part of that sequence.
\<close>

theorem upgrade_runs_exactly:
  assumes "quiet_sampler sampler" and "find_node f name = Some (cn, c, n)"
    and "execute_upgrade E pol sampler f name v confirm max_lag force w = (res, w')"
  shows "\<exists>before w1 es. inspect_node E n w = (Inr before, w1) \<and> trace w' = trace w @ es \<and>
    (if upgrade_goes (for_cluster pol cn) f c n v confirm before
     then \<exists>i b build k d w2 w3 cs. cl_install c = Some i \<and> cluster_builder f c = Some b \<and>
       build_artifacts E b i v force w1 = (Inr build, w2) \<and> build_faithful i v force k build \<and>
       distribute E b n (br_artifacts build) w2 = (Inr d, w3) \<and>
       cs = host_argvs n (inspect_commands n)
         @ upgrade_argvs (for_cluster pol cn) n i b v force build k d \<and>
       prefix (commands es) cs \<and>
       (case res of Inl _ \<Rightarrow> True | Inr r \<Rightarrow> commands es = cs \<and> upgrade_result_for build d r)
     else commands es = host_argvs n (inspect_commands n) \<and>
       (\<exists>dec. res = Inr (UpgradeGated dec before)))"
proof (cases rule: quiet_sampler.execute_upgrade_outcome [OF assms])
  case (1 before w1)
  then obtain es where "trace w' = trace w @ es" "commands es = host_argvs n (inspect_commands n)"
    unfolding outcome_def by auto
  with 1 show ?thesis by auto
next
  case (2 before w1 i b build k d w2 w3)
  from 2(8) obtain es where es: "trace w' = trace w @ es" "case res of
      Inl _ \<Rightarrow> prefix (commands es) (host_argvs n (inspect_commands n)
        @ upgrade_argvs (for_cluster pol cn) n i b v force build k d) \<and> audit w' = audit w
    | Inr x \<Rightarrow> commands es = host_argvs n (inspect_commands n)
        @ upgrade_argvs (for_cluster pol cn) n i b v force build k d
        \<and> audit w' = map_option (audit_put (upgrade_entry cn name x)) (audit w)"
    unfolding outcome_def by blast
  have "prefix (commands es) (host_argvs n (inspect_commands n)
        @ upgrade_argvs (for_cluster pol cn) n i b v force build k d) \<and>
      (case res of Inl _ \<Rightarrow> True | Inr r \<Rightarrow> commands es = host_argvs n (inspect_commands n)
        @ upgrade_argvs (for_cluster pol cn) n i b v force build k d
        \<and> upgrade_result_for build d r)"
    using es(2) 2(9) by (cases res) simp_all
  with 2 es(1) show ?thesis by auto
qed

theorem upgrade_runs_exactly_witness:
  "\<exists>es. trace (snd (execute_upgrade idle_env default_policy (default_sampler idle_env)
       one_node_fleet ''rpc1'' ''4.1.0'' True 2 False fresh_world)) = es
     \<and> commands es = host_argvs rpc1 (inspect_commands rpc1)"
proof -
  obtain res w' where r: "execute_upgrade idle_env default_policy (default_sampler idle_env)
       one_node_fleet ''rpc1'' ''4.1.0'' True 2 False fresh_world = (res, w')" by fastforce
  have g: "\<not> upgrade_goes (for_cluster default_policy ''mainnet'') one_node_fleet mainnet rpc1 ''4.1.0''
      True before" for before
    by (simp add: upgrade_goes_def mainnet_def install_builder_def)
  from upgrade_runs_exactly [OF live.quiet_sampler_axioms one_node_find r] r g
  show ?thesis by (auto simp: fresh_world_def)
qed

text \<open>
  An upgrade that returns has appended exactly one entry to the audit log, whichever way it
  returned: dry run, refusal, failed build, failed distribution or execution. One that raises
  has recorded nothing.
\<close>

theorem upgrade_audited:
  assumes "quiet_sampler sampler" and "find_node f name = Some (cn, c, n)"
    and "execute_upgrade E pol sampler f name v confirm max_lag force w = (res, w')"
    and "audit w = Some al"
  shows "logged w' = logged w @ (case res of Inl _ \<Rightarrow> [] | Inr r \<Rightarrow> [upgrade_entry cn name r])"
proof -
  obtain cs where o: "outcome cs (upgrade_entry cn name) w res w'"
    by (cases rule: quiet_sampler.execute_upgrade_outcome [OF assms(1-3)])
  show ?thesis
  proof (cases res)
    case (Inl e)
    with o assms(4) show ?thesis by (auto simp: outcome_def logged_def)
  next
    case (Inr r)
    with outcome_logged [OF o [unfolded Inr] assms(4)] show ?thesis by simp
  qed
qed

theorem upgrade_audited_witness:
  "length (logged (snd (execute_upgrade idle_env default_policy (default_sampler idle_env)
     one_node_fleet ''rpc1'' ''4.1.0'' False 2 False fresh_world))) \<le> 1"
proof -
  obtain res w' where r: "execute_upgrade idle_env default_policy (default_sampler idle_env)
      one_node_fleet ''rpc1'' ''4.1.0'' False 2 False fresh_world = (res, w')" by fastforce
  have a: "audit fresh_world = Some (audit_init (\<lambda>_. ''t''))" by (simp add: fresh_world_def)
  from upgrade_audited [OF live.quiet_sampler_axioms one_node_find r a] r show ?thesis
    by (auto simp: logged_def fresh_world_def audit_entries_def audit_init_def split: sum.splits)
qed

text \<open>
  Distribution always returns. For each artifact with a place on the node it pulls the file
  from the builder, pushes it beside its place and asks the node for its checksum; its entry is
  a match only when both sides gave a checksum and they are equal. It is good exactly when every
  entry is, and then the swaps are those of the complete artifact set.
\<close>

theorem distribute_verifies:
  "\<exists>d w'. distribute E b t arts w = (Inr d, w') \<and> audit w' = audit w \<and>
     trace w' = trace w @ MadeTempDir (di_staging d)
       # map Ran (concat (map (dist_argvs b t (di_staging d)) arts)) \<and>
     list_all2 (entry_for t) arts (di_artifacts d) \<and>
     di_ok d = list_all entry_good (di_artifacts d) \<and>
     (if di_ok d then swaps_of d = full_swaps t arts else True)"
proof (rule distribute_run [of E b t arts w])
  fix d w'
  assume d: "distribute E b t arts w = (Inr d, w')"
    "trace w' = trace w @ MadeTempDir (di_staging d)
       # map Ran (concat (map (dist_argvs b t (di_staging d)) arts))"
    "audit w' = audit w" "list_all2 (entry_for t) arts (di_artifacts d)"
    "di_ok d = list_all entry_good (di_artifacts d)"
  have "if di_ok d then swaps_of d = full_swaps t arts else True"
    using d(4,5) by (simp add: swaps_of_def swaps_full)
  with d show ?thesis by blast
qed

text \<open>
  C27. The plan of an upgrade is honest: when \<open>plan_upgrade\<close> finds a check that fails, executing
  the upgrade is refused after the inspection, and the refusal lists every reason of the plan.
\<close>

theorem plan_upgrade_predicts:
  assumes "plan_upgrade pol f name v = Planned d tv note" and "\<not> gd_allowed d"
    and "find_node f name = Some (cn, c, n)"
    and "execute_upgrade E pol sampler f name v True max_lag force w = (res, w')"
  shows "\<exists>dec before. res = Inr (UpgradeGated dec before) \<and> \<not> gd_allowed dec \<and>
    set (tl (gd_reasons d)) \<subseteq> set (gd_reasons dec)"
proof -
  let ?rules = "for_cluster pol cn"
  let ?checks = "upgrade_checks cn c n ?rules v (cluster_builder f c)"
  have d: "d = gate ''upgrade'' cn name False (upgrade_plan c n v) ?checks"
    using assms(1,3) by (auto simp: plan_upgrade_def Let_def)
  with assms(2) have fail: "\<not> list_all fst ?checks" by (simp add: gate_allowed)
  obtain before w1 where i: "inspect_node E n w = (Inr before, w1)"
    using emits_runE [OF emits_inspect_node] by blast
  let ?dec = "upgrade_decision ?rules f cn c n name v True before"
  have refused: "\<not> gd_allowed ?dec" using fail by (simp add: upgrade_decision_def gate_allowed)
  have k: "recorded (upgrade_entry cn name) (upgrade_decided E sampler ?rules f c n v max_lag force
      True before ?dec) w1 = (res, w')"
    using assms(4) unfolding execute_upgrade_def assms(3) option.case prod.case Let_def
    by (simp only: bind_io_run i)
  with refused have r: "recorded (upgrade_entry cn name) (ret (UpgradeGated ?dec before)) w1 = (res, w')"
    by (simp add: upgrade_decided_def)
  have "gd_reasons d = ''dry-run: the following checks would block execution'' # failures ?checks"
    using fail by (simp add: d gate_def Let_def failures_def failures_Nil [symmetric])
  then have "set (tl (gd_reasons d)) \<subseteq> set (gd_reasons ?dec)"
    by (simp add: upgrade_decision_def gate_reasons_execute failures_append)
  with recorded_ret_result [OF r] refused show ?thesis by blast
qed

theorem plan_upgrade_predicts_witness:
  "\<exists>dec before. fst (execute_upgrade idle_env default_policy (default_sampler idle_env)
      one_node_fleet ''rpc1'' ''4.1.0'' True 2 False fresh_world) = Inr (UpgradeGated dec before)"
proof -
  obtain res w' where r: "execute_upgrade idle_env default_policy (default_sampler idle_env)
      one_node_fleet ''rpc1'' ''4.1.0'' True 2 False fresh_world = (res, w')" by fastforce
  let ?d = "gate ''upgrade'' ''mainnet'' ''rpc1'' False (upgrade_plan mainnet rpc1 ''4.1.0'')
      (upgrade_checks ''mainnet'' mainnet rpc1 default_rules ''4.1.0'' None)"
  have p: "plan_upgrade default_policy one_node_fleet ''rpc1'' ''4.1.0'' =
      Planned ?d ''4.1.0'' upgrade_note"
    by (simp add: plan_upgrade_def one_node_find for_cluster_def default_policy_def cluster_builder_def)
      (simp add: mainnet_def)
  have "\<not> gd_allowed ?d" by (simp add: gate_allowed upgrade_checks_def Let_def)
  from plan_upgrade_predicts [OF p this one_node_find r] r show ?thesis by auto
qed

text \<open>
  C28. The check of the reported version is a prefix test, after leading \<open>v\<close>s: the target
  \<open>4.1.1\<close> is thus confirmed by a node that reports \<open>4.1.10\<close>, and a bare \<open>v\<close> by any version.
\<close>

theorem version_check_is_prefix:
  "version_matches (Some r) t =
     (r \<noteq> [] \<and> (\<exists>x. lstrip_char CHR ''v'' r = lstrip_char CHR ''v'' t @ x))
   \<and> version_matches (Some ''4.1.10'') ''4.1.1'' \<and> version_matches (Some ''3.0.0'') ''v''"
proof (intro conjI)
  show "version_matches (Some r) t =
     (r \<noteq> [] \<and> (\<exists>x. lstrip_char CHR ''v'' r = lstrip_char CHR ''v'' t @ x))"
    by (auto simp: version_matches_def Let_def startswith_iff)
qed (simp_all add: version_matches_def lstrip_char_def)

end
