(* ===== verification/Dns_Override.thy ===== *)
theory Dns_Override
  imports Watch_Rounds Restart
begin

text \<open>
  The manual DNS operations of \<open>operations.py\<close>: the status of the pools, and the gated eject and
  restore of one node, on any driver.
\<close>

section \<open>Pools and status\<close>

definition pools_for_node :: "fleet \<Rightarrow> string \<Rightarrow> string option \<Rightarrow> pool list" where
  "pools_for_node f node_name rec =
     (case fl_dns f of
        None \<Rightarrow> []
      | Some dns \<Rightarrow>
          let pools = filter (\<lambda>p. node_name \<in> set (pl_members p)) (dn_pools dns)
          in if truthy rec then filter (\<lambda>p. Some (pl_record p) = rec) pools else pools)"

record pool_status =
  ps_record :: string
  ps_cluster :: string
  ps_ttl :: int
  ps_marker :: bool
  ps_members :: "(string \<times> string) list"
  ps_configured :: "string list"

definition ip_to_name :: "fleet \<Rightarrow> (string, string) dict" where
  "ip_to_name f =
     dict_of_pairs (concat (map (\<lambda>(_, c). map (\<lambda>n. (host n, n_name n)) (cl_nodes c)) (fl_clusters f)))"

fun pool_statuses ::
  "'d dns_ops \<Rightarrow> (string, string) dict \<Rightarrow> string option \<Rightarrow> pool list \<Rightarrow> ('d, pool_status list) drv" where
  "pool_statuses ops names rec [] d = (Inr [], d)"
| "pool_statuses ops names rec (p # ps) d =
     (if truthy rec \<and> Some (pl_record p) \<noteq> rec then pool_statuses ops names rec ps d
      else (case list_members ops (pl_record p) d of
              (Inl e, d1) \<Rightarrow> (Inl e, d1)
            | (Inr ips, d1) \<Rightarrow>
                (case has_marker ops (pl_record p) d1 of
                   (Inl e, d2) \<Rightarrow> (Inl e, d2)
                 | (Inr marker, d2) \<Rightarrow>
                     (case pool_statuses ops names rec ps d2 of
                        (Inl e, d3) \<Rightarrow> (Inl e, d3)
                      | (Inr rest, d3) \<Rightarrow>
                          (Inr (\<lparr>ps_record = pl_record p, ps_cluster = pl_cluster p,
                             ps_ttl = pl_ttl p, ps_marker = marker,
                             ps_members = map (\<lambda>ip. (ip,
                               case dict_get names ip of None \<Rightarrow> ''?'' | Some nm \<Rightarrow> nm)) ips,
                             ps_configured = pl_members p\<rparr> # rest), d3)))))"

text \<open>The note is there when no pools are configured.\<close>

definition dns_status ::
  "fleet \<Rightarrow> 'd dns_ops \<Rightarrow> string option \<Rightarrow> ('d, pool_status list \<times> string option) drv" where
  "dns_status f ops rec d =
     (case fl_dns f of
        None \<Rightarrow> (Inr ([], Some ''no dns pools configured''), d)
      | Some dns \<Rightarrow>
          if dn_pools dns = [] then (Inr ([], Some ''no dns pools configured''), d)
          else (case pool_statuses ops (ip_to_name f) rec (dn_pools dns) d of
                  (Inl e, d1) \<Rightarrow> (Inl e, d1)
                | (Inr ss, d1) \<Rightarrow> (Inr (ss, None), d1)))"

section \<open>Overrides\<close>

datatype override = Eject | Restore

definition override_name :: "override \<Rightarrow> string" where
  "override_name a = (case a of Eject \<Rightarrow> ''eject'' | Restore \<Rightarrow> ''restore'')"

record override_entry =
  ov_record :: string
  ov_decision :: gate_decision
  ov_members_now :: "string list option"

datatype override_result =
    OverrideError string
  | Overridden override string "override_entry list"

definition override_plan :: "override \<Rightarrow> string \<Rightarrow> string \<Rightarrow> pool \<Rightarrow> string list" where
  "override_plan a ip node_name p =
     (case a of
        Eject \<Rightarrow> [''remove '' @ ip @ '' ('' @ node_name @ '') from '' @ pl_record p]
      | Restore \<Rightarrow> [''add '' @ ip @ '' ('' @ node_name @ '') to '' @ pl_record p])"

definition would_empty :: "string \<Rightarrow> string set \<Rightarrow> bool" where
  "would_empty ip current \<longleftrightarrow> current - {ip} = {} \<and> ip \<in> current"

definition override_checks :: "override \<Rightarrow> string \<Rightarrow> pool \<Rightarrow> string set \<Rightarrow> (bool \<times> string) list" where
  "override_checks a ip p current =
     (case a of
        Eject \<Rightarrow> [(\<not> would_empty ip current,
          ''refusing to eject: '' @ ip @ '' is the last record in '' @ pl_record p
            @ '' (would cause NXDOMAIN)'')]
      | Restore \<Rightarrow> [(True, [])])"

text \<open>Past the gate: mark the record, change it, and read it again\<close>

definition override_apply :: "'d dns_ops \<Rightarrow> override \<Rightarrow> string \<Rightarrow> pool \<Rightarrow> ('d, string list) drv" where
  "override_apply ops a ip p d =
     (case ensure_marker ops (pl_record p) d of
        (Inl e, d1) \<Rightarrow> (Inl e, d1)
      | (Inr _, d1) \<Rightarrow>
          (case (case a of
                   Eject \<Rightarrow> remove_member ops (pl_record p) ip d1
                 | Restore \<Rightarrow> add_member ops (pl_record p) ip (pl_ttl p) d1) of
             (Inl e, d2) \<Rightarrow> (Inl e, d2)
           | (Inr _, d2) \<Rightarrow> list_members ops (pl_record p) d2))"

definition override_audit :: "override \<Rightarrow> string \<Rightarrow> string \<Rightarrow> pool \<Rightarrow> gate_decision \<Rightarrow> audit_entry" where
  "override_audit a ip node_name p decision =
     entry_of (''dns_'' @ override_name a) (pl_cluster p) (pl_record p) (gd_mode decision)
       (gd_allowed decision) (JObj
         [(''ip'', JStr ip), (''node'', JStr node_name), (''plan'', json_strs (gd_plan decision)),
          (''reasons'', json_strs (gd_reasons decision))])"

definition override_pool ::
  "'d dns_ops \<Rightarrow> override \<Rightarrow> string \<Rightarrow> string \<Rightarrow> bool \<Rightarrow> pool \<Rightarrow> 'd watch_state \<Rightarrow>
   (exn + override_entry) \<times> 'd watch_state" where
  "override_pool ops a ip node_name confirm p = (\<lambda>(d, al).
     (case list_members ops (pl_record p) d of
        (Inl e, d1) \<Rightarrow> (Inl e, d1, al)
      | (Inr listed, d1) \<Rightarrow>
          let decision = gate (''dns_'' @ override_name a) (pl_cluster p) (pl_record p) confirm
                (override_plan a ip node_name p) (override_checks a ip p (set listed));
              al1 = map_option (audit_put (override_audit a ip node_name p decision)) al
          in if confirm \<and> gd_allowed decision then
               (case override_apply ops a ip p d1 of
                  (Inl e, d2) \<Rightarrow> (Inl e, d2, al)
                | (Inr now, d2) \<Rightarrow>
                    (Inr \<lparr>ov_record = pl_record p, ov_decision = decision,
                          ov_members_now = Some now\<rparr>, d2, al1))
             else (Inr \<lparr>ov_record = pl_record p, ov_decision = decision,
                        ov_members_now = None\<rparr>, d1, al1)))"

fun override_pools ::
  "'d dns_ops \<Rightarrow> override \<Rightarrow> string \<Rightarrow> string \<Rightarrow> bool \<Rightarrow> pool list \<Rightarrow> 'd watch_state \<Rightarrow>
   (exn + override_entry list) \<times> 'd watch_state" where
  "override_pools ops a ip node_name confirm [] s = (Inr [], s)"
| "override_pools ops a ip node_name confirm (p # ps) s =
     (case override_pool ops a ip node_name confirm p s of
        (Inl e, s1) \<Rightarrow> (Inl e, s1)
      | (Inr entry, s1) \<Rightarrow>
          (case override_pools ops a ip node_name confirm ps s1 of
             (Inl e, s2) \<Rightarrow> (Inl e, s2)
           | (Inr entries, s2) \<Rightarrow> (Inr (entry # entries), s2)))"

definition dns_override ::
  "fleet \<Rightarrow> 'd dns_ops \<Rightarrow> string \<Rightarrow> override \<Rightarrow> string option \<Rightarrow> bool \<Rightarrow> 'd watch_state \<Rightarrow>
   (exn + override_result) \<times> 'd watch_state" where
  "dns_override f ops node_name a rec confirm s =
     (case find_node f node_name of
        None \<Rightarrow> (Inr (OverrideError (unknown_node node_name)), s)
      | Some (_, _, n) \<Rightarrow>
          let pools = pools_for_node f node_name rec
          in if pools = [] then
               (Inr (OverrideError (''node '' @ py_repr node_name @ '' is not a member of any DNS pool''
                  @ (if truthy rec then '' matching record '' @ py_repr (the rec) else []))), s)
             else (case override_pools ops a (host n) node_name confirm pools s of
                     (Inl e, s1) \<Rightarrow> (Inl e, s1)
                   | (Inr entries, s1) \<Rightarrow> (Inr (Overridden a node_name entries), s1)))"

definition dns_eject ::
  "fleet \<Rightarrow> 'd dns_ops \<Rightarrow> string \<Rightarrow> string option \<Rightarrow> bool \<Rightarrow> 'd watch_state \<Rightarrow>
   (exn + override_result) \<times> 'd watch_state" where
  "dns_eject f ops node_name rec confirm = dns_override f ops node_name Eject rec confirm"

definition dns_restore ::
  "fleet \<Rightarrow> 'd dns_ops \<Rightarrow> string \<Rightarrow> string option \<Rightarrow> bool \<Rightarrow> 'd watch_state \<Rightarrow>
   (exn + override_result) \<times> 'd watch_state" where
  "dns_restore f ops node_name rec confirm = dns_override f ops node_name Restore rec confirm"

section \<open>What an override does to the addresses\<close>

text \<open>The abstract override of one record, and of the pools one after the other\<close>

definition overridden :: "override \<Rightarrow> string \<Rightarrow> string set \<Rightarrow> string set" where
  "overridden a ip cur =
     (case a of Eject \<Rightarrow> if cur = {ip} then cur else cur - {ip} | Restore \<Rightarrow> insert ip cur)"

lemma would_empty_iff: "would_empty ip cur \<longleftrightarrow> cur = {ip}"
  by (auto simp: would_empty_def)

fun override_all ::
  "override \<Rightarrow> string \<Rightarrow> pool list \<Rightarrow> (string \<Rightarrow> string set) \<Rightarrow> (string \<Rightarrow> string set)" where
  "override_all a ip [] M = M"
| "override_all a ip (p # ps) M =
     override_all a ip ps (M(pl_record p := overridden a ip (M (pl_record p))))"

lemma overridden_nonempty: "cur \<noteq> {} \<Longrightarrow> overridden a ip cur \<noteq> {}"
  by (cases a) (auto simp: overridden_def)

lemma override_allowed:
  "gd_allowed (gate op c nm confirm plan (override_checks a ip p cur)) \<longleftrightarrow>
   a = Restore \<or> \<not> would_empty ip cur"
  by (cases a) (auto simp: gate_allowed override_checks_def)

context dns_driver begin

lemma override_apply_result:
  assumes ok: "ok d" and run: "override_apply ops a ip p d = (res, d')"
  shows "ok d' \<and>
    (members d' = members d \<or> members d' = (members d)(pl_record p :=
       (case a of Eject \<Rightarrow> members d (pl_record p) - {ip} | Restore \<Rightarrow> insert ip (members d (pl_record p)))))
    \<and> (isl res \<or> members d' = (members d)(pl_record p :=
       (case a of Eject \<Rightarrow> members d (pl_record p) - {ip} | Restore \<Rightarrow> insert ip (members d (pl_record p)))))"
proof -
  let ?r = "pl_record p"
  obtain r1 d1 where e: "ensure_marker ops ?r d = (r1, d1)" by fastforce
  note e_res = ensure_marker_result [OF ok e]
  show ?thesis
  proof (cases r1)
    case (Inl x)
    with e e_res run show ?thesis by (auto simp: override_apply_def)
  next
    case (Inr u)
    obtain r2 d2 where c: "(case a of Eject \<Rightarrow> remove_member ops ?r ip d1
        | Restore \<Rightarrow> add_member ops ?r ip (pl_ttl p) d1) = (r2, d2)" by fastforce
    have c_res: "ok d2 \<and> may_apply r2 (members d) ((members d)(?r :=
       (case a of Eject \<Rightarrow> members d ?r - {ip} | Restore \<Rightarrow> insert ip (members d ?r)))) (members d2)"
      using c e_res remove_result [of d1 ?r ip r2 d2] add_result [of d1 ?r ip "pl_ttl p" r2 d2]
      by (cases a; cases r2) auto
    show ?thesis
    proof (cases r2)
      case (Inl x)
      with e Inr c c_res run show ?thesis by (auto simp: override_apply_def may_apply_def)
    next
      case r2: (Inr v)
      with e Inr c run have l: "list_members ops ?r d2 = (res, d')" by (simp add: override_apply_def)
      with list_keeps [of d2 ?r res d'] c_res r2 show ?thesis by simp
    qed
  qed
qed

end

context dns_driver begin

lemma override_pool_result:
  assumes ok: "ok d" and run: "override_pool ops a ip nm confirm p (d, al) = (res, d', al')"
  shows "ok d' \<and>
    (members d' = members d \<or>
     confirm \<and> members d' = (members d)(pl_record p := overridden a ip (members d (pl_record p))))
    \<and> (isl res \<or> \<not> confirm \<or>
       members d' = (members d)(pl_record p := overridden a ip (members d (pl_record p))))"
proof -
  obtain lres d1 where l: "list_members ops (pl_record p) d = (lres, d1)" by fastforce
  show ?thesis
  proof (cases lres)
    case (Inl e)
    with l run list_keeps [OF ok l] show ?thesis by (auto simp: override_pool_def)
  next
    case (Inr listed)
    note m = list_members_result [OF ok l [unfolded Inr]]
    let ?cur = "members d (pl_record p)"
    show ?thesis
    proof (cases "confirm \<and> (a = Restore \<or> \<not> would_empty ip ?cur)")
      case False
      then have "\<not> confirm \<or> overridden a ip ?cur = ?cur" by (cases a) (auto simp: overridden_def would_empty_iff)
      moreover have "d' = d1" "\<not> isl res"
        using run l Inr False m by (auto simp: override_pool_def Let_def override_allowed)
      ultimately show ?thesis using m by auto
    next
      case True
      obtain r2 d2 where ap: "override_apply ops a ip p d1 = (r2, d2)" by fastforce
      have d': "d' = d2" "isl res = isl r2"
        using run l Inr True m ap
        by (auto simp: override_pool_def Let_def override_allowed split: sum.splits)
      have "(case a of Eject \<Rightarrow> ?cur - {ip} | Restore \<Rightarrow> insert ip ?cur) = overridden a ip ?cur"
        using True by (cases a) (auto simp: overridden_def would_empty_iff)
      with override_apply_result [OF m(1) ap, unfolded m(2)] d' True show ?thesis by auto
    qed
  qed
qed

lemma override_pools_result:
  assumes "ok d" and "override_pools ops a ip nm confirm ps (d, al) = (res, d', al')"
  shows "ok d' \<and> (\<not> confirm \<longrightarrow> members d' = members d)
    \<and> (isl res \<or> \<not> confirm \<or> members d' = override_all a ip ps (members d))
    \<and> (\<forall>r. members d r \<noteq> {} \<longrightarrow> members d' r \<noteq> {})
    \<and> (\<forall>r. r \<notin> pl_record ` set ps \<longrightarrow> members d' r = members d r)"
  using assms
proof (induction ps arbitrary: d al res d' al')
  case (Cons p ps)
  obtain r1 d1 al1 where w: "override_pool ops a ip nm confirm p (d, al) = (r1, d1, al1)"
    by (metis prod_cases3)
  note p_res = override_pool_result [OF Cons.prems(1) w]
  have ne: "members d r \<noteq> {} \<Longrightarrow> members d1 r \<noteq> {}" for r
    using p_res overridden_nonempty [of "members d (pl_record p)" a ip]
    by (cases "r = pl_record p") auto
  have frame: "r \<noteq> pl_record p \<Longrightarrow> members d1 r = members d r" for r
    using p_res by auto
  show ?case
  proof (cases r1)
    case (Inl e)
    with Cons.prems(2) w p_res ne frame show ?thesis by auto
  next
    case (Inr entry)
    obtain r2 d2 al2 where ws: "override_pools ops a ip nm confirm ps (d1, al1) = (r2, d2, al2)"
      by (metis prod_cases3)
    from p_res have "ok d1" by blast
    note IH = Cons.IH [OF this ws]
    have d': "d' = d2" "isl res = isl r2"
      using Cons.prems(2) w Inr ws by (auto split: sum.splits)
    from IH p_res Inr ne frame d' show ?thesis by (auto simp: fun_upd_def)
  qed
qed simp

end

lemma override_pool_entries:
  assumes "override_pool ops a ip nm confirm p (d, Some l) = (Inr entry, d', al')"
  shows "\<exists>l'. al' = Some l' \<and> audit_entries l' = audit_entries l
    @ [override_audit a ip nm p (ov_decision entry)] \<and> ov_record entry = pl_record p"
  using assms
  by (auto simp: override_pool_def Let_def audit_entries_put split: prod.splits sum.splits if_splits)

lemma override_pools_entries:
  "override_pools ops a ip nm confirm ps (d, Some l) = (Inr entries, d', al') \<Longrightarrow>
   \<exists>l'. al' = Some l' \<and> audit_entries l' = audit_entries l
     @ map2 (\<lambda>p e. override_audit a ip nm p (ov_decision e)) ps entries
     \<and> map ov_record entries = map pl_record ps"
proof (induction ps arbitrary: d l entries)
  case (Cons p ps)
  obtain r1 d1 al1 where w: "override_pool ops a ip nm confirm p (d, Some l) = (r1, d1, al1)"
    by (metis prod_cases3)
  with Cons.prems obtain entry where r1: "r1 = Inr entry" by (cases r1) auto
  from override_pool_entries [OF w [unfolded r1]] obtain l1 where
    l1: "al1 = Some l1" "audit_entries l1 = audit_entries l
      @ [override_audit a ip nm p (ov_decision entry)]" "ov_record entry = pl_record p" by blast
  from Cons.prems w r1 l1 obtain rest where
    "override_pools ops a ip nm confirm ps (d1, Some l1) = (Inr rest, d', al')" "entries = entry # rest"
    by (auto split: prod.splits sum.splits)
  with Cons.IH l1 show ?case by fastforce
qed auto

section \<open>Properties\<close>

text \<open>
  C28. A manual override, in any outcome: a dry run changes no record; an eject or restore never
  leaves a record empty that was not, also when the driver raises half way; records of no pool
  of the node keep their addresses; and a confirmed override that returns has done to the
  node's pools exactly what the abstract override says: the address is gone from every pool it
  was not the last address of, or is in every pool.
\<close>

theorem dns_override_refines:
  assumes "dns_driver ops members marked ok" and "ok d"
    and "find_node f name = Some (cn, c, n)"
    and "dns_override f ops name a rec confirm (d, al) = (res, d', al')"
  shows "(if confirm then isl res \<or>
        members d' = override_all a (host n) (pools_for_node f name rec) (members d)
      else members d' = members d)
    \<and> {r. members d' r = {}} \<subseteq> {r. members d r = {}}
    \<and> {r. members d' r \<noteq> members d r} \<subseteq> pl_record ` set (pools_for_node f name rec)"
proof (cases "pools_for_node f name rec = []")
  case True
  with assms(3,4) show ?thesis by (auto simp: dns_override_def)
next
  case False
  obtain r1 d1 al1 where w: "override_pools ops a (host n) name confirm
      (pools_for_node f name rec) (d, al) = (r1, d1, al1)" by (metis prod_cases3)
  with False assms(3,4) have d': "d' = d1" "isl r1 = isl res"
    by (auto simp: dns_override_def Let_def split: sum.splits)
  note o = dns_driver.override_pools_result [OF assms(1,2) w]
  have "if confirm then isl res \<or>
        members d' = override_all a (host n) (pools_for_node f name rec) (members d)
      else members d' = members d" using o d' by (cases confirm) simp_all
  moreover have "{r. members d' r = {}} \<subseteq> {r. members d r = {}}" using o d' by blast
  moreover have "{r. members d' r \<noteq> members d r} \<subseteq> pl_record ` set (pools_for_node f name rec)"
    using o d' by blast
  ultimately show ?thesis by blast
qed

lemma two_node_find: "find_node two_node_fleet ''rpc2'' =
    Some (''mainnet'', snd (hd (fl_clusters two_node_fleet)),
      basic_node ''rpc2'' Rpc ''10.0.0.2'' (Some ''u2'') None)"
  by (simp add: find_node_def two_node_fleet_def basic_node_def)

theorem dns_override_refines_witness:
  "\<exists>d'. fst (snd (dns_override two_node_fleet inmem_ops ''rpc2'' Restore None False (serving_rpc1, None)))
     = d' \<and> im_get d' = im_get serving_rpc1"
proof -
  obtain res d' al' where w: "dns_override two_node_fleet inmem_ops ''rpc2'' Restore None False
      (serving_rpc1, None) = (res, d', al')" by (metis prod_cases3)
  from dns_override_refines [OF inmem.dns_driver_axioms serving_rpc1_ok two_node_find w] w
  show ?thesis by simp
qed

text \<open>
  An override that returns has recorded one audit entry per pool of the node, in the order
  of the pools, each with the mode and the verdict of that pool's decision; a dry run and a
  refusal are recorded like an execution.
\<close>

theorem dns_override_audited:
  assumes "dns_override f ops name a rec confirm (d, Some l) = (Inr (Overridden a' name' entries), d', al')"
    and "find_node f name = Some (cn, c, n)"
  shows "\<exists>l'. al' = Some l' \<and> audit_entries l' = audit_entries l
      @ map2 (\<lambda>p e. override_audit a (host n) name p (ov_decision e)) (pools_for_node f name rec) entries
    \<and> map ov_record entries = map pl_record (pools_for_node f name rec)"
proof -
  from assms have "override_pools ops a (host n) name confirm (pools_for_node f name rec) (d, Some l) =
      (Inr entries, d', al')"
    by (auto simp: dns_override_def Let_def split: if_splits sum.splits prod.splits)
  from override_pools_entries [OF this] show ?thesis .
qed

theorem dns_override_audited_witness:
  "\<exists>l'. snd (snd (dns_override two_node_fleet inmem_ops ''rpc2'' Restore None False
      (serving_rpc1, Some (audit_init (\<lambda>_. ''t''))))) = Some l' \<and> length (audit_entries l') = 1"
proof -
  have p: "pools_for_node two_node_fleet ''rpc2'' None = [two_node_pool]"
    by (simp add: pools_for_node_def two_node_fleet_def two_node_pool_def)
  have l: "list_members inmem_ops r d = (Inr (py_sorted (im_get d r)), d)" for r d
    by (simp add: inmem_ops_def im_list_members_def)
  obtain entries d' al' where w: "dns_override two_node_fleet inmem_ops ''rpc2'' Restore None False
      (serving_rpc1, Some (audit_init (\<lambda>_. ''t''))) =
        (Inr (Overridden Restore ''rpc2'' entries), d', al')"
    by (simp add: dns_override_def two_node_find p override_pool_def l Let_def)
  from dns_override_audited [OF w two_node_find] w show ?thesis
    by (cases entries) (auto simp: p audit_entries_def audit_init_def)
qed

end
