(* ===== verification/Provision.thy ===== *)
theory Provision
  imports Upgrade
begin

text \<open>
  Provisioning of a bare host (\<open>provision.py\<close>): the systemd unit, the stages with the checks of
  each, and \<open>provision_node\<close>, which runs them behind the gate. The shell text of a command is
  built as in the source; what a shell makes of it is the environment's answer.
\<close>

section \<open>The unit\<close>

definition fs_name :: "fs \<Rightarrow> string" where
  "fs_name f = (case f of Ext4 \<Rightarrow> ''ext4'' | Xfs \<Rightarrow> ''xfs'' | Tmpfs \<Rightarrow> ''tmpfs'')"

definition opt_arg :: "bool \<Rightarrow> string \<Rightarrow> string list" where
  "opt_arg b s = (if b then [s] else [])"

definition known_validators :: "cluster \<Rightarrow> string list" where
  "known_validators c = (case cl_network c of None \<Rightarrow> [] | Some net \<Rightarrow> net_known_validators net)"

definition entrypoints :: "cluster \<Rightarrow> string list" where
  "entrypoints c = (case cl_network c of None \<Rightarrow> [] | Some net \<Rightarrow> net_entrypoints net)"

definition genesis_hash :: "cluster \<Rightarrow> string option" where
  "genesis_hash c = (case cl_network c of None \<Rightarrow> None | Some net \<Rightarrow> net_expected_genesis_hash net)"

text \<open>\<open>--no-voting\<close>, or the vote account when one is configured\<close>

definition voting_args :: "node \<Rightarrow> string list" where
  "voting_args n =
     (if lc_no_voting (n_launch n) then [''--no-voting'']
      else if truthy (svc_vote_account_keypair (n_service n))
      then [''--vote-account '' @ the (svc_vote_account_keypair (n_service n))] else [])"

definition unit_args :: "node \<Rightarrow> cluster \<Rightarrow> string list" where
  "unit_args n c =
     (let svc = n_service n; lc = n_launch n in
      [svc_binary svc, ''--identity '' @ svc_identity_keypair svc]
      @ map (\<lambda>kv. ''--known-validator '' @ kv) (known_validators c)
      @ [''--rpc-port '' @ show_int (lc_rpc_port lc),
         ''--rpc-bind-address '' @ lc_rpc_bind_address lc]
      @ map (\<lambda>ep. ''--entrypoint '' @ ep) (entrypoints c)
      @ opt_arg (truthy (genesis_hash c)) (''--expected-genesis-hash '' @ the (genesis_hash c))
      @ [''--wal-recovery-mode skip_any_corrupted_record'']
      @ (case lc_limit_ledger_size lc of
           None \<Rightarrow> [] | Some k \<Rightarrow> [''--limit-ledger-size '' @ show_int k])
      @ [''--ledger '' @ svc_ledger svc, ''--accounts '' @ svc_accounts svc]
      @ (if lc_enable_rpc_tx_history lc
         then [''--enable-rpc-transaction-history'', ''--enable-extended-tx-metadata-storage'']
         else [])
      @ opt_arg (lc_private_rpc lc) ''--private-rpc''
      @ opt_arg (lc_full_rpc_api lc) ''--full-rpc-api''
      @ opt_arg (truthy (svc_geyser_config svc))
          (''--geyser-plugin-config '' @ the (svc_geyser_config svc))
      @ voting_args n
      @ lc_extra_args lc
      @ [''--log -''])"

definition render_unit :: "node \<Rightarrow> cluster \<Rightarrow> string" where
  "render_unit n c =
     concat (map (\<lambda>line. line @ newline)
       [''[Unit]'',
        ''Description=Solana validator ('' @ n_name n @ '')'',
        ''After=network-online.target'',
        ''Wants=network-online.target'',
        [],
        ''[Service]'',
        ''Type=simple'',
        ''User='' @ svc_run_user (n_service n),
        ''Group='' @ svc_run_user (n_service n),
        ''LimitNOFILE='' @ show_int (st_open_files (n_system n)),
        ''Restart=always'',
        ''RestartSec=1'',
        ''ExecStart='' @ join ('' '' @ [backslash] @ newline @ ''  '') (unit_args n c),
        [],
        ''[Install]'',
        ''WantedBy=multi-user.target''])"

section \<open>Preflight\<close>

definition gib :: int where
  "gib = 1024 ^ 3"

definition provision_min_ram_gib :: int where
  "provision_min_ram_gib = 8"

definition provision_min_cores :: int where
  "provision_min_cores = 8"

definition preflight_command :: string where
  "preflight_command =
     (let field = (\<lambda>k v. ''printf '' @ quoted (k @ ''=%s'' @ bs_n) @ '' '' @ dquoted v @ ''; '') in
      field ''os'' ''$(. /etc/os-release 2>/dev/null; echo $ID$VERSION_ID)''
      @ field ''arch'' ''$(uname -m)''
      @ field ''cores'' ''$(nproc)''
      @ ''free -b | awk '' @ quoted (''/^Mem:/{print '' @ dquoted ''ram='' @ ''$2}'') @ ''; ''
      @ ''printf '' @ quoted (''root=%s'' @ bs_n) @ '' '' @ dquoted ''$(id -u)'')"

definition preflight_checks :: "bool \<Rightarrow> (string, string) dict \<Rightarrow> (bool \<times> string) list" where
  "preflight_checks reachable info =
     (let cores = int_field info ''cores''; ram = int_field info ''ram'' in
      [(reachable, ''host not reachable over SSH''),
       (dict_get info ''arch'' = Some ''x86_64'',
        ''unsupported arch '' @ show_opt py_repr (dict_get info ''arch'') @ '' (need x86_64)''),
       (or_zero cores \<ge> provision_min_cores,
        ''only '' @ show_opt show_int cores @ '' cores (want >= '' @ show_int provision_min_cores @ '')''),
       (or_zero ram \<ge> provision_min_ram_gib * gib,
        ''only '' @ show_tenths (of_int (or_zero ram) / of_int gib) @ '' GiB RAM (want >= ''
          @ show_int provision_min_ram_gib @ '')'')])"

record preflight_report =
  pf_info :: "(string, string) dict"
  pf_checks :: "(bool \<times> string) list"
  pf_blockers :: "string list"

definition preflight :: "env \<Rightarrow> node \<Rightarrow> preflight_report io" where
  "preflight E n =
     bind_io (run E n preflight_command) (\<lambda>r.
       let info = parse_kv (stdout r); checks = preflight_checks (cr_ok r) info
       in ret \<lparr>pf_info = info, pf_checks = checks, pf_blockers = failures checks\<rparr>)"

definition preflight_json :: "preflight_report \<Rightarrow> json" where
  "preflight_json p = JObj
     [(''info'', JObj (map (\<lambda>(k, v). (k, JStr v)) (pf_info p))),
      (''checks'', JList (map (\<lambda>(b, msg). JObj [(''ok'', JBool b), (''detail'', JStr msg)])
         (pf_checks p))),
      (''blockers'', json_strs (pf_blockers p))]"

section \<open>User and tuning\<close>

definition ensure_user_command :: "node \<Rightarrow> string" where
  "ensure_user_command n =
     (let user = svc_run_user (n_service n)
      in ''id -u '' @ user @ '' >/dev/null 2>&1 || useradd --system --create-home ''
         @ ''--shell /usr/sbin/nologin '' @ user)"

definition ensure_user :: "env \<Rightarrow> node \<Rightarrow> step_report io" where
  "ensure_user E n = bind_io (run E n (ensure_user_command n)) (\<lambda>r.
     ret (step_of ''ensure_user'' [(''user'', JStr (svc_run_user (n_service n)))] r))"

definition sysctl_lines :: "node \<Rightarrow> string" where
  "sysctl_lines n =
     join newline (map (\<lambda>(k, v). k @ '' = '' @ show_int v) (st_sysctl (n_system n)))"

definition limits_command :: "node \<Rightarrow> string" where
  "limits_command n =
     (let files = show_int (st_open_files (n_system n)); user = quoted (svc_run_user (n_service n))
      in ''printf '' @ quoted (''%s soft nofile '' @ files @ bs_n @ ''%s hard nofile '' @ files @ bs_n)
         @ '' '' @ user @ '' '' @ user @ '' > /etc/security/limits.d/90-solfleet.conf'')"

definition governor_command :: "string \<Rightarrow> string" where
  "governor_command g =
     ''for g in /sys/devices/system/cpu/cpu*/cpufreq/scaling_governor; do ''
     @ ''[ -w '' @ dquoted ''$g'' @ '' ] && echo '' @ g @ '' > '' @ dquoted ''$g'' @ '' || true; done''"

definition apply_system_command :: "node \<Rightarrow> string" where
  "apply_system_command n =
     join '' && ''
       ([''install -d -m 755 /etc/sysctl.d /etc/security/limits.d'',
         ''printf '' @ quoted (''%s'' @ bs_n) @ '' '' @ quoted (sysctl_lines n)
           @ '' > /etc/sysctl.d/21-solfleet.conf'',
         ''sysctl --system >/dev/null'',
         limits_command n]
        @ (if truthy (st_cpu_governor (n_system n))
           then [governor_command (the (st_cpu_governor (n_system n)))] else []))"

definition apply_system :: "env \<Rightarrow> node \<Rightarrow> step_report io" where
  "apply_system E n = bind_io (run E n (apply_system_command n)) (\<lambda>r.
     ret (step_of ''apply_system''
       [(''open_files'', JInt (st_open_files (n_system n))),
        (''sysctl_keys'', json_strs (dict_keys (st_sysctl (n_system n)))),
        (''governor'', str_json (st_cpu_governor (n_system n)))] r))"

section \<open>Disks\<close>

text \<open>How the set up of one disk can end\<close>

datatype disk_outcome =
    TmpfsMounted command_result
  | NotAcknowledged
  | NotEmpty string
  | MkfsFailed command_result
  | Mounted bool bool command_result

definition mount_commands :: "node \<Rightarrow> disk_config \<Rightarrow> string list" where
  "mount_commands n d =
     (let user = svc_run_user (n_service n) in
      [''mountpoint -q '' @ dk_mount d @ '' || mount '' @ dk_mount d,
       ''chown '' @ user @ '':'' @ user @ '' '' @ dk_mount d])"

definition tmpfs_size :: "disk_config \<Rightarrow> string" where
  "tmpfs_size d =
     (case dk_size_gb d of
        Some k \<Rightarrow> if k \<noteq> 0 then ''size='' @ show_int k @ ''G'' else ''size=50%''
      | None \<Rightarrow> ''size=50%'')"

definition tmpfs_command :: "node \<Rightarrow> disk_config \<Rightarrow> string" where
  "tmpfs_command n d =
     join '' && ''
       ([''mkdir -p '' @ dk_mount d,
         ''grep -q '' @ quoted ('' '' @ dk_mount d @ '' '') @ '' /etc/fstab || echo ''
           @ quoted (''tmpfs '' @ dk_mount d @ '' tmpfs '' @ tmpfs_size d @ '' 0 0'')
           @ '' >> /etc/fstab'']
        @ mount_commands n d)"

definition disk_probe_command :: "disk_config \<Rightarrow> string" where
  "disk_probe_command d =
     ''lsblk -no FSTYPE '' @ dk_device d @ '' 2>/dev/null; findmnt -nro TARGET '' @ dk_device d
     @ '' 2>/dev/null''"

definition mkfs_command :: "disk_config \<Rightarrow> string" where
  "mkfs_command d = ''mkfs.'' @ fs_name (dk_fs d) @ '' -q '' @ dk_device d"

definition block_mount_command :: "node \<Rightarrow> disk_config \<Rightarrow> string" where
  "block_mount_command n d =
     join '' && ''
       ([''mkdir -p '' @ dk_mount d,
         ''uuid=$(blkid -s UUID -o value '' @ dk_device d @ '') && (grep -q '' @ dquoted ''$uuid''
           @ '' /etc/fstab || echo ''
           @ dquoted (''UUID=$uuid '' @ dk_mount d @ '' '' @ fs_name (dk_fs d)
               @ '' defaults,noatime 0 2'') @ '' >> /etc/fstab)'']
        @ mount_commands n d)"

definition block_mount ::
  "env \<Rightarrow> node \<Rightarrow> disk_config \<Rightarrow> bool \<Rightarrow> bool \<Rightarrow> disk_outcome io" where
  "block_mount E n d formatted was_empty =
     bind_io (run E n (block_mount_command n d)) (\<lambda>r. ret (Mounted formatted was_empty r))"

definition setup_disk :: "env \<Rightarrow> node \<Rightarrow> disk_config \<Rightarrow> string set \<Rightarrow> disk_outcome io" where
  "setup_disk E n d allow_format =
     (if dk_fs d = Tmpfs then
        bind_io (run E n (tmpfs_command n d)) (\<lambda>r. ret (TmpfsMounted r))
      else
        bind_io (run E n (disk_probe_command d)) (\<lambda>probe.
        let existing = strip (stdout probe); was_empty = (existing = []) in
        if dk_format d then
          (if dk_device d \<notin> allow_format then ret NotAcknowledged
           else if \<not> was_empty then ret (NotEmpty existing)
           else bind_io (run E n (mkfs_command d)) (\<lambda>mkfs.
                  if \<not> cr_ok mkfs then ret (MkfsFailed mkfs)
                  else block_mount E n d True was_empty))
        else block_mount E n d False was_empty))"

definition disk_ok :: "disk_outcome \<Rightarrow> bool" where
  "disk_ok out = (case out of TmpfsMounted r \<Rightarrow> cr_ok r | Mounted _ _ r \<Rightarrow> cr_ok r | _ \<Rightarrow> False)"

text \<open>The dict \<open>setup_disk\<close> returns\<close>

definition disk_step :: "disk_config \<Rightarrow> disk_outcome \<Rightarrow> step_report" where
  "disk_step d out =
     (let mount = (''mount'', JStr (dk_mount d));
          refused = (\<lambda>e. \<lparr>sp_action = ''setup_disk'', sp_fields = [mount], sp_ok = False,
             sp_error = Some e\<rparr>)
      in case out of
           TmpfsMounted r \<Rightarrow> step_of ''setup_disk''
             [mount, (''fs'', JStr ''tmpfs''), (''formatted'', JBool False)] r
         | NotAcknowledged \<Rightarrow> refused (''format requested but '' @ dk_device d
             @ '' not acknowledged (pass --format-device to allow)'')
         | NotEmpty existing \<Rightarrow> refused (''refusing to format '' @ dk_device d
             @ '': not empty/unmounted ('' @ py_repr existing @ '')'')
         | MkfsFailed r \<Rightarrow> refused (''mkfs failed: ''
             @ or_else (strip (stderr r)) (show_int (exit_code r)))
         | Mounted formatted was_empty r \<Rightarrow> step_of ''setup_disk''
             [mount, (''device'', JStr (dk_device d)), (''fs'', JStr (fs_name (dk_fs d))),
              (''formatted'', JBool formatted), (''was_empty'', JBool was_empty)] r)"

section \<open>Unit and keys\<close>

definition unit_path :: "node \<Rightarrow> string" where
  "unit_path n = ''/etc/systemd/system/'' @ svc_unit (n_service n) @ ''.service''"

definition install_unit_command :: "node \<Rightarrow> string \<Rightarrow> string" where
  "install_unit_command n unit_text =
     ''install -d -m 755 /etc/solana-validator; cat > '' @ unit_path n @ ''.solfleet-new <<''
     @ quoted ''SOLFLEET_UNIT'' @ newline @ unit_text @ newline @ ''SOLFLEET_UNIT'' @ newline
     @ ''mv -f '' @ unit_path n @ ''.solfleet-new '' @ unit_path n
     @ '' && systemctl daemon-reload && systemctl enable '' @ svc_unit (n_service n)
     @ '' >/dev/null 2>&1 || true''"

definition install_unit :: "env \<Rightarrow> node \<Rightarrow> string \<Rightarrow> step_report io" where
  "install_unit E n unit_text = bind_io (run E n (install_unit_command n unit_text)) (\<lambda>r.
     ret (step_of ''install_unit'' [(''path'', JStr (unit_path n))] r))"

record key_report =
  kr_action :: string
  kr_path :: "string option"
  kr_present :: bool
  kr_note :: "string option"

definition key_json :: "key_report \<Rightarrow> json" where
  "key_json k = JObj
     ([(''action'', JStr (kr_action k)), (''path'', str_json (kr_path k)),
       (''present'', JBool (kr_present k))]
      @ (case kr_note k of None \<Rightarrow> [] | Some s \<Rightarrow> [(''note'', JStr s)]))"

definition key_command :: "string \<Rightarrow> string" where
  "key_command path = ''test -f '' @ path @ '' && echo present || echo missing''"

definition key_present :: "command_result \<Rightarrow> bool" where
  "key_present r \<longleftrightarrow> cr_ok r \<and> strip (stdout r) = ''present''"

definition check_identity_key :: "env \<Rightarrow> node \<Rightarrow> key_report io" where
  "check_identity_key E n =
     (let path = svc_identity_keypair (n_service n) in
      bind_io (run E n (key_command path)) (\<lambda>r.
      ret \<lparr>kr_action = ''check_identity_key'', kr_path = Some path, kr_present = key_present r,
           kr_note = Some ''solfleet never creates keys; place the identity keypair here''\<rparr>))"

definition is_voting :: "node \<Rightarrow> bool" where
  "is_voting n \<longleftrightarrow> n_role n = Validator \<and> \<not> lc_no_voting (n_launch n)"

definition check_vote_key :: "env \<Rightarrow> node \<Rightarrow> key_report io" where
  "check_vote_key E n =
     (let path = svc_vote_account_keypair (n_service n) in
      if \<not> truthy path then
        ret \<lparr>kr_action = ''check_vote_key'', kr_path = None, kr_present = False,
             kr_note = Some ''voting node has no service.vote_account_keypair set''\<rparr>
      else bind_io (run E n (key_command (the path))) (\<lambda>r.
        ret \<lparr>kr_action = ''check_vote_key'', kr_path = path, kr_present = key_present r,
             kr_note = None\<rparr>))"

section \<open>The plan and the steps\<close>

definition provision_plan :: "node \<Rightarrow> cluster \<Rightarrow> string \<Rightarrow> string list" where
  "provision_plan n c target_version =
     (let inst = cl_install c; svc = n_service n in
      [''preflight '' @ n_name n @ '' (OS / arch / cores / RAM / root)'',
       ''create user '' @ svc_run_user svc,
       ''apply system tuning (open_files='' @ show_int (st_open_files (n_system n))
         @ '', sysctl, governor)'']
      @ map (\<lambda>d. ''setup disk '' @ dk_device d @ '' -> '' @ dk_mount d @ '' (format=''
               @ show_bool (dk_format d) @ '')'') (n_disks n)
      @ [''build '' @ (case inst of None \<Rightarrow> ''agave'' | Some i \<Rightarrow> source_name (in_source i)) @ '' ''
           @ target_version @ '' on builder '' @ show_opt py_repr (install_builder inst),
         ''distribute + place agave binary'' @ (if builds_geyser inst then '' + geyser .so'' else []),
         ''install systemd unit '' @ svc_unit svc @ ''.service'',
         ''verify identity keypair at '' @ svc_identity_keypair svc,
         ''start '' @ svc_unit svc @ '' and wait for catch-up''])"

text \<open>The dict \<open>steps\<close>, whose keys appear as the stages are reached\<close>

record provision_steps =
  pv_user :: step_report
  pv_system :: step_report
  pv_disks :: "(disk_config \<times> disk_outcome) list"
  pv_build :: "build_result option"
  pv_dist :: "dist_report option"
  pv_swap :: "step_report option"
  pv_unit :: "step_report option"
  pv_identity :: "key_report option"
  pv_vote :: "key_report option"
  pv_start :: "step_report option"
  pv_catchup :: "catchup option"

definition provision_check_list ::
  "fleet \<Rightarrow> cluster \<Rightarrow> preflight_report \<Rightarrow> (bool \<times> string) list" where
  "provision_check_list f c pre =
     [(pf_blockers pre = [], ''preflight blockers: '' @ join ''; '' (pf_blockers pre)),
      (install_builder (cl_install c) \<noteq> None,
       ''cluster has no install.builder (provision installs software)''),
      (cluster_builder f c \<noteq> None,
       ''builder '' @ show_opt py_repr (install_builder (cl_install c)) @ '' not found in fleet'')]"

section \<open>The operation\<close>

text \<open>The steps, whether it succeeded, and the note: the arguments of \<open>finish\<close>\<close>

type_synonym provision_end = "provision_steps \<times> bool \<times> string option"

definition provision_start ::
  "env \<Rightarrow> sampler \<Rightarrow> cluster \<Rightarrow> node \<Rightarrow> int \<Rightarrow> int \<Rightarrow> provision_steps \<Rightarrow> provision_end io" where
  "provision_start E sampler c n max_lag timeout_s st =
     bind_io (start_service E n) (\<lambda>start.
     bind_io (await_catchup sampler n (cl_reference_rpc c) max_lag timeout_s) (\<lambda>catch.
     ret (st\<lparr>pv_start := Some start, pv_catchup := Some catch\<rparr>,
       sp_ok (pv_user st) \<and> sp_ok (pv_system st) \<and> list_all (\<lambda>(_, d). disk_ok d) (pv_disks st) \<and>
       sp_ok (the (pv_swap st)) \<and> sp_ok (the (pv_unit st)) \<and> sp_ok start \<and> cu_caught_up catch,
       None)))"

definition vote_missing_note :: string where
  "vote_missing_note = ''voting node: vote-account keypair missing; create+fund ''
     @ ''the vote account, place the keypair, and re-run''"

definition provision_keys ::
  "env \<Rightarrow> sampler \<Rightarrow> cluster \<Rightarrow> node \<Rightarrow> int \<Rightarrow> int \<Rightarrow> provision_steps \<Rightarrow> provision_end io" where
  "provision_keys E sampler c n max_lag timeout_s st =
     bind_io (check_identity_key E n) (\<lambda>ident.
     let st1 = st\<lparr>pv_identity := Some ident\<rparr> in
     if \<not> kr_present ident then
       ret (st1, False, Some ''identity keypair missing; place it on the host and re-run'')
     else if is_voting n then
       bind_io (check_vote_key E n) (\<lambda>vote.
       let st2 = st1\<lparr>pv_vote := Some vote\<rparr> in
       if \<not> kr_present vote then
         ret (st2, False, Some vote_missing_note)
       else provision_start E sampler c n max_lag timeout_s st2)
     else provision_start E sampler c n max_lag timeout_s st1)"

definition provision_install ::
  "env \<Rightarrow> sampler \<Rightarrow> cluster \<Rightarrow> node \<Rightarrow> builder_host \<Rightarrow> install_config \<Rightarrow> string \<Rightarrow> int \<Rightarrow> int \<Rightarrow>
   provision_steps \<Rightarrow> provision_end io" where
  "provision_install E sampler c n b i target_version max_lag timeout_s st =
     bind_io (build_artifacts E b i target_version False) (\<lambda>build.
     let st1 = st\<lparr>pv_build := Some build\<rparr> in
     if \<not> br_ok build then ret (st1, False, None)
     else
       bind_io (distribute E b n (br_artifacts build)) (\<lambda>di.
       let st2 = st1\<lparr>pv_dist := Some di\<rparr> in
       if \<not> di_ok di then ret (st2, False, Some ''artifact distribution/verification failed'')
       else
         bind_io (atomic_swap E n (swaps_of di)) (\<lambda>sw.
         bind_io (install_unit E n (render_unit n c)) (\<lambda>unit_step.
         provision_keys E sampler c n max_lag timeout_s
           (st2\<lparr>pv_swap := Some sw, pv_unit := Some unit_step\<rparr>)))))"

definition provision_execute ::
  "env \<Rightarrow> sampler \<Rightarrow> cluster \<Rightarrow> node \<Rightarrow> builder_host \<Rightarrow> install_config \<Rightarrow> string \<Rightarrow> string set \<Rightarrow>
   int \<Rightarrow> int \<Rightarrow> provision_end io" where
  "provision_execute E sampler c n b i target_version allow_format max_lag timeout_s =
     bind_io (ensure_user E n) (\<lambda>user.
     bind_io (apply_system E n) (\<lambda>system.
     bind_io (for_each (\<lambda>d. bind_io (setup_disk E n d allow_format) (\<lambda>out. ret (d, out)))
                (n_disks n)) (\<lambda>disks.
     let st = \<lparr>pv_user = user, pv_system = system, pv_disks = disks, pv_build = None, pv_dist = None,
               pv_swap = None, pv_unit = None, pv_identity = None, pv_vote = None,
               pv_start = None, pv_catchup = None\<rparr>
     in if \<not> list_all (\<lambda>(_, d). disk_ok d) disks then
          ret (st, False, Some ''disk setup failed; not installing software'')
        else provision_install E sampler c n b i target_version max_lag timeout_s st)))"

datatype provision_result =
    ProvisionUnknown string
  | ProvisionGated gate_decision preflight_report
  | ProvisionDone gate_decision provision_end

definition opt_field :: "string \<Rightarrow> ('a \<Rightarrow> json) \<Rightarrow> 'a option \<Rightarrow> (string \<times> json) list" where
  "opt_field k f x = (case x of None \<Rightarrow> [] | Some v \<Rightarrow> [(k, f v)])"

definition steps_json :: "provision_steps \<Rightarrow> json" where
  "steps_json st = JObj
     ([(''user'', step_json (pv_user st)), (''system'', step_json (pv_system st)),
       (''disks'', JList (map (\<lambda>(d, out). step_json (disk_step d out)) (pv_disks st)))]
      @ opt_field ''build'' (\<lambda>b. JObj [(''ok'', JBool (br_ok b)), (''cached'', JBool (br_cached b)),
           (''error'', str_json (br_error b))]) (pv_build st)
      @ opt_field ''distribute'' (\<lambda>d. JObj [(''ok'', JBool (di_ok d)),
           (''artifacts'', JList (map dist_entry_json (di_artifacts d)))]) (pv_dist st)
      @ opt_field ''swap'' step_json (pv_swap st)
      @ opt_field ''unit'' step_json (pv_unit st)
      @ opt_field ''identity'' key_json (pv_identity st)
      @ opt_field ''vote_key'' key_json (pv_vote st)
      @ opt_field ''start'' step_json (pv_start st)
      @ opt_field ''catchup'' catchup_json (pv_catchup st))"

definition provision_entry :: "string \<Rightarrow> string \<Rightarrow> provision_result \<Rightarrow> audit_entry" where
  "provision_entry cn node_name r =
     (case r of
        ProvisionUnknown e \<Rightarrow> entry_of [] [] [] [] False JNull
      | ProvisionGated d pre \<Rightarrow>
          entry_of ''provision'' cn node_name (gd_mode d) (gd_allowed d) (JObj
            [(''plan'', json_strs (gd_plan d)), (''reasons'', json_strs (gd_reasons d)),
             (''preflight'', preflight_json pre)])
      | ProvisionDone d (st, succeeded, note) \<Rightarrow>
          entry_of ''provision'' cn node_name ''execute'' True (JObj
            ([(''decision'', decision_json d), (''steps'', steps_json st),
              (''succeeded'', JBool succeeded)] @ opt_field ''note'' JStr note)))"

definition provision_decided ::
  "env \<Rightarrow> sampler \<Rightarrow> fleet \<Rightarrow> cluster \<Rightarrow> node \<Rightarrow> string \<Rightarrow> bool \<Rightarrow> string set \<Rightarrow> int \<Rightarrow> int \<Rightarrow>
   preflight_report \<Rightarrow> gate_decision \<Rightarrow> provision_result io" where
  "provision_decided E sampler f c n target_version confirm allow_format max_lag timeout_s pre decision =
     (if \<not> confirm \<or> \<not> gd_allowed decision then ret (ProvisionGated decision pre)
      else bind_io (provision_execute E sampler c n (the (cluster_builder f c)) (the (cl_install c))
                      target_version allow_format max_lag timeout_s)
             (\<lambda>r. ret (ProvisionDone decision r)))"

definition provision_node ::
  "env \<Rightarrow> sampler \<Rightarrow> fleet \<Rightarrow> string \<Rightarrow> string \<Rightarrow> bool \<Rightarrow> string set \<Rightarrow> int \<Rightarrow> int \<Rightarrow>
   provision_result io" where
  "provision_node E sampler f node_name target_version confirm allow_format max_lag timeout_s =
     (case find_node f node_name of
        None \<Rightarrow> ret (ProvisionUnknown (unknown_node node_name))
      | Some (cn, c, n) \<Rightarrow>
          bind_io (preflight E n) (\<lambda>pre.
          recorded (provision_entry cn node_name)
            (provision_decided E sampler f c n target_version confirm allow_format max_lag timeout_s pre
               (gate ''provision'' cn node_name confirm (provision_plan n c target_version)
                  (provision_check_list f c pre)))))"

section \<open>What the stages run\<close>

definition disk_commands :: "node \<Rightarrow> disk_config \<Rightarrow> disk_outcome \<Rightarrow> string list" where
  "disk_commands n d out =
     (case out of
        TmpfsMounted _ \<Rightarrow> [tmpfs_command n d]
      | NotAcknowledged \<Rightarrow> [disk_probe_command d]
      | NotEmpty _ \<Rightarrow> [disk_probe_command d]
      | MkfsFailed _ \<Rightarrow> [disk_probe_command d, mkfs_command d]
      | Mounted formatted _ _ \<Rightarrow> [disk_probe_command d]
          @ (if formatted then [mkfs_command d] else []) @ [block_mount_command n d])"

text \<open>The outcomes in which a file system was made, or tried\<close>

definition formats :: "disk_outcome \<Rightarrow> bool" where
  "formats out = (case out of MkfsFailed _ \<Rightarrow> True | Mounted formatted _ _ \<Rightarrow> formatted | _ \<Rightarrow> False)"

definition may_format :: "env \<Rightarrow> node \<Rightarrow> disk_config \<Rightarrow> string set \<Rightarrow> world \<Rightarrow> bool" where
  "may_format E n d allow_format w \<longleftrightarrow>
     dk_fs d \<noteq> Tmpfs \<and> dk_format d \<and> dk_device d \<in> allow_format \<and>
     strip (stdout (env_run E (trace w) (ssh_argv n (disk_probe_command d)))) = []"

lemma run_result: "run E t c w = (Inr (env_run E (trace w) (ssh_argv t c)), w\<lparr>trace := trace w @ [on_host t c]\<rparr>)"
  by (simp add: run_def run_argv_def emit_def on_host_def)

lemma setup_disk_run:
  "\<exists>out w'. setup_disk E n d allow_format w = (Inr out, w') \<and> audit w' = audit w \<and>
     trace w' = trace w @ map (on_host n) (disk_commands n d out) \<and>
     (formats out = (may_format E n d allow_format w))"
  by (simp add: setup_disk_def block_mount_def bind_io_def run_result ret_def disk_commands_def
      formats_def may_format_def Let_def)

text \<open>A file system is made only on a device the configuration and the operator both name\<close>

definition acknowledged :: "string set \<Rightarrow> disk_config \<times> disk_outcome \<Rightarrow> bool" where
  "acknowledged allow_format = (\<lambda>(d, out). formats out \<longrightarrow>
     dk_fs d \<noteq> Tmpfs \<and> dk_format d \<and> dk_device d \<in> allow_format)"

lemma disks_run:
  "\<exists>outs w'. for_each (\<lambda>d. bind_io (setup_disk E n d allow_format) (\<lambda>out. ret (d, out))) ds w =
       (Inr outs, w') \<and> audit w' = audit w \<and> map fst outs = ds \<and>
     list_all (acknowledged allow_format) outs \<and>
     trace w' = trace w @ map (on_host n) (concat (map (\<lambda>(d, out). disk_commands n d out) outs))"
proof (induction ds arbitrary: w)
  case (Cons d ds)
  from setup_disk_run [of E n d allow_format w] obtain out w1 where s:
    "setup_disk E n d allow_format w = (Inr out, w1)" "audit w1 = audit w"
    "trace w1 = trace w @ map (on_host n) (disk_commands n d out)"
    "acknowledged allow_format (d, out)" by (auto simp: may_format_def acknowledged_def)
  from Cons.IH [of w1] obtain outs w2 where
    "for_each (\<lambda>d. bind_io (setup_disk E n d allow_format) (\<lambda>out. ret (d, out))) ds w1 = (Inr outs, w2)"
    "audit w2 = audit w1" "map fst outs = ds" "list_all (acknowledged allow_format) outs"
    "trace w2 = trace w1 @ map (on_host n) (concat (map (\<lambda>(d, out). disk_commands n d out) outs))"
    by blast
  with s show ?case by (simp add: bind_io_def ret_def)
qed (simp add: ret_def)

definition vote_commands :: "node \<Rightarrow> string list" where
  "vote_commands n = (if truthy (svc_vote_account_keypair (n_service n))
     then [key_command (the (svc_vote_account_keypair (n_service n)))] else [])"

lemma emits_identity: "emits [on_host n (key_command (svc_identity_keypair (n_service n)))]
    (check_identity_key E n)"
  by (simp add: check_identity_key_def Let_def emits_bind_ret emits_run)

lemma emits_vote: "emits (map (on_host n) (vote_commands n)) (check_vote_key E n)"
  by (simp add: check_vote_key_def vote_commands_def Let_def emits_ret emits_bind_ret emits_run)

lemma emits_user: "emits [on_host n (ensure_user_command n)] (ensure_user E n)"
  by (simp add: ensure_user_def emits_bind_ret emits_run)

lemma emits_system: "emits [on_host n (apply_system_command n)] (apply_system E n)"
  by (simp add: apply_system_def emits_bind_ret emits_run)

lemma emits_unit: "emits [on_host n (install_unit_command n u)] (install_unit E n u)"
  by (simp add: install_unit_def emits_bind_ret emits_run)

lemma emits_preflight: "emits [on_host n preflight_command] (preflight E n)"
  by (simp add: preflight_def Let_def emits_bind_ret emits_run)

section \<open>What provisioning runs\<close>

definition start_argvs :: "node \<Rightarrow> provision_steps \<Rightarrow> string list list" where
  "start_argvs n st = (if pv_start st = None then [] else host_argvs n [systemctl n ''start''])"

definition key_argvs :: "node \<Rightarrow> provision_steps \<Rightarrow> string list list" where
  "key_argvs n st =
     (if pv_identity st = None then []
      else host_argvs n [key_command (svc_identity_keypair (n_service n))])
     @ (if pv_vote st = None then [] else host_argvs n (vote_commands n))"

definition install_argvs ::
  "node \<Rightarrow> cluster \<Rightarrow> builder_host \<Rightarrow> install_config \<Rightarrow> string \<Rightarrow> nat \<Rightarrow> provision_steps \<Rightarrow>
   string list list" where
  "install_argvs n c b i version k st =
     (case pv_build st of
        None \<Rightarrow> []
      | Some build \<Rightarrow>
          host_argvs b (build_trace i version False (br_cached build) k (br_ok build))
          @ (case pv_dist st of
               None \<Rightarrow> []
             | Some di \<Rightarrow> concat (map (dist_argvs b n (di_staging di)) (br_artifacts build)))
          @ (if pv_swap st = None then []
             else host_argvs n [swap_command (full_swaps n (br_artifacts build)),
                    install_unit_command n (render_unit n c)]))"

definition provision_argvs ::
  "node \<Rightarrow> cluster \<Rightarrow> builder_host \<Rightarrow> install_config \<Rightarrow> string \<Rightarrow> nat \<Rightarrow> provision_steps \<Rightarrow>
   string list list" where
  "provision_argvs n c b i version k st =
     host_argvs n ([ensure_user_command n, apply_system_command n]
       @ concat (map (\<lambda>(d, out). disk_commands n d out) (pv_disks st)))
     @ install_argvs n c b i version k st @ key_argvs n st @ start_argvs n st"

text \<open>The order of the stages: each is reached only when what it needs has succeeded\<close>

definition start_ready :: "node \<Rightarrow> provision_steps \<Rightarrow> bool" where
  "start_ready n st \<longleftrightarrow>
     (\<exists>k. pv_identity st = Some k \<and> kr_present k) \<and>
     (is_voting n \<longrightarrow> (\<exists>k. pv_vote st = Some k \<and> kr_present k))"

definition keys_ordered :: "node \<Rightarrow> provision_steps \<Rightarrow> bool" where
  "keys_ordered n st \<longleftrightarrow> (pv_start st \<noteq> None \<longrightarrow> start_ready n st) \<and>
     (pv_vote st \<noteq> None \<longrightarrow> is_voting n \<and> (\<exists>k. pv_identity st = Some k \<and> kr_present k))"

definition install_ordered :: "node \<Rightarrow> provision_steps \<Rightarrow> bool" where
  "install_ordered n st \<longleftrightarrow>
     (pv_dist st \<noteq> None \<longrightarrow> (\<exists>build. pv_build st = Some build \<and> br_ok build)) \<and>
     (pv_swap st \<noteq> None \<longrightarrow> (\<exists>di. pv_dist st = Some di \<and> di_ok di)) \<and>
     (pv_identity st \<noteq> None \<longrightarrow> pv_swap st \<noteq> None) \<and>
     keys_ordered n st"

definition stages_ordered :: "node \<Rightarrow> provision_steps \<Rightarrow> bool" where
  "stages_ordered n st \<longleftrightarrow>
     map fst (pv_disks st) = n_disks n \<and>
     (pv_build st \<noteq> None \<longrightarrow> list_all (\<lambda>(_, d). disk_ok d) (pv_disks st)) \<and>
     install_ordered n st"

text \<open>What the reports of the build and the distribution say of them\<close>

definition install_faithful :: "node \<Rightarrow> install_config \<Rightarrow> string \<Rightarrow> nat \<Rightarrow> provision_steps \<Rightarrow> bool" where
  "install_faithful n i version k st \<longleftrightarrow>
     (case pv_build st of None \<Rightarrow> True
      | Some build \<Rightarrow> build_faithful i version False k build \<and>
          (case pv_dist st of None \<Rightarrow> True
           | Some di \<Rightarrow> list_all2 (entry_for n) (br_artifacts build) (di_artifacts di) \<and>
               di_ok di = list_all entry_good (di_artifacts di)))"

text \<open>An exception can only come out of the wait, after the start.\<close>

definition ended :: "provision_steps \<Rightarrow> exn + provision_end \<Rightarrow> bool" where
  "ended st res = (case res of Inl _ \<Rightarrow> pv_start st \<noteq> None | Inr (st', _) \<Rightarrow> st' = st)"

text \<open>
  \<open>stage cs st w res w'\<close>: from \<open>w\<close> to \<open>w'\<close> exactly the commands \<open>cs\<close> were run, nothing was
  recorded, and the result carries the steps \<open>st\<close>
\<close>

definition stage ::
  "string list list \<Rightarrow> provision_steps \<Rightarrow> world \<Rightarrow> exn + provision_end \<Rightarrow> world \<Rightarrow> bool" where
  "stage cs st w res w' \<longleftrightarrow>
     (\<exists>es. trace w' = trace w @ es \<and> audit w' = audit w \<and> commands es = cs \<and> ended st res)"

lemma stage_after:
  assumes "trace w1 = trace w @ es" and "audit w1 = audit w" and "stage cs st w1 res w'"
  shows "stage (commands es @ cs) st w res w'"
  using assms unfolding stage_def by (metis append.assoc commands_simps(6))

lemma stage_ret: "ret (st, x) w = (res, w') \<Longrightarrow> stage [] st w res w'"
  by (auto simp: ret_def stage_def ended_def)

text \<open>When the gate lets a provisioning through\<close>

definition provision_goes :: "fleet \<Rightarrow> cluster \<Rightarrow> bool \<Rightarrow> preflight_report \<Rightarrow> bool" where
  "provision_goes f c confirm pre \<longleftrightarrow> confirm \<and> pf_blockers pre = [] \<and>
     install_builder (cl_install c) \<noteq> None \<and> cluster_builder f c \<noteq> None"

lemma provision_gate:
  "(confirm \<and> gd_allowed (gate ''provision'' cn name confirm plan (provision_check_list f c pre))) =
   provision_goes f c confirm pre"
  by (auto simp: gate_allowed provision_check_list_def provision_goes_def)

lemma provision_goes_builder:
  assumes "provision_goes f c confirm pre"
  obtains i b where "cl_install c = Some i" "cluster_builder f c = Some b"
  using assms by (auto simp: provision_goes_def cluster_builder_def split: option.splits)

context quiet_sampler begin

lemma provision_start_run:
  assumes "provision_start E sampler c n max_lag timeout_s st w = (res, w')"
  shows "\<exists>s cu. stage (host_argvs n [systemctl n ''start'']) (st\<lparr>pv_start := Some s, pv_catchup := cu\<rparr>)
    w res w'"
proof -
  obtain s w1 where s: "start_service E n w = (Inr s, w1)"
    "trace w1 = trace w @ [on_host n (systemctl n ''start'')]" "audit w1 = audit w"
    using emits_runE [OF emits_start] by blast
  let ?fin = "\<lambda>catch. ret (st\<lparr>pv_start := Some s, pv_catchup := Some catch\<rparr>,
       sp_ok (pv_user st) \<and> sp_ok (pv_system st) \<and> list_all (\<lambda>(_, d). disk_ok d) (pv_disks st) \<and>
       sp_ok (the (pv_swap st)) \<and> sp_ok (the (pv_unit st)) \<and> sp_ok s \<and> cu_caught_up catch,
       None)"
  have k: "bind_io (await_catchup sampler n (cl_reference_rpc c) max_lag timeout_s) ?fin w1 = (res, w')"
    using assms by (simp add: provision_start_def bind_io_run s(1))
  have start: "commands [on_host n (systemctl n ''start'')] = host_argvs n [systemctl n ''start'']"
    using commands_on_host [of n "[systemctl n ''start'']"] by simp
  have ex: "\<exists>cu. stage [] (st\<lparr>pv_start := Some s, pv_catchup := cu\<rparr>) w1 res w'"
  proof (cases rule: doing_bindE [OF doing_await k])
    case (1 e es)
    then have "stage [] (st\<lparr>pv_start := Some s, pv_catchup := None\<rparr>) w1 res w'"
      by (auto simp: stage_def ended_def)
    then show ?thesis ..
  next
    case (2 cu w2 es)
    from stage_after [OF 2(3,4) stage_ret [OF 2(2)]] 2(5) show ?thesis by auto
  qed
  then obtain cu where "stage [] (st\<lparr>pv_start := Some s, pv_catchup := cu\<rparr>) w1 res w'" ..
  from stage_after [OF s(2,3) this, unfolded start append_Nil2] show ?thesis by blast
qed

text \<open>Setting a step to \<open>None\<close> that was not there changes nothing.\<close>

lemma unset_steps:
  "pv_identity st = None \<Longrightarrow> st\<lparr>pv_identity := None\<rparr> = st"
  "pv_vote st = None \<Longrightarrow> st\<lparr>pv_vote := None\<rparr> = st"
  "pv_start st = None \<Longrightarrow> st\<lparr>pv_start := None\<rparr> = st"
  "pv_catchup st = None \<Longrightarrow> st\<lparr>pv_catchup := None\<rparr> = st"
  by (cases st; simp)+

lemma provision_keys_run:
  assumes "provision_keys E sampler c n max_lag timeout_s st0 w = (res, w')"
    and none: "pv_identity st0 = None" "pv_vote st0 = None" "pv_start st0 = None" "pv_catchup st0 = None"
  shows "\<exists>ident vote start catch. let st = st0\<lparr>pv_identity := ident, pv_vote := vote,
      pv_start := start, pv_catchup := catch\<rparr> in
    stage (key_argvs n st @ start_argvs n st) st w res w' \<and> keys_ordered n st"
proof -
  let ?k = "key_command (svc_identity_keypair (n_service n))"
  note ordered = Let_def key_argvs_def start_argvs_def keys_ordered_def start_ready_def
  obtain i w1 where i: "check_identity_key E n w = (Inr i, w1)"
    "trace w1 = trace w @ [on_host n ?k]" "audit w1 = audit w"
    using emits_runE [OF emits_identity] by blast
  have c1: "commands [on_host n ?k] = host_argvs n [?k]"
    using commands_on_host [of n "[?k]"] by simp
  note after1 = stage_after [OF i(2,3), unfolded c1]
  let ?st1 = "st0\<lparr>pv_identity := Some i\<rparr>"
  have run1: "(if \<not> kr_present i then ret (?st1, False, Some ''identity keypair missing; place it on the host and re-run'')
     else if is_voting n then bind_io (check_vote_key E n) (\<lambda>vote.
         if \<not> kr_present vote then ret (?st1\<lparr>pv_vote := Some vote\<rparr>, False, Some (vote_missing_note))
         else provision_start E sampler c n max_lag timeout_s (?st1\<lparr>pv_vote := Some vote\<rparr>))
     else provision_start E sampler c n max_lag timeout_s ?st1) w1 = (res, w')"
    using assms(1) by (simp only: provision_keys_def Let_def bind_io_run(1) i(1))
  show ?thesis
  proof (cases "kr_present i")
    case False
    with run1 obtain msg where "ret (?st1, False, msg) w1 = (res, w')" by auto
    from after1 [OF stage_ret [OF this]] show ?thesis
      by (intro exI [of _ "Some i"] exI [of _ None])
        (simp add: unset_steps none ordered)
  next
    case present: True
    show ?thesis
    proof (cases "is_voting n")
      case False
      with run1 present have "provision_start E sampler c n max_lag timeout_s ?st1 w1 = (res, w')"
        by simp
      from provision_start_run [OF this] obtain s cu where
        "stage (host_argvs n [systemctl n ''start''])
           (?st1\<lparr>pv_start := Some s, pv_catchup := cu\<rparr>) w1 res w'" by blast
      from after1 [OF this] False present show ?thesis
        by (intro exI [of _ "Some i"] exI [of _ None] exI [of _ "Some s"] exI [of _ cu])
          (simp add: unset_steps none ordered)
    next
      case voting: True
      obtain v w2 where v: "check_vote_key E n w1 = (Inr v, w2)"
        "trace w2 = trace w1 @ map (on_host n) (vote_commands n)" "audit w2 = audit w1"
        using emits_runE [OF emits_vote] by blast
      note after2 = after1 [OF stage_after [OF v(2,3), unfolded commands_on_host]]
      let ?st2 = "?st1\<lparr>pv_vote := Some v\<rparr>"
      have run2: "(if \<not> kr_present v then ret (?st2, False, Some vote_missing_note)
         else provision_start E sampler c n max_lag timeout_s ?st2) w2 = (res, w')"
        using run1 present voting by (simp only: if_True if_False not_True_eq_False bind_io_run(1) v(1))
      show ?thesis
      proof (cases "kr_present v")
        case False
        with run2 obtain msg where "ret (?st2, False, msg) w2 = (res, w')" by auto
        from after2 [OF stage_ret [OF this]] voting present show ?thesis
          by (intro exI [of _ "Some i"] exI [of _ "Some v"] exI [of _ None])
            (simp add: unset_steps none ordered)
      next
        case vp: True
        with run2 have "provision_start E sampler c n max_lag timeout_s ?st2 w2 = (res, w')" by simp
        from provision_start_run [OF this] obtain s cu where
          "stage (host_argvs n [systemctl n ''start''])
             (?st2\<lparr>pv_start := Some s, pv_catchup := cu\<rparr>) w2 res w'" by blast
        from after2 [OF this] voting present vp show ?thesis
          by (intro exI [of _ "Some i"] exI [of _ "Some v"] exI [of _ "Some s"] exI [of _ cu])
            (simp add: unset_steps none ordered)
      qed
    qed
  qed
qed

lemma provision_install_run:
  assumes "provision_install E sampler c n b i version max_lag timeout_s st0 w = (res, w')"
    and none: "pv_build st0 = None" "pv_dist st0 = None" "pv_swap st0 = None" "pv_unit st0 = None"
      "pv_identity st0 = None" "pv_vote st0 = None" "pv_start st0 = None" "pv_catchup st0 = None"
  shows "\<exists>k st. stage (install_argvs n c b i version k st @ key_argvs n st @ start_argvs n st) st w res w' \<and>
    pv_build st \<noteq> None \<and> pv_disks st = pv_disks st0 \<and> install_ordered n st \<and> install_faithful n i version k st"
proof -
  obtain build k w1 where bd: "build_artifacts E b i version False w = (Inr build, w1)"
    "trace w1 = trace w @ map (on_host b) (build_trace i version False (br_cached build) k (br_ok build))"
    "audit w1 = audit w" "build_faithful i version False k build" by (rule build_artifacts_run)
  obtain di w2 where di: "distribute E b n (br_artifacts build) w1 = (Inr di, w2)"
    "trace w2 = trace w1 @ MadeTempDir (di_staging di)
       # map Ran (concat (map (dist_argvs b n (di_staging di)) (br_artifacts build)))"
    "audit w2 = audit w1" "list_all2 (entry_for n) (br_artifacts build) (di_artifacts di)"
    "di_ok di = list_all entry_good (di_artifacts di)" by (rule distribute_run)
  let ?u = "render_unit n c"
  obtain sw w3 where sw: "atomic_swap E n (swaps_of di) w2 = (Inr sw, w3)"
    "trace w3 = trace w2 @ [on_host n (swap_command (swaps_of di))]" "audit w3 = audit w2"
    using emits_runE [OF emits_swap] by blast
  obtain un w4 where un: "install_unit E n ?u w3 = (Inr un, w4)"
    "trace w4 = trace w3 @ [on_host n (install_unit_command n ?u)]" "audit w4 = audit w3"
    using emits_runE [OF emits_unit] by blast
  let ?st1 = "st0\<lparr>pv_build := Some build\<rparr>"
  let ?st2 = "?st1\<lparr>pv_dist := Some di\<rparr>"
  let ?st3 = "?st2\<lparr>pv_swap := Some sw, pv_unit := Some un\<rparr>"
  have run: "(if \<not> br_ok build then ret (?st1, False, None) w1
    else if \<not> di_ok di then ret (?st2, False, Some ''artifact distribution/verification failed'') w2
    else provision_keys E sampler c n max_lag timeout_s ?st3 w4) = (res, w')"
    using assms(1) by (cases "br_ok build"; cases "di_ok di")
      (simp_all add: provision_install_def bind_io_run(1) bd(1) di(1) sw(1) un(1))
  note after1 = stage_after [OF bd(2,3), unfolded commands_on_host]
  note after2 = after1 [OF stage_after [OF di(2,3)], unfolded commands_simps commands_map_Ran]
  note ordered = install_ordered_def install_faithful_def install_argvs_def key_argvs_def
    start_argvs_def keys_ordered_def
  show ?thesis
  proof (cases "br_ok build \<and> di_ok di")
    case False
    show ?thesis
    proof (cases "br_ok build")
      case bad: False
      with run have "ret (?st1, False, None) w1 = (res, w')" by simp
      from after1 [OF stage_ret [OF this]] bad bd(4) show ?thesis
        by (intro exI [of _ k] exI [of _ ?st1]) (simp add: ordered none)
    next
      case good: True
      with run False obtain msg where "ret (?st2, False, msg) w2 = (res, w')" by auto
      from after2 [OF stage_ret [OF this]] good bd(4) di(4,5) show ?thesis
        by (intro exI [of _ k] exI [of _ ?st2]) (simp add: ordered none)
    qed
  next
    case ok: True
    with run have keys: "provision_keys E sampler c n max_lag timeout_s ?st3 w4 = (res, w')" by simp
    have sf: "swaps_of di = full_swaps n (br_artifacts build)"
      unfolding swaps_of_def using di(4,5) ok by (intro swaps_full) simp_all
    have hosts: "commands [on_host n (swap_command (swaps_of di))]
        @ commands [on_host n (install_unit_command n ?u)] @ xs =
        host_argvs n [swap_command (full_swaps n (br_artifacts build)), install_unit_command n ?u] @ xs"
      for xs
      by (simp add: sf on_host_def host_argvs_def)
    obtain ident vote start cat where st: "let st = ?st3\<lparr>pv_identity := ident, pv_vote := vote,
        pv_start := start, pv_catchup := cat\<rparr> in
      stage (key_argvs n st @ start_argvs n st) st w4 res w' \<and> keys_ordered n st"
      using provision_keys_run [OF keys] none by auto
    let ?st = "?st3\<lparr>pv_identity := ident, pv_vote := vote, pv_start := start, pv_catchup := cat\<rparr>"
    have s4: "stage (key_argvs n ?st @ start_argvs n ?st) ?st w4 res w'" and ko: "keys_ordered n ?st"
      using st by (simp_all only: Let_def)
    from after2 [OF stage_after [OF sw(2,3) stage_after [OF un(2,3) s4]]]
    have "stage (install_argvs n c b i version k ?st @ key_argvs n ?st @ start_argvs n ?st) ?st w res w'"
      using ok hosts by (simp add: install_argvs_def)
    with ok bd(4) di(4,5) ko show ?thesis
      by (intro exI [of _ k] exI [of _ ?st]) (simp add: install_ordered_def install_faithful_def)
  qed
qed

lemma provision_execute_run:
  assumes "provision_execute E sampler c n b i version allow_format max_lag timeout_s w = (res, w')"
  shows "\<exists>k st. stage (provision_argvs n c b i version k st) st w res w' \<and> stages_ordered n st \<and>
    install_faithful n i version k st \<and> list_all (acknowledged allow_format) (pv_disks st)"
proof -
  obtain u w1 where u: "ensure_user E n w = (Inr u, w1)"
    "trace w1 = trace w @ [on_host n (ensure_user_command n)]" "audit w1 = audit w"
    using emits_runE [OF emits_user] by blast
  obtain sy w2 where sy: "apply_system E n w1 = (Inr sy, w2)"
    "trace w2 = trace w1 @ [on_host n (apply_system_command n)]" "audit w2 = audit w1"
    using emits_runE [OF emits_system] by blast
  let ?ds = "for_each (\<lambda>d. bind_io (setup_disk E n d allow_format) (\<lambda>out. ret (d, out))) (n_disks n)"
  let ?dc = "\<lambda>outs. concat (map (\<lambda>(d, out). disk_commands n d out) outs)"
  obtain outs w3 where ds: "?ds w2 = (Inr outs, w3)" "audit w3 = audit w2" "map fst outs = n_disks n"
    "list_all (acknowledged allow_format) outs" "trace w3 = trace w2 @ map (on_host n) (?dc outs)"
    using disks_run [of E n allow_format "n_disks n" w2] by blast
  let ?st = "\<lparr>pv_user = u, pv_system = sy, pv_disks = outs, pv_build = None, pv_dist = None,
    pv_swap = None, pv_unit = None, pv_identity = None, pv_vote = None, pv_start = None,
    pv_catchup = None\<rparr>"
  have run: "(if \<not> list_all (\<lambda>(_, d). disk_ok d) outs
      then ret (?st, False, Some ''disk setup failed; not installing software'')
      else provision_install E sampler c n b i version max_lag timeout_s ?st) w3 = (res, w')"
    using assms by (simp only: provision_execute_def Let_def bind_io_run(1) u(1) sy(1) ds(1))
  have pre: "stage (host_argvs n ([ensure_user_command n, apply_system_command n] @ ?dc outs) @ cs)
      st w res w'" if "stage cs st w3 res w'" for cs st
    using stage_after [OF u(2,3) stage_after [OF sy(2,3) stage_after [OF ds(5,2) that]]]
    by (simp add: commands_on_host) (simp add: on_host_def host_argvs_def)
  show ?thesis
  proof (cases "list_all (\<lambda>(_, d). disk_ok d) outs")
    case False
    with run have "ret (?st, False, Some ''disk setup failed; not installing software'') w3 = (res, w')"
      by simp
    from pre [OF stage_ret [OF this]] ds(3,4) show ?thesis
      by (intro exI [of _ 0] exI [of _ ?st])
        (simp add: provision_argvs_def install_argvs_def key_argvs_def start_argvs_def
          stages_ordered_def install_ordered_def install_faithful_def keys_ordered_def)
  next
    case True
    with run have "provision_install E sampler c n b i version max_lag timeout_s ?st w3 = (res, w')"
      by simp
    from provision_install_run [OF this] obtain k st where
      st: "stage (install_argvs n c b i version k st @ key_argvs n st @ start_argvs n st) st w3 res w'"
      "pv_build st \<noteq> None" "pv_disks st = outs" "install_ordered n st" "install_faithful n i version k st"
      by auto
    from pre [OF st(1)] st(2-5) ds(3,4) True show ?thesis
      by (intro exI [of _ k] exI [of _ st]) (simp add: provision_argvs_def stages_ordered_def)
  qed
qed

lemma stage_recorded:
  assumes "recorded entry (bind_io m (\<lambda>r. ret (f r))) w = (res, w')"
    and "\<And>r w1. m w = (r, w1) \<Longrightarrow> stage cs st w r w1"
  shows "outcome cs entry w res w' \<and> (case res of Inl _ \<Rightarrow> pv_start st \<noteq> None
    | Inr x \<Rightarrow> \<exists>succeeded msg. x = f (st, succeeded, msg))"
proof -
  obtain r w1 where m: "m w = (r, w1)" by fastforce
  from assms(2) [OF m] obtain es where "trace w1 = trace w @ es" "audit w1 = audit w"
    "commands es = cs" "ended st r" unfolding stage_def by blast
  with m assms(1) show ?thesis
    by (cases r) (fastforce simp: recorded_def bind_io_def ret_def outcome_def ended_def)+
qed

lemma provision_node_outcome:
  assumes n: "find_node f name = Some (cn, c, n)"
    and run: "provision_node E sampler f name v confirm allow_format max_lag timeout_s w = (res, w')"
  obtains (gated) pre w1 dec where "preflight E n w = (Inr pre, w1)" "\<not> provision_goes f c confirm pre"
      "res = Inr (ProvisionGated dec pre)"
      "outcome (host_argvs n [preflight_command]) (provision_entry cn name) w res w'"
    | (went) pre w1 dec i b k st where "preflight E n w = (Inr pre, w1)" "provision_goes f c confirm pre"
      "cl_install c = Some i" "cluster_builder f c = Some b"
      "outcome (host_argvs n [preflight_command] @ provision_argvs n c b i v k st)
         (provision_entry cn name) w res w'"
      "stages_ordered n st" "install_faithful n i v k st"
      "list_all (acknowledged allow_format) (pv_disks st)"
      "case res of Inl _ \<Rightarrow> pv_start st \<noteq> None
       | Inr x \<Rightarrow> \<exists>succeeded msg. x = ProvisionDone dec (st, succeeded, msg)"
proof -
  obtain pre w1 where p: "preflight E n w = (Inr pre, w1)"
    "trace w1 = trace w @ [on_host n preflight_command]" "audit w1 = audit w"
    using emits_runE [OF emits_preflight] by blast
  have c1: "commands [on_host n preflight_command] = host_argvs n [preflight_command]"
    by (simp add: on_host_def host_argvs_def)
  note after = outcome_after [OF p(2,3), unfolded c1]
  let ?dec = "gate ''provision'' cn name confirm (provision_plan n c v) (provision_check_list f c pre)"
  have k: "recorded (provision_entry cn name) (provision_decided E sampler f c n v confirm allow_format
      max_lag timeout_s pre ?dec) w1 = (res, w')"
    using run unfolding provision_node_def n option.case prod.case
    by (simp only: bind_io_run p(1))
  show thesis
  proof (cases "provision_goes f c confirm pre")
    case False
    then have "\<not> confirm \<or> \<not> gd_allowed ?dec" using provision_gate by blast
    with k have r: "recorded (provision_entry cn name) (ret (ProvisionGated ?dec pre)) w1 = (res, w')"
      unfolding provision_decided_def by (simp only: if_True)
    show thesis
      using after [OF recorded_ret_outcome [OF r]]
      by (intro gated [OF p(1) False recorded_ret_result [OF r]]) simp
  next
    case True
    then have "\<not> (\<not> confirm \<or> \<not> gd_allowed ?dec)" using provision_gate by blast
    with k have r: "recorded (provision_entry cn name) (bind_io (provision_execute E sampler c n
        (the (cluster_builder f c)) (the (cl_install c)) v allow_format max_lag timeout_s)
          (\<lambda>r. ret (ProvisionDone ?dec r))) w1 = (res, w')"
      unfolding provision_decided_def by (simp only: if_False)
    from provision_goes_builder [OF True] obtain i b where
      ib: "cl_install c = Some i" "cluster_builder f c = Some b" by metis
    let ?m = "provision_execute E sampler c n b i v allow_format max_lag timeout_s"
    obtain r1 w2 where m: "?m w1 = (r1, w2)" by fastforce
    from provision_execute_run [OF this] obtain k st where x:
      "stage (provision_argvs n c b i v k st) st w1 r1 w2" "stages_ordered n st"
      "install_faithful n i v k st" "list_all (acknowledged allow_format) (pv_disks st)" by metis
    have "stage (provision_argvs n c b i v k st) st w1 r w2'" if "?m w1 = (r, w2')" for r w2'
      using x(1) m that by simp
    note recd = stage_recorded [OF r [unfolded ib option.sel] this]
    have "outcome (host_argvs n [preflight_command] @ provision_argvs n c b i v k st)
         (provision_entry cn name) w res w'" and
      "case res of Inl _ \<Rightarrow> pv_start st \<noteq> None
       | Inr x \<Rightarrow> \<exists>succeeded msg. x = ProvisionDone ?dec (st, succeeded, msg)"
      by (rule after [OF conjunct1 [OF recd]], assumption) (rule conjunct2 [OF recd], assumption)
    from went [OF p(1) True ib this(1) x(2-4) this(2)] show thesis .
  qed
qed

end

section \<open>When provisioning succeeds\<close>

definition provision_complete :: "node \<Rightarrow> provision_steps \<Rightarrow> bool" where
  "provision_complete n st \<longleftrightarrow>
     sp_ok (pv_user st) \<and> sp_ok (pv_system st) \<and> list_all (\<lambda>(_, d). disk_ok d) (pv_disks st) \<and>
     (\<exists>build. pv_build st = Some build \<and> br_ok build) \<and>
     (\<exists>di. pv_dist st = Some di \<and> di_ok di) \<and>
     (\<exists>sw. pv_swap st = Some sw \<and> sp_ok sw) \<and> (\<exists>u. pv_unit st = Some u \<and> sp_ok u) \<and>
     start_ready n st \<and> (\<exists>s. pv_start st = Some s \<and> sp_ok s) \<and>
     (\<exists>cu. pv_catchup st = Some cu \<and> cu_caught_up cu)"

lemma provision_start_success:
  assumes "start_ready n st" "br_ok (the (pv_build st))" "di_ok (the (pv_dist st))"
    and "pv_build st \<noteq> None" "pv_dist st \<noteq> None" "pv_swap st \<noteq> None" "pv_unit st \<noteq> None"
  shows "yields (\<lambda>(st', succeeded, msg). succeeded = provision_complete n st')
    (provision_start E sampler c n max_lag timeout_s st)"
  unfolding provision_start_def using assms
  by (intro yield_rules) (auto simp: provision_complete_def start_ready_def)

lemma provision_keys_success:
  assumes "pv_start st = None" "br_ok (the (pv_build st))" "di_ok (the (pv_dist st))"
    and "pv_build st \<noteq> None" "pv_dist st \<noteq> None" "pv_swap st \<noteq> None" "pv_unit st \<noteq> None"
  shows "yields (\<lambda>(st', succeeded, msg). succeeded = provision_complete n st')
    (provision_keys E sampler c n max_lag timeout_s st)"
  unfolding provision_keys_def Let_def
  by (intro yield_rules provision_start_success)
    (use assms in \<open>simp_all add: provision_complete_def start_ready_def\<close>)

lemma provision_execute_success:
  "yields (\<lambda>(st, succeeded, msg). succeeded = provision_complete n st)
     (provision_execute E sampler c n b i version allow_format max_lag timeout_s)"
  unfolding provision_execute_def provision_install_def Let_def
  by (intro yield_rules provision_keys_success) (simp_all add: provision_complete_def)

section \<open>Properties\<close>

text \<open>
  C29. Setting up a disk always returns, and runs exactly the commands its outcome names. A file
  system is made, or tried, exactly when the disk is a block device whose configuration asks for
  it, the operator acknowledged that very device, and the probe of its content printed nothing.
\<close>

theorem setup_disk_formats_only_when_allowed:
  "\<exists>out w'. setup_disk E n d allow_format w = (Inr out, w') \<and> audit w' = audit w \<and>
     trace w' = trace w @ map (on_host n) (disk_commands n d out) \<and>
     formats out = may_format E n d allow_format w"
  by (rule setup_disk_run)

text \<open>
  C30. What provisioning runs, whatever the host answers: the preflight; and only when it is
  confirmed, nothing blocks it and the builder is known, the user, the tuning and every disk;
  only when every disk is ready, the build; only when the build is good, the distribution; only
  when every checksum matched, the swap of the complete set, the unit and the test for the
  identity key; only when that key (and for a voting node the vote account's) is there, the
  start. A file system is made only on an acknowledged device, and an exception can come only
  from the wait after the start.
\<close>

theorem provision_runs_exactly:
  assumes "quiet_sampler sampler" and "find_node f name = Some (cn, c, n)"
    and "provision_node E sampler f name v confirm allow_format max_lag timeout_s w = (res, w')"
  shows "\<exists>pre w1 es. preflight E n w = (Inr pre, w1) \<and> trace w' = trace w @ es \<and>
    (if provision_goes f c confirm pre
     then \<exists>i b k st cs. cl_install c = Some i \<and> cluster_builder f c = Some b \<and>
       cs = host_argvs n [preflight_command] @ provision_argvs n c b i v k st \<and>
       prefix (commands es) cs \<and> stages_ordered n st \<and> install_faithful n i v k st \<and>
       list_all (acknowledged allow_format) (pv_disks st) \<and>
       (case res of Inl _ \<Rightarrow> pv_start st \<noteq> None
        | Inr r \<Rightarrow> commands es = cs \<and> (\<exists>dec succeeded msg. r = ProvisionDone dec (st, succeeded, msg)))
     else commands es = host_argvs n [preflight_command] \<and> (\<exists>dec. res = Inr (ProvisionGated dec pre)))"
proof (cases rule: quiet_sampler.provision_node_outcome [OF assms])
  case (1 pre w1 dec)
  then obtain es where "trace w' = trace w @ es" "commands es = host_argvs n [preflight_command]"
    unfolding outcome_def by auto
  with 1 show ?thesis by auto
next
  case (2 pre w1 dec i b k st)
  let ?cs = "host_argvs n [preflight_command] @ provision_argvs n c b i v k st"
  from 2(5) obtain es where es: "trace w' = trace w @ es" "prefix (commands es) ?cs"
    "case res of Inl _ \<Rightarrow> True | Inr _ \<Rightarrow> commands es = ?cs"
    unfolding outcome_def by (cases res) auto
  have "case res of Inl _ \<Rightarrow> pv_start st \<noteq> None
     | Inr r \<Rightarrow> commands es = ?cs \<and> (\<exists>dec succeeded msg. r = ProvisionDone dec (st, succeeded, msg))"
    using es(3) 2(9) by (cases res) auto
  with 2(1-4,6-8) es(1,2) show ?thesis
    by (intro exI [of _ pre] exI [of _ w1] exI [of _ es]) auto
qed

theorem provision_runs_exactly_witness:
  "\<exists>es. trace (snd (provision_node idle_env (default_sampler idle_env) one_node_fleet ''rpc1'' ''4.1.0''
       True {} 2 1800 fresh_world)) = es \<and> commands es = host_argvs rpc1 [preflight_command]"
proof -
  obtain res w' where r: "provision_node idle_env (default_sampler idle_env) one_node_fleet ''rpc1''
      ''4.1.0'' True {} 2 1800 fresh_world = (res, w')" by fastforce
  have g: "\<not> provision_goes one_node_fleet mainnet True pre" for pre
    by (simp add: provision_goes_def mainnet_def install_builder_def)
  from provision_runs_exactly [OF live.quiet_sampler_axioms one_node_find r] r g show ?thesis
    by (auto simp: fresh_world_def)
qed

text \<open>
  A provisioning that returns has appended exactly one entry to the audit log: for a dry run,
  a refusal and for every way an execution can end. One that raises has recorded nothing.
\<close>

theorem provision_audited:
  assumes "quiet_sampler sampler" and "find_node f name = Some (cn, c, n)"
    and "provision_node E sampler f name v confirm allow_format max_lag timeout_s w = (res, w')"
    and "audit w = Some al"
  shows "logged w' = logged w @ (case res of Inl _ \<Rightarrow> [] | Inr r \<Rightarrow> [provision_entry cn name r])"
proof -
  obtain cs where o: "outcome cs (provision_entry cn name) w res w'"
    by (cases rule: quiet_sampler.provision_node_outcome [OF assms(1-3)])
  show ?thesis
  proof (cases res)
    case (Inl e)
    with o assms(4) show ?thesis by (auto simp: outcome_def logged_def)
  next
    case (Inr r)
    with outcome_logged [OF o [unfolded Inr] assms(4)] show ?thesis by simp
  qed
qed

theorem provision_audited_witness:
  "length (logged (snd (provision_node idle_env (default_sampler idle_env) one_node_fleet ''rpc1''
     ''4.1.0'' False {} 2 1800 fresh_world))) \<le> 1"
proof -
  obtain res w' where r: "provision_node idle_env (default_sampler idle_env) one_node_fleet ''rpc1''
      ''4.1.0'' False {} 2 1800 fresh_world = (res, w')" by fastforce
  have a: "audit fresh_world = Some (audit_init (\<lambda>_. ''t''))" by (simp add: fresh_world_def)
  from provision_audited [OF live.quiet_sampler_axioms one_node_find r a] r show ?thesis
    by (auto simp: logged_def fresh_world_def audit_entries_def audit_init_def split: sum.splits)
qed

text \<open>
  C31. Provisioning says it succeeded exactly when everything did: user, tuning and all disks,
  the build, the verified distribution, the swap and the unit, the keys the node needs, the
  start, and the wait ended with the node caught up.
\<close>

theorem provision_success_is_complete:
  "case fst (provision_node E sampler f name v confirm allow_format max_lag timeout_s w) of
     Inr (ProvisionDone d (st, succeeded, msg)) \<Rightarrow>
       (\<exists>cn c n. find_node f name = Some (cn, c, n) \<and> succeeded = provision_complete n st)
   | _ \<Rightarrow> True"
proof -
  let ?Q = "\<lambda>n r. case r of ProvisionDone d (st, succeeded, msg) \<Rightarrow> succeeded = provision_complete n st
    | _ \<Rightarrow> True"
  have decided: "yields (?Q n) (provision_decided E sampler f c n v confirm allow_format max_lag timeout_s
      pre d)" for c n pre d
    unfolding provision_decided_def
    by (intro yields_if yields_ret yields_bindQ [OF provision_execute_success]) auto
  obtain res w' where r: "provision_node E sampler f name v confirm allow_format max_lag timeout_s w =
      (res, w')" by fastforce
  show ?thesis
  proof (cases "find_node f name")
    case None
    then show ?thesis by (simp add: provision_node_def ret_def)
  next
    case (Some x)
    obtain cn c n where x: "x = (cn, c, n)" by (cases x)
    have "yields (?Q n) (provision_node E sampler f name v confirm allow_format max_lag timeout_s)"
      unfolding provision_node_def Some x option.case prod.case
      by (intro yields_bind yields_recorded decided)
    then have "?Q n y" if "res = Inr y" for y
      by (rule yieldsD) (use r that in simp)
    with r Some x show ?thesis
      by (cases res) (auto split: provision_result.splits)
  qed
qed

text \<open>
  C32. Preflight lets a host through exactly when the command succeeded, it reported the
  architecture \<open>x86_64\<close>, at least 8 cores and at least 8 GiB of memory; a number it could not read
  counts as none. The fields \<open>os\<close> and \<open>root\<close> that it collects, and the plan names, block nothing.
\<close>

theorem preflight_exact:
  "(failures (preflight_checks reachable info) = []) =
     (reachable \<and> dict_get info ''arch'' = Some ''x86_64'' \<and>
      8 \<le> or_zero (int_field info ''cores'') \<and> 8 * 1024 ^ 3 \<le> or_zero (int_field info ''ram''))
   \<and> preflight_checks reachable (dict_set ''root'' u info) = preflight_checks reachable info
   \<and> preflight_checks reachable (dict_set ''os'' u info) = preflight_checks reachable info"
proof (intro conjI)
  show "(failures (preflight_checks reachable info) = []) =
     (reachable \<and> dict_get info ''arch'' = Some ''x86_64'' \<and>
      8 \<le> or_zero (int_field info ''cores'') \<and> 8 * 1024 ^ 3 \<le> or_zero (int_field info ''ram''))"
    by (auto simp: preflight_checks_def failures_Nil provision_min_cores_def provision_min_ram_gib_def
        gib_def Let_def)
qed (simp_all add: preflight_checks_def int_field_def Let_def)

text \<open>
  The test for an empty device is the silence of the probe, whatever its exit code: when the
  probe could not look at the device at all and so printed nothing, an acknowledged device is
  formatted.
\<close>

theorem unreadable_device_formatted:
  assumes "env_run E (trace w) (ssh_argv n (disk_probe_command d)) =
      \<lparr>exit_code = code, stdout = [], stderr = err\<rparr>"
    and "dk_fs d \<noteq> Tmpfs" and "dk_format d" and "dk_device d \<in> allow_format"
  shows "\<exists>out w'. setup_disk E n d allow_format w = (Inr out, w') \<and> formats out \<and>
    on_host n (mkfs_command d) \<in> set (trace w')"
proof -
  have "may_format E n d allow_format w"
    using assms by (simp add: may_format_def strip_Nil_iff)
  moreover obtain out w' where "setup_disk E n d allow_format w = (Inr out, w')"
    "trace w' = trace w @ map (on_host n) (disk_commands n d out)"
    "formats out = may_format E n d allow_format w" using setup_disk_run by blast
  ultimately show ?thesis
    by (cases out) (auto simp: formats_def disk_commands_def)
qed

theorem unreadable_device_formatted_witness:
  "\<exists>out w'. setup_disk \<lparr>env_run = \<lambda>_ _. \<lparr>exit_code = 127, stdout = [], stderr = ''lsblk: not found''\<rparr>,
      env_rpc = \<lambda>_ _ _ _. NotJson, env_tmp = \<lambda>_. [], env_str = \<lambda>_. []\<rparr> rpc1
      \<lparr>dk_device = ''/dev/sdb'', dk_mount = ''/mnt/ledger'', dk_fs = Ext4, dk_format = True,
        dk_min_size_gb = None, dk_size_gb = None\<rparr> {''/dev/sdb''} fresh_world = (Inr out, w') \<and> formats out"
  using unreadable_device_formatted [of "\<lparr>env_run = \<lambda>_ _. \<lparr>exit_code = 127, stdout = [],
        stderr = ''lsblk: not found''\<rparr>,
      env_rpc = \<lambda>_ _ _ _. NotJson, env_tmp = \<lambda>_. [], env_str = \<lambda>_. []\<rparr>" fresh_world rpc1
      "\<lparr>dk_device = ''/dev/sdb'', dk_mount = ''/mnt/ledger'', dk_fs = Ext4, dk_format = True,
        dk_min_size_gb = None, dk_size_gb = None\<rparr>" 127 "''lsblk: not found''" "{''/dev/sdb''}"]
  by simp blast

end
