(* ===== verification/Validate.thy ===== *)
theory Validate
  imports Executor Probe Safety
begin

text \<open>
  The read-only validation of a fleet (\<open>validate.py\<close>): the checks of a node, of a builder and of
  the DNS credentials, their verdict, and \<open>validate_fleet\<close>. The status of a check is an
  enumeration ordered by severity, so that the verdict of a list of checks is its maximum.
\<close>

section \<open>Checks\<close>

datatype check_status = Pass | Warn | Fail

fun severity :: "check_status \<Rightarrow> nat" where
  "severity Pass = 0"
| "severity Warn = 1"
| "severity Fail = 2"

lemma severity_inj: "severity x = severity y \<Longrightarrow> x = y"
  by (cases x; cases y) simp_all

instantiation check_status :: linorder
begin

definition less_eq_check_status :: "check_status \<Rightarrow> check_status \<Rightarrow> bool" where
  "less_eq_check_status x y \<longleftrightarrow> severity x \<le> severity y"

definition less_check_status :: "check_status \<Rightarrow> check_status \<Rightarrow> bool" where
  "less_check_status x y \<longleftrightarrow> severity x < severity y"

instance
  by standard (auto simp: less_eq_check_status_def less_check_status_def intro: severity_inj)

end

instantiation check_status :: order_bot
begin

definition bot_check_status :: check_status where
  "bot_check_status = Pass"

instance
  by standard (simp add: bot_check_status_def less_eq_check_status_def)

end

lemma status_le [simp]: "Pass \<le> s" "s \<le> Fail" "s \<le> Pass \<longleftrightarrow> s = Pass" "Fail \<le> s \<longleftrightarrow> s = Fail"
  by (cases s; simp add: less_eq_check_status_def)+

record check =
  ck_name :: string
  ck_status :: check_status
  ck_detail :: string

definition mk_check :: "string \<Rightarrow> check_status \<Rightarrow> string \<Rightarrow> check" where
  "mk_check nm s detail = \<lparr>ck_name = nm, ck_status = s, ck_detail = detail\<rparr>"

text \<open>\<open>Check(name, "pass" if good else bad, \<dots>)\<close>\<close>

definition pass_or :: "check_status \<Rightarrow> bool \<Rightarrow> check_status" where
  "pass_or bad good = (if good then Pass else bad)"

text \<open>\<open>_worst\<close>\<close>

definition worst :: "check list \<Rightarrow> check_status" where
  "worst checks =
     (if list_ex (\<lambda>c. ck_status c = Fail) checks then Fail
      else if list_ex (\<lambda>c. ck_status c = Warn) checks then Warn
      else Pass)"

section \<open>The checks of a node\<close>

definition is_disk_error :: "disk_row \<Rightarrow> bool" where
  "is_disk_error row = (case row of DiskError _ _ \<Rightarrow> True | _ \<Rightarrow> False)"

definition missing_mounts :: "inspect_report \<Rightarrow> string list" where
  "missing_mounts insp = map dr_path (filter is_disk_error (ir_disk insp))"

definition host_checks :: "policy_rules \<Rightarrow> inspect_report \<Rightarrow> check list" where
  "host_checks rules insp =
     (let active = sr_active (ir_service insp); ver = vr_binary_version (ir_version insp);
          missing = missing_mounts insp in
      [mk_check ''service'' (pass_or Warn (active = Some ''active''))
         (''active='' @ show_opt (\<lambda>s. s) active),
       mk_check ''binary'' (pass_or Warn (truthy ver))
         (if truthy ver then the ver else ''no version reported''),
       mk_check ''disks'' (pass_or Fail (missing = []))
         (if missing \<noteq> [] then ''missing mounts: '' @ repr_list missing else ''mounts present'')]
      @ (if \<not> disk_free_ok rules (use_pcts insp)
         then [mk_check ''disk_free'' Warn (''below policy floor min_disk_free_pct=''
                 @ show_opt show_int (pr_min_disk_free_pct rules))] else []))"

definition rpc_check :: "node_status option \<Rightarrow> check" where
  "rpc_check status =
     (case status of
        None \<Rightarrow> mk_check ''rpc'' Fail ''rpc unreachable''
      | Some s \<Rightarrow>
          if ns_reachable s \<and> ns_healthy s = Some True then
            mk_check ''rpc'' Pass (''healthy, lag='' @ show_opt show_int (ns_slot_lag s))
          else if ns_healthy s = Some False then
            mk_check ''rpc'' Warn ''reachable but behind/unhealthy''
          else mk_check ''rpc'' Fail ''rpc unreachable'')"

definition node_check_list :: "node \<Rightarrow> node_status option \<Rightarrow> policy_rules \<Rightarrow> inspect_report \<Rightarrow> check list" where
  "node_check_list n status rules insp =
     (let ssh_ok = sr_ok (ir_service insp); err = sr_error (ir_service insp) in
      [mk_check ''ssh'' (pass_or Fail ssh_ok)
         (if ssh_ok then ''reachable'' else if truthy err then the err else ''unreachable'')]
      @ (if ssh_ok then host_checks rules insp else [])
      @ (if truthy (n_rpc_url n) then [rpc_check status] else [])
      @ (if n_role n = Validator \<and> \<not> truthy (n_identity n)
         then [mk_check ''identity'' Fail ''validator has no identity pubkey''] else []))"

definition node_checks :: "env \<Rightarrow> node \<Rightarrow> node_status option \<Rightarrow> policy_rules \<Rightarrow> check list io" where
  "node_checks E n status rules =
     bind_io (inspect_node E n) (\<lambda>insp. ret (node_check_list n status rules insp))"

section \<open>The checks of a builder\<close>

definition builder_min_cores :: int where
  "builder_min_cores = 8"

definition builder_min_ram_gib :: int where
  "builder_min_ram_gib = 16"

definition builder_min_disk_gib :: int where
  "builder_min_disk_gib = 60"

definition gib_bytes :: int where
  "gib_bytes = 1024 ^ 3"

definition specs_command :: string where
  "specs_command =
     ''printf '' @ quoted (''cores=%s'' @ bs_n) @ '' '' @ dquoted ''$(nproc)'' @ ''; ''
     @ ''free -b | awk '' @ quoted (''/^Mem:/{print '' @ dquoted ''ram='' @ ''$2}'') @ ''; ''
     @ ''df -PB1 / | awk '' @ quoted (''NR==2{print '' @ dquoted ''disk='' @ ''$4}'') @ ''; ''
     @ ''(command -v cargo >/dev/null && command -v rustc >/dev/null ''
     @ ''&& echo toolchain=ok || echo toolchain=missing)''"

text \<open>\<open>None\<close> when the command failed; otherwise the fields, with the spaces stripped\<close>

definition specs_of_output :: "command_result \<Rightarrow> (string, string) dict option" where
  "specs_of_output r =
     (if \<not> cr_ok r then None
      else Some (dict_of_pairs (map (\<lambda>line. let (k, v) = partition_char CHR ''='' line
                                            in (strip k, strip v))
             (filter (\<lambda>line. CHR ''='' \<in> set line) (splitlines (stdout r))))))"

definition builder_specs :: "env \<Rightarrow> builder_host \<Rightarrow> (string, string) dict option io" where
  "builder_specs E b = bind_io (run E b specs_command) (\<lambda>r. ret (specs_of_output r))"

text \<open>\<open>specs.get("reachable")\<close>: \<open>True\<close>, unless the output has a field of that name\<close>

definition specs_reachable :: "(string, string) dict option \<Rightarrow> bool" where
  "specs_reachable specs =
     (case specs of
        None \<Rightarrow> False
      | Some d \<Rightarrow> (case dict_get d ''reachable'' of None \<Rightarrow> True | Some s \<Rightarrow> s \<noteq> []))"

definition show_gib :: "int option \<Rightarrow> string" where
  "show_gib x = (if or_zero x \<noteq> 0 then show_tenths (of_int (or_zero x) / of_int gib_bytes) else ''None'')"

definition builder_check_list :: "(string, string) dict option \<Rightarrow> check list" where
  "builder_check_list specs =
     (if \<not> specs_reachable specs then [mk_check ''ssh'' Fail ''unreachable'']
      else
        (let d = the specs; cores = int_field d ''cores''; ram = int_field d ''ram'';
             disk = int_field d ''disk''; toolchain_ok = (dict_get d ''toolchain'' = Some ''ok'') in
         [mk_check ''ssh'' Pass ''reachable'',
          mk_check ''cores'' (pass_or Warn (or_zero cores \<ge> builder_min_cores))
            (show_opt show_int cores @ '' (want >= '' @ show_int builder_min_cores
              @ '' for agave builds)''),
          mk_check ''ram'' (pass_or Warn (or_zero ram \<ge> builder_min_ram_gib * gib_bytes))
            (show_gib ram @ '' GiB (want >= '' @ show_int builder_min_ram_gib @ '')''),
          mk_check ''disk_free'' (pass_or Warn (or_zero disk \<ge> builder_min_disk_gib * gib_bytes))
            (show_gib disk @ '' GiB free on / (want >= '' @ show_int builder_min_disk_gib @ '')''),
          mk_check ''toolchain'' (pass_or Warn toolchain_ok)
            (if toolchain_ok then ''cargo+rustc present''
             else ''no cargo/rustc (install before building)'')]))"

definition builder_checks :: "env \<Rightarrow> builder_host \<Rightarrow> check list io" where
  "builder_checks E b = bind_io (builder_specs E b) (\<lambda>specs. ret (builder_check_list specs))"

section \<open>The DNS credentials\<close>

definition dns_checks :: "(string \<Rightarrow> string option) \<Rightarrow> fleet \<Rightarrow> check list" where
  "dns_checks getenv f =
     (case fl_dns f of
        None \<Rightarrow> []
      | Some dns \<Rightarrow>
          (case dn_provider dns of
             Cloudflare \<Rightarrow>
               (let present = truthy (getenv ''CLOUDFLARE_API_TOKEN'') in
                [mk_check ''cloudflare_token'' (pass_or Warn present)
                   (if present then ''CLOUDFLARE_API_TOKEN set''
                    else ''CLOUDFLARE_API_TOKEN not set (DNS ops will fail)'')])
           | Route53 \<Rightarrow>
               (let present = truthy (getenv ''AWS_ACCESS_KEY_ID'') \<or> truthy (getenv ''AWS_PROFILE'') in
                [mk_check ''aws_creds'' (pass_or Warn present)
                   (if present then ''AWS creds present'' else ''no AWS creds in env'')])))"

section \<open>The fleet\<close>

record node_verdict =
  nv_name :: string
  nv_cluster :: string
  nv_role :: role
  nv_status :: check_status
  nv_checks :: "check list"

record builder_verdict =
  bv_name :: string
  bv_status :: check_status
  bv_checks :: "check list"

record validation =
  va_ok :: bool
  va_nodes :: "node_verdict list"
  va_builders :: "builder_verdict list"
  va_dns :: "(check_status \<times> check list) option"

text \<open>The statuses of a probe by node name; of two nodes of one name the later counts\<close>

definition statuses_by_name :: "cluster_status list \<Rightarrow> (string, node_status) dict" where
  "statuses_by_name clusters =
     dict_of_pairs (concat (map (\<lambda>c. map (\<lambda>n. (ns_name n, n)) (cs_nodes c)) clusters))"

definition validate_node ::
  "env \<Rightarrow> policy_rules \<Rightarrow> (string, node_status) dict \<Rightarrow> string \<Rightarrow> node \<Rightarrow> node_verdict io" where
  "validate_node E rules statuses cn n =
     bind_io (node_checks E n (dict_get statuses (n_name n)) rules) (\<lambda>checks.
     ret \<lparr>nv_name = n_name n, nv_cluster = cn, nv_role = n_role n, nv_status = worst checks,
          nv_checks = checks\<rparr>)"

definition validate_builder :: "env \<Rightarrow> string \<times> builder_host \<Rightarrow> builder_verdict io" where
  "validate_builder E = (\<lambda>(nm, b). bind_io (builder_checks E b) (\<lambda>checks.
     ret \<lparr>bv_name = nm, bv_status = worst checks, bv_checks = checks\<rparr>))"

definition all_statuses :: "node_verdict list \<Rightarrow> builder_verdict list \<Rightarrow>
    (check_status \<times> check list) option \<Rightarrow> check_status list" where
  "all_statuses nodes builders dns =
     map nv_status nodes @ map bv_status builders
     @ (case dns of None \<Rightarrow> [] | Some (s, _) \<Rightarrow> [s])"

type_synonym prober = "fleet \<Rightarrow> cluster_status list io"

definition validate_fleet ::
  "env \<Rightarrow> (string \<Rightarrow> string option) \<Rightarrow> policy \<Rightarrow> prober \<Rightarrow> fleet \<Rightarrow> validation io" where
  "validate_fleet E getenv pol prober f =
     bind_io (prober f) (\<lambda>clusters.
     bind_io (for_each (\<lambda>(cn, c). for_each (validate_node E (for_cluster pol cn)
                (statuses_by_name clusters) cn) (cl_nodes c)) (fl_clusters f)) (\<lambda>nodes.
     bind_io (for_each (validate_builder E) (fl_builders f)) (\<lambda>builders.
     let checks = dns_checks getenv f;
         dns = (if checks \<noteq> [] then Some (worst checks, checks) else None)
     in ret \<lparr>va_ok = Fail \<notin> set (all_statuses (concat nodes) builders dns),
          va_nodes = concat nodes, va_builders = builders, va_dns = dns\<rparr>)))"

section \<open>What a verdict says\<close>

lemma max_Pass [simp]: "max Pass s = s" "max s Pass = s"
  by (simp_all add: max_def)

lemma worst_simps [simp]:
  "worst [] = Pass"
  "worst (c # cs) = max (ck_status c) (worst cs)"
  "worst (cs @ cs') = max (worst cs) (worst cs')"
proof -
  show cons: "worst (c # cs) = max (ck_status c) (worst cs)" for c cs
    by (cases "ck_status c") (auto simp: worst_def max_def less_eq_check_status_def)
  show "worst [] = Pass" by (simp add: worst_def)
  then show "worst (cs @ cs') = max (worst cs) (worst cs')"
    by (induction cs) (simp_all add: cons max.assoc)
qed

lemma ck_mk_check [simp]: "ck_status (mk_check nm s d) = s"
  by (simp add: mk_check_def)

lemma max_status [simp]:
  "max s s' = Fail \<longleftrightarrow> s = Fail \<or> s' = Fail" "max s s' = Pass \<longleftrightarrow> s = Pass \<and> s' = Pass"
  for s s' :: check_status
  by (cases s; cases s'; simp add: max_def less_eq_check_status_def)+

lemma pass_or_eq [simp]:
  "pass_or b g = Pass \<longleftrightarrow> g \<or> b = Pass" "pass_or b g = Fail \<longleftrightarrow> \<not> g \<and> b = Fail"
  by (simp_all add: pass_or_def)

text \<open>The nodes an operation would trip over, and those that need no attention\<close>

definition rpc_answers :: "bool \<Rightarrow> node_status option \<Rightarrow> bool" where
  "rpc_answers h status \<longleftrightarrow> (\<exists>s. status = Some s \<and> ns_healthy s = Some h \<and> (h \<longrightarrow> ns_reachable s))"

definition node_broken :: "node \<Rightarrow> node_status option \<Rightarrow> inspect_report \<Rightarrow> bool" where
  "node_broken n status insp \<longleftrightarrow>
     \<not> sr_ok (ir_service insp) \<or> missing_mounts insp \<noteq> [] \<or>
     (truthy (n_rpc_url n) \<and> \<not> rpc_answers True status \<and> \<not> rpc_answers False status) \<or>
     (n_role n = Validator \<and> \<not> truthy (n_identity n))"

definition node_ready :: "node \<Rightarrow> node_status option \<Rightarrow> policy_rules \<Rightarrow> inspect_report \<Rightarrow> bool" where
  "node_ready n status rules insp \<longleftrightarrow>
     sr_ok (ir_service insp) \<and> sr_active (ir_service insp) = Some ''active'' \<and>
     truthy (vr_binary_version (ir_version insp)) \<and> missing_mounts insp = [] \<and>
     disk_free_ok rules (use_pcts insp) \<and>
     (truthy (n_rpc_url n) \<longrightarrow> rpc_answers True status) \<and>
     (n_role n = Validator \<longrightarrow> truthy (n_identity n))"

lemma rpc_check_status:
  "ck_status (rpc_check status) = Pass \<longleftrightarrow> rpc_answers True status"
  "ck_status (rpc_check status) = Fail \<longleftrightarrow> \<not> rpc_answers True status \<and> \<not> rpc_answers False status"
  by (auto simp: rpc_check_def rpc_answers_def split: option.splits)

lemma worst_if [simp]:
  "worst (if b then cs else []) = Pass \<longleftrightarrow> (b \<longrightarrow> worst cs = Pass)"
  "worst (if b then cs else []) = Fail \<longleftrightarrow> b \<and> worst cs = Fail"
  by simp_all

lemma worst_host_checks:
  "worst (host_checks rules insp) = Pass \<longleftrightarrow> sr_active (ir_service insp) = Some ''active'' \<and>
     truthy (vr_binary_version (ir_version insp)) \<and> missing_mounts insp = [] \<and>
     disk_free_ok rules (use_pcts insp)"
  "worst (host_checks rules insp) = Fail \<longleftrightarrow> missing_mounts insp \<noteq> []"
  unfolding host_checks_def Let_def
  by (simp_all only: worst_simps worst_if max_status ck_mk_check pass_or_eq check_status.distinct
      conj_assoc simp_thms)

lemma node_ready_worst:
  "worst (node_check_list n status rules insp) = Pass \<longleftrightarrow> node_ready n status rules insp"
  unfolding node_check_list_def Let_def node_ready_def
  by (simp only: worst_simps worst_if max_status ck_mk_check pass_or_eq check_status.distinct
      rpc_check_status worst_host_checks simp_thms) blast

lemma node_broken_worst:
  "worst (node_check_list n status rules insp) = Fail \<longleftrightarrow> node_broken n status insp"
  unfolding node_check_list_def Let_def node_broken_def
  by (simp only: worst_simps worst_if max_status ck_mk_check pass_or_eq check_status.distinct
      rpc_check_status worst_host_checks simp_thms) blast

section \<open>What a validation runs and reports\<close>

definition validate_argvs :: "fleet \<Rightarrow> string list list" where
  "validate_argvs f =
     concat (map (\<lambda>(cn, c). concat (map (\<lambda>n. host_argvs n (inspect_commands n)) (cl_nodes c)))
       (fl_clusters f))
     @ concat (map (\<lambda>(nm, b). host_argvs b [specs_command]) (fl_builders f))"

definition all_checks :: "validation \<Rightarrow> check list" where
  "all_checks va = concat (map nv_checks (va_nodes va)) @ concat (map bv_checks (va_builders va))
     @ (case va_dns va of None \<Rightarrow> [] | Some (s, cs) \<Rightarrow> cs)"

definition fleet_nodes :: "fleet \<Rightarrow> (string \<times> string \<times> role) list" where
  "fleet_nodes f = concat (map (\<lambda>(cn, c). map (\<lambda>n. (cn, n_name n, n_role n)) (cl_nodes c))
     (fl_clusters f))"

definition validation_faithful :: "(string \<Rightarrow> string option) \<Rightarrow> fleet \<Rightarrow> validation \<Rightarrow> bool" where
  "validation_faithful getenv f va \<longleftrightarrow>
     map (\<lambda>v. (nv_cluster v, nv_name v, nv_role v)) (va_nodes va) = fleet_nodes f \<and>
     map bv_name (va_builders va) = dict_keys (fl_builders f) \<and>
     list_all (\<lambda>v. nv_status v = worst (nv_checks v)) (va_nodes va) \<and>
     list_all (\<lambda>v. bv_status v = worst (bv_checks v)) (va_builders va) \<and>
     va_dns va = (if dns_checks getenv f \<noteq> [] then Some (worst (dns_checks getenv f), dns_checks getenv f)
                  else None) \<and>
     (va_ok va \<longleftrightarrow> worst (all_checks va) \<noteq> Fail)"

lemma doing_validate_node:
  "doing (host_argvs n (inspect_commands n)) (validate_node E rules statuses cn n)"
  unfolding validate_node_def node_checks_def by (intro doing_bind_ret doing_inspect)

lemma doing_validate_builder:
  "doing (host_argvs b [specs_command]) (validate_builder E (nm, b))"
  using emits_doing [OF emits_run, of b specs_command E] commands_on_host [of b "[specs_command]"]
  unfolding validate_builder_def builder_checks_def builder_specs_def prod.case
  by (intro doing_bind_ret) simp

lemma doing_validate_fleet:
  assumes "adds is_quiet (prober f)"
  shows "doing (validate_argvs f) (validate_fleet E getenv pol prober f)"
proof -
  have b: "doing (case x of (nm, b) \<Rightarrow> host_argvs b [specs_command]) (validate_builder E x)" for x
    by (cases x) (simp add: doing_validate_builder)
  have n: "doing (case x of (cn, c) \<Rightarrow> concat (map (\<lambda>n. host_argvs n (inspect_commands n)) (cl_nodes c)))
      (case x of (cn, c) \<Rightarrow> for_each (validate_node E (for_cluster pol cn) statuses cn) (cl_nodes c))"
    for x statuses
    by (cases x) (simp add: doing_for_each doing_validate_node)
  have "doing ([] @ concat (map (\<lambda>(cn, c). concat (map (\<lambda>n. host_argvs n (inspect_commands n)) (cl_nodes c)))
       (fl_clusters f)) @ concat (map (\<lambda>(nm, b). host_argvs b [specs_command]) (fl_builders f)))
      (validate_fleet E getenv pol prober f)"
    unfolding validate_fleet_def Let_def
    by (intro doing_bind adds_doing [OF assms] doing_for_each n doing_bind_ret b)
  then show ?thesis by (simp add: validate_argvs_def)
qed

lemma worst_concat: "worst (concat xss) = Fail \<longleftrightarrow> Fail \<in> (\<lambda>xs. worst xs) ` set xss"
  by (induction xss) auto

text \<open>A verdict that is about the node, and about the builder\<close>

definition verdict_of :: "string \<Rightarrow> node \<Rightarrow> node_verdict \<Rightarrow> bool" where
  "verdict_of cn n v \<longleftrightarrow> (nv_cluster v, nv_name v, nv_role v) = (cn, n_name n, n_role n) \<and>
     nv_status v = worst (nv_checks v)"

definition builder_verdict_of :: "string \<times> builder_host \<Rightarrow> builder_verdict \<Rightarrow> bool" where
  "builder_verdict_of x v \<longleftrightarrow> bv_name v = fst x \<and> bv_status v = worst (bv_checks v)"

lemma verdicts_of_cluster:
  assumes "list_all2 (verdict_of cn) ns vs"
  shows "map (\<lambda>v. (nv_cluster v, nv_name v, nv_role v)) vs = map (\<lambda>n. (cn, n_name n, n_role n)) ns"
    and "list_all (\<lambda>v. nv_status v = worst (nv_checks v)) vs"
  using assms by (induction rule: list_all2_induct) (simp_all add: verdict_of_def)

lemma verdicts_of_fleet:
  assumes "list_all2 (\<lambda>(cn, c). list_all2 (verdict_of cn) (cl_nodes c)) cls vss"
  shows "map (\<lambda>v. (nv_cluster v, nv_name v, nv_role v)) (concat vss) =
      concat (map (\<lambda>(cn, c). map (\<lambda>n. (cn, n_name n, n_role n)) (cl_nodes c)) cls)"
    and "list_all (\<lambda>v. nv_status v = worst (nv_checks v)) (concat vss)"
  using assms by (induction rule: list_all2_induct) (auto dest: verdicts_of_cluster)

lemma verdicts_of_builders:
  assumes "list_all2 builder_verdict_of bs vs"
  shows "map bv_name vs = dict_keys bs" and "list_all (\<lambda>v. bv_status v = worst (bv_checks v)) vs"
  using assms by (induction rule: list_all2_induct) (simp_all add: builder_verdict_of_def dict_keys_def)

lemma no_failed_status:
  assumes "list_all (\<lambda>v. nv_status v = worst (nv_checks v)) ns"
    and "list_all (\<lambda>v. bv_status v = worst (bv_checks v)) bs"
    and "case dns of None \<Rightarrow> True | Some (s, cs) \<Rightarrow> s = worst cs"
  shows "Fail \<notin> set (all_statuses ns bs dns) \<longleftrightarrow>
    worst (all_checks \<lparr>va_ok = ok, va_nodes = ns, va_builders = bs, va_dns = dns\<rparr>) \<noteq> Fail"
proof -
  have "Fail \<notin> nv_status ` set ns \<longleftrightarrow> worst (concat (map nv_checks ns)) \<noteq> Fail"
    using assms(1) by (induction ns) auto
  moreover have "Fail \<notin> bv_status ` set bs \<longleftrightarrow> worst (concat (map bv_checks bs)) \<noteq> Fail"
    using assms(2) by (induction bs) auto
  ultimately show ?thesis
    using assms(3) by (auto simp: all_statuses_def all_checks_def split: option.splits)
qed

lemma validation_faithfulI:
  assumes "list_all2 (\<lambda>(cn, c). list_all2 (verdict_of cn) (cl_nodes c)) (fl_clusters f) vss"
    and "list_all2 builder_verdict_of (fl_builders f) bs"
    and "dns = (if dns_checks getenv f \<noteq> [] then Some (worst (dns_checks getenv f), dns_checks getenv f)
                else None)"
  shows "validation_faithful getenv f \<lparr>va_ok = Fail \<notin> set (all_statuses (concat vss) bs dns),
    va_nodes = concat vss, va_builders = bs, va_dns = dns\<rparr>"
proof -
  note n = verdicts_of_fleet [OF assms(1)] and b = verdicts_of_builders [OF assms(2)]
  have "case dns of None \<Rightarrow> True | Some (s, cs) \<Rightarrow> s = worst cs" using assms(3) by auto
  from no_failed_status [OF n(2) b(2) this] n b assms(3) show ?thesis
    by (simp add: validation_faithful_def fleet_nodes_def)
qed

lemma yields_validate_fleet:
  "yields (validation_faithful getenv f) (validate_fleet E getenv pol prober f)"
proof -
  have n: "yields (list_all2 (\<lambda>(cn, c). list_all2 (verdict_of cn) (cl_nodes c)) (fl_clusters f))
      (for_each (\<lambda>(cn, c). for_each (validate_node E (for_cluster pol cn) statuses cn) (cl_nodes c))
         (fl_clusters f))" for statuses
  proof (rule yields_for_each)
    fix x assume "x \<in> set (fl_clusters f)"
    show "yields (case x of (cn, c) \<Rightarrow> list_all2 (verdict_of cn) (cl_nodes c))
      (case x of (cn, c) \<Rightarrow> for_each (validate_node E (for_cluster pol cn) statuses cn) (cl_nodes c))"
      by (cases x) (auto simp: validate_node_def verdict_of_def intro!: yields_for_each yield_rules)
  qed
  have b: "yields (list_all2 builder_verdict_of (fl_builders f)) (for_each (validate_builder E) (fl_builders f))"
  proof (rule yields_for_each)
    fix x assume "x \<in> set (fl_builders f)"
    show "yields (builder_verdict_of x) (validate_builder E x)"
      by (cases x) (auto simp: validate_builder_def builder_verdict_of_def intro!: yield_rules)
  qed
  show ?thesis
    unfolding validate_fleet_def Let_def
    by (rule yields_bind, rule yields_bindQ [OF n], rule yields_bindQ [OF b], rule yields_ret,
        rule validation_faithfulI) simp_all
qed

section \<open>Properties\<close>

text \<open>
  The verdict on a list of checks is the most severe status among them: it fails exactly
  when a check fails, and passes exactly when every check does.
\<close>

theorem worst_is_max:
  "worst checks = Max (insert Pass (ck_status ` set checks))"
proof (induction checks)
  case (Cons c cs)
  have "Max (insert Pass (ck_status ` set (c # cs))) =
      max (ck_status c) (Max (insert Pass (ck_status ` set cs)))"
    by (simp add: insert_commute [of Pass])
  with Cons show ?case by simp
qed simp

text \<open>
  What the verdict on a node means. It fails exactly when the host is not reachable over
  SSH, a mount is missing, the configured RPC gives no verdict on its health, or a validator has
  no identity; it passes exactly when nothing needs attention: the service active, a version
  reported, the mounts there and above the floor, the RPC healthy.
\<close>

theorem node_verdict_exact:
  "(worst (node_check_list n status rules insp) = Fail) = node_broken n status insp
   \<and> (worst (node_check_list n status rules insp) = Pass) = node_ready n status rules insp"
  by (rule conjI [OF node_broken_worst node_ready_worst])

text \<open>
  C33. Validation changes nothing and leaves nothing out. With a prober that only asks, it runs
  exactly the read-only inspection of every node and the probe of every builder, in the order of
  the configuration, and records nothing; its report has one verdict for each of them, the worst
  of its checks, and is ok exactly when no check failed.
\<close>

theorem validate_fleet_exact:
  assumes "adds is_quiet (prober f)"
    and "validate_fleet E getenv pol prober f w = (res, w')"
  shows "\<exists>es. trace w' = trace w @ es \<and> audit w' = audit w \<and> prefix (commands es) (validate_argvs f) \<and>
    (case res of Inl _ \<Rightarrow> True
     | Inr va \<Rightarrow> commands es = validate_argvs f \<and> validation_faithful getenv f va)"
  using yields_doing [OF doing_validate_fleet [where prober = prober, OF assms(1)]
    yields_validate_fleet assms(2)] by metis

definition silent_env :: env where
  "silent_env = \<lparr>env_run = \<lambda>_ _. \<lparr>exit_code = 255, stdout = [], stderr = ''timeout''\<rparr>,
     env_rpc = \<lambda>_ _ _ _. TransportFailed ''timeout'', env_tmp = \<lambda>_. [], env_str = \<lambda>_. []\<rparr>"

theorem validate_fleet_exact_witness:
  "\<exists>es. trace (snd (validate_fleet silent_env (\<lambda>_. None) default_policy (probe_fleet silent_env) sample_fleet
      \<lparr>trace = [], audit = None\<rparr>)) = es \<and> prefix (commands es) (validate_argvs sample_fleet)"
proof -
  have q: "adds is_quiet (probe_fleet silent_env sample_fleet)"
    by (rule adds_mono [OF adds_probe_fleet]) (auto simp: is_quiet_def is_rpc_event_def split: event.splits)
  obtain res w' where r: "validate_fleet silent_env (\<lambda>_. None) default_policy (probe_fleet silent_env)
      sample_fleet \<lparr>trace = [], audit = None\<rparr> = (res, w')" by fastforce
  from validate_fleet_exact [OF q r] r show ?thesis by auto
qed

end
