(* ===== verification/Voting.thy ===== *)
theory Voting
  imports Catchup
begin

text \<open>
  The status of a voting validator (\<open>voting.py\<close>): its vote account, the balance of its identity,
  its lag and its next leader window, read from the cluster's RPC. A part whose call fails is
  left out, as the keys of the result dict are. Amounts are exact rationals, rounded to four
  places; where the code rounds a double that lies next to the middle of two such numbers, the
  model takes the even one.
\<close>

section \<open>The vote account\<close>

text \<open>One group of accounts: the last entry of the identity wins\<close>

fun scan_group :: "string \<Rightarrow> bool \<Rightarrow> json list \<Rightarrow> (json \<times> bool) option \<Rightarrow> exn + (json \<times> bool) option" where
  "scan_group identity flag [] found = Inr found"
| "scan_group identity flag (a # as) found =
     and_then (json_get a ''nodePubkey'') (\<lambda>key.
       scan_group identity flag as (if key = Some (JStr identity) then Some (a, flag) else found))"

definition group_of :: "json \<Rightarrow> string \<Rightarrow> exn + json list" where
  "group_of accts k =
     and_then (json_get accts k) (\<lambda>g. case g of None \<Rightarrow> Inr [] | Some v \<Rightarrow> as_list v)"

text \<open>The entry of an identity, and whether it was among the delinquent\<close>

definition find_entry :: "string \<Rightarrow> json \<Rightarrow> exn + (json \<times> bool) option" where
  "find_entry identity accts =
     and_then (group_of accts ''current'') (\<lambda>cur.
     and_then (scan_group identity False cur None) (\<lambda>found.
     and_then (group_of accts ''delinquent'') (\<lambda>del.
       scan_group identity True del found)))"

record account_view =
  av_vote_account :: json
  av_delinquent :: bool
  av_credits :: json
  av_last_vote :: json
  av_root_slot :: json
  av_commission :: json
  av_stake_sol :: rat

definition or_null :: "json option \<Rightarrow> json" where
  "or_null v = (case v of None \<Rightarrow> JNull | Some x \<Rightarrow> x)"

text \<open>A number divided by the lamports of a SOL; a truth value counts as 0 or 1\<close>

definition in_sol :: "json \<Rightarrow> exn + rat" where
  "in_sol v =
     (case v of
        JInt i \<Rightarrow> Inr (of_int i / of_int lamports_per_sol)
      | JNum q \<Rightarrow> Inr (q / of_int lamports_per_sol)
      | JBool b \<Rightarrow> Inr (of_bool b / of_int lamports_per_sol)
      | _ \<Rightarrow> Inl TypeError)"

definition account_of :: "json \<Rightarrow> bool \<Rightarrow> exn + account_view" where
  "account_of entry delinquent =
     and_then (json_get entry ''votePubkey'') (\<lambda>pubkey.
     and_then (json_get entry ''epochCredits'') (\<lambda>ec.
     and_then (last_credits ec) (\<lambda>credits.
     and_then (json_get entry ''lastVote'') (\<lambda>last_vote.
     and_then (json_get entry ''rootSlot'') (\<lambda>root.
     and_then (json_get entry ''commission'') (\<lambda>commission.
     and_then (json_get entry ''activatedStake'') (\<lambda>stake.
     and_then (in_sol (case stake of None \<Rightarrow> JInt 0 | Some v \<Rightarrow> v)) (\<lambda>sol.
       Inr \<lparr>av_vote_account = or_null pubkey, av_delinquent = delinquent, av_credits = credits,
            av_last_vote = or_null last_vote, av_root_slot = or_null root,
            av_commission = or_null commission, av_stake_sol = py_round 4 sol\<rparr>))))))))"

section \<open>Balance and lag\<close>

definition low_balance_sol :: rat where
  "low_balance_sol = 1"

text \<open>\<open>bal.get("value") if isinstance(bal, dict) else bal\<close>, falsy values counting as 0\<close>

definition balance_of :: "json \<Rightarrow> exn + rat" where
  "balance_of bal =
     (let lamports = (case bal of JObj kvs \<Rightarrow> or_null (map_of kvs ''value'') | _ \<Rightarrow> bal)
      in and_then (in_sol (if json_truthy lamports then lamports else JInt 0))
           (\<lambda>sol. Inr (py_round 4 sol)))"

datatype balance_view =
    BalanceError string
  | Balance (bal_sol: rat) (bal_low: bool)

definition balance_view :: "env \<Rightarrow> string \<Rightarrow> string \<Rightarrow> balance_view io" where
  "balance_view E ref identity =
     bind_io (attempt (rpc_call E ref ''getBalance'' [JStr identity])) (\<lambda>r. case r of
       Inl e \<Rightarrow> ret (BalanceError (exn_text E e))
     | Inr bal \<Rightarrow> bind_io (lift (balance_of bal)) (\<lambda>sol. ret (Balance sol (sol < low_balance_sol))))"

text \<open>No key, \<open>caught_up = None\<close>, or the lag\<close>

datatype lag_view = NoLag | LagUnknown | Lag int

definition lag_caught_up :: "lag_view \<Rightarrow> bool" where
  "lag_caught_up v = (case v of Lag k \<Rightarrow> k \<le> 2 | _ \<Rightarrow> False)"

definition lag_view :: "env \<Rightarrow> string \<Rightarrow> string option \<Rightarrow> lag_view io" where
  "lag_view E ref url =
     bind_io (attempt (rpc_call E ref ''getSlot'' [])) (\<lambda>r. case r of
       Inl _ \<Rightarrow> ret LagUnknown
     | Inr ref_slot \<Rightarrow>
         if \<not> truthy url then ret NoLag
         else bind_io (attempt (rpc_call E (the url) ''getSlot'' [])) (\<lambda>r2. case r2 of
                Inl _ \<Rightarrow> ret LagUnknown
              | Inr node_slot \<Rightarrow>
                  bind_io (lift (and_then (as_int ref_slot) (\<lambda>a.
                                 and_then (as_int node_slot) (\<lambda>b. Inr (max 0 (a - b)))))) (\<lambda>k.
                  ret (Lag k))))"

section \<open>The status\<close>

datatype account_state =
    AccountError string
  | NotListed
  | Listed account_view

record vote_view =
  vv_node :: string
  vv_cluster :: string
  vv_identity :: string
  vv_account :: account_state
  vv_balance :: balance_view
  vv_lag :: lag_view
  vv_leader :: "leader_report option"

datatype vote_result =
    VoteError string
  | VoteStatus vote_view

text \<open>\<open>out["voting"]\<close>\<close>

definition voting :: "vote_view \<Rightarrow> bool" where
  "voting v = (case vv_account v of Listed a \<Rightarrow> \<not> av_delinquent a | _ \<Rightarrow> False)"

definition low_balance :: "vote_view \<Rightarrow> bool" where
  "low_balance v = (case vv_balance v of Balance _ low \<Rightarrow> low | BalanceError _ \<Rightarrow> False)"

definition next_window :: "env \<Rightarrow> string \<Rightarrow> string \<Rightarrow> leader_report option io" where
  "next_window E ref identity =
     catch (bind_io (leader_windows E ref identity 5) (\<lambda>l. ret (Some l)))
       (\<lambda>e. if is_leader_failure e then Some (ret None) else None)"

text \<open>The entry as the first \<open>try\<close> leaves it: an error text, or what was found\<close>

definition vote_lookup :: "env \<Rightarrow> string \<Rightarrow> string \<Rightarrow> (string + (json \<times> bool) option) io" where
  "vote_lookup E ref identity =
     bind_io (attempt (rpc_call E ref ''getVoteAccounts'' vote_params)) (\<lambda>r. case r of
       Inl e \<Rightarrow> ret (Inl (exn_text E e))
     | Inr accts \<Rightarrow> bind_io (lift (find_entry identity accts)) (\<lambda>found. ret (Inr found)))"

definition account_state :: "string + (json \<times> bool) option \<Rightarrow> exn + account_state" where
  "account_state looked =
     (case looked of
        Inl e \<Rightarrow> Inr (AccountError e)
      | Inr None \<Rightarrow> Inr NotListed
      | Inr (Some (entry, delinquent)) \<Rightarrow>
          and_then (account_of entry delinquent) (\<lambda>a. Inr (Listed a)))"

definition vote_view_of :: "env \<Rightarrow> string \<Rightarrow> string \<Rightarrow> node \<Rightarrow> string \<Rightarrow> string \<Rightarrow> vote_view io" where
  "vote_view_of E nm cn n ref identity =
     bind_io (vote_lookup E ref identity) (\<lambda>looked.
     bind_io (balance_view E ref identity) (\<lambda>balance.
     bind_io (lag_view E ref (n_rpc_url n)) (\<lambda>lag.
     bind_io (next_window E ref identity) (\<lambda>leader.
     bind_io (lift (account_state looked)) (\<lambda>account.
     ret \<lparr>vv_node = nm, vv_cluster = cn, vv_identity = identity, vv_account = account,
          vv_balance = balance, vv_lag = lag, vv_leader = leader\<rparr>)))))"

definition vote_status :: "env \<Rightarrow> fleet \<Rightarrow> string \<Rightarrow> vote_result io" where
  "vote_status E f node_name =
     (case find_node f node_name of
        None \<Rightarrow> ret (VoteError (''unknown node '' @ py_repr node_name))
      | Some (cn, c, n) \<Rightarrow>
          if n_role n \<noteq> Validator \<or> \<not> truthy (n_identity n) then
            ret (VoteError (node_name @ '' is not a voting validator ''
              @ ''(needs role=validator and an identity pubkey)''))
          else bind_io (vote_view_of E node_name cn n (cl_reference_rpc c) (the (n_identity n)))
                 (\<lambda>v. ret (VoteStatus v)))"

text \<open>The dict of the result\<close>

definition account_json :: "account_state \<Rightarrow> (string \<times> json) list" where
  "account_json s =
     (let absent = [(''in_vote_set'', JBool False), (''voting'', JBool False),
            (''note'', JStr (''identity not in the cluster's vote accounts yet ''
               @ ''(no vote account, or freshly created and not seen)''))]
      in case s of
           AccountError _ \<Rightarrow> absent
         | NotListed \<Rightarrow> absent
         | Listed a \<Rightarrow>
             [(''in_vote_set'', JBool True), (''vote_account'', av_vote_account a),
              (''voting'', JBool (\<not> av_delinquent a)), (''delinquent'', JBool (av_delinquent a)),
              (''credits'', av_credits a), (''last_vote'', av_last_vote a),
              (''root_slot'', av_root_slot a), (''commission'', av_commission a),
              (''activated_stake_sol'', JNum (av_stake_sol a))])"

definition balance_json :: "balance_view \<Rightarrow> (string \<times> json) list" where
  "balance_json b =
     (case b of
        BalanceError e \<Rightarrow> [(''balance_error'', JStr e)]
      | Balance sol low \<Rightarrow> [(''identity_balance_sol'', JNum sol), (''low_balance'', JBool low)])"

definition lag_json :: "lag_view \<Rightarrow> (string \<times> json) list" where
  "lag_json v =
     (case v of
        NoLag \<Rightarrow> []
      | LagUnknown \<Rightarrow> [(''caught_up'', JNull)]
      | Lag k \<Rightarrow> [(''slot_lag'', JInt k), (''caught_up'', JBool (lag_caught_up v))])"

definition vote_json :: "vote_result \<Rightarrow> json" where
  "vote_json r =
     (case r of
        VoteError e \<Rightarrow> JObj [(''error'', JStr e)]
      | VoteStatus v \<Rightarrow> JObj
          ([(''node'', JStr (vv_node v)), (''cluster'', JStr (vv_cluster v)),
            (''identity'', JStr (vv_identity v))]
           @ (case vv_account v of AccountError e \<Rightarrow> [(''vote_account_error'', JStr e)] | _ \<Rightarrow> [])
           @ balance_json (vv_balance v) @ lag_json (vv_lag v)
           @ [(''leader'', leader_opt_json (vv_leader v))] @ account_json (vv_account v)))"

section \<open>What the status reads\<close>

lemma adds_vote_status: "adds is_rpc_event (vote_status E f node_name)"
proof -
  have "adds is_rpc_event (next_window E ref identity)" for ref identity
    unfolding next_window_def
    by (intro frame_rules adds_leader_windows) (auto intro!: adds_ret split: if_splits)
  then show ?thesis
    unfolding vote_status_def vote_view_of_def vote_lookup_def balance_view_def lag_view_def
    by (intro frame_rules adds_rpc)
qed

text \<open>An entry of the identity\<close>

definition is_entry :: "string \<Rightarrow> json \<Rightarrow> bool" where
  "is_entry identity a \<longleftrightarrow> json_get a ''nodePubkey'' = Inr (Some (JStr identity))"

definition listed :: "string \<Rightarrow> json list \<Rightarrow> bool" where
  "listed identity as \<longleftrightarrow> list_ex (is_entry identity) as"

lemma scan_group_result:
  "scan_group identity flag as found = Inr r \<Longrightarrow>
   (if listed identity as then \<exists>a \<in> set as. is_entry identity a \<and> r = Some (a, flag) else r = found)"
proof (induction as arbitrary: found)
  case (Cons a as)
  from Cons.prems obtain key where k: "json_get a ''nodePubkey'' = Inr key"
    "scan_group identity flag as (if key = Some (JStr identity) then Some (a, flag) else found) = Inr r"
    by (auto simp: and_then_Inr)
  with Cons.IH [OF k(2)] show ?case
    by (cases "listed identity as") (auto simp: listed_def is_entry_def)
qed (simp add: listed_def)

lemma find_entry_result:
  assumes "find_entry identity accts = Inr r"
    and "group_of accts ''current'' = Inr cur" and "group_of accts ''delinquent'' = Inr del"
  shows "if listed identity del then \<exists>a. r = Some (a, True)
    else if listed identity cur then \<exists>a. r = Some (a, False) else r = None"
proof -
  from assms obtain found where "scan_group identity False cur None = Inr found"
    "scan_group identity True del found = Inr r" by (auto simp: find_entry_def and_then_Inr)
  from scan_group_result [OF this(1)] scan_group_result [OF this(2)] show ?thesis
    by (auto split: if_splits)
qed

lemma account_state_voting:
  assumes "account_state (Inr found) = Inr s"
  shows "(\<exists>a. s = Listed a \<and> \<not> av_delinquent a) \<longleftrightarrow> (\<exists>e. found = Some (e, False))"
    and "s = NotListed \<longleftrightarrow> found = None" and "s \<noteq> AccountError e"
  using assms by (auto simp: account_state_def account_of_def and_then_Inr split: option.splits)

lemma vote_view_account:
  assumes "vote_view_of E nm cn n ref identity w = (Inr v, w')"
    and "rpc_result ''getVoteAccounts'' (env_rpc E (trace w) ref ''getVoteAccounts'' vote_params) = Inr accts"
  obtains found where "find_entry identity accts = Inr found" "account_state (Inr found) = Inr (vv_account v)"
  using assms
  by (auto simp: vote_view_of_def vote_lookup_def attempt_def rpc_call_def lift_def ret_def
      elim!: bind_io_Inr split: sum.splits)

section \<open>Properties\<close>


text \<open>A cluster whose RPC lists the identity among the current accounts\<close>

definition voting_rpc :: env where
  "voting_rpc = \<lparr>env_run = \<lambda>_ _. \<lparr>exit_code = 0, stdout = [], stderr = []\<rparr>,
     env_rpc = \<lambda>_ _ m _.
       if m = ''getVoteAccounts'' then Body (JObj [(''result'', JObj
         [(''current'', JList [JObj [(''nodePubkey'', JStr ''id1''), (''activatedStake'', JInt 5)]])])])
       else if m = ''getEpochInfo'' then TransportFailed ''timeout''
       else Body (JObj [(''result'', JInt 7)]),
     env_tmp = \<lambda>_. [], env_str = \<lambda>_. []\<rparr>"

definition val1 :: node where
  "val1 = basic_node ''val1'' Validator ''10.0.0.2'' None (Some ''id1'')"

definition val_cluster :: cluster where
  "val_cluster = \<lparr>cl_reference_rpc = ''ref'', cl_install = None, cl_network = None, cl_nodes = [val1]\<rparr>"

definition val_fleet :: fleet where
  "val_fleet = \<lparr>fl_clusters = [(''mainnet'', val_cluster)], fl_builders = [], fl_dns = None\<rparr>"


text \<open>
  The warning of a low balance is given on the rounded amount: an identity whose balance is
  a natural number of lamports is warned about exactly below 999950000 of them, although the
  threshold is one SOL, a thousand million.
\<close>

theorem low_balance_threshold:
  assumes "balance_of (JInt (int k)) = Inr sol"
  shows "(sol < low_balance_sol) = (k < 999950000)"
proof -
  let ?q = "k div 100000" and ?m = "k mod 100000"
  let ?y = "of_int (int k) / of_int lamports_per_sol * 10 ^ 4 :: rat"
  have sol: "sol = py_round 4 (of_int (int k) / of_int lamports_per_sol)"
    using assms by (cases "k = 0") (auto simp: balance_of_def in_sol_def json_truthy_def Let_def)
  have y: "?y = of_nat k / of_nat 100000" by (simp add: lamports_per_sol_def)
  have fl: "\<lfloor>?y\<rfloor> = int ?q" unfolding y by (rule floor_divide_of_nat_eq)
  have "rat_of_nat k = of_nat (?q * 100000 + ?m)" by simp
  then have "rat_of_nat k = of_nat ?q * 100000 + of_nat ?m"
    by (simp only: of_nat_add of_nat_mult of_nat_numeral)
  then have rest: "?y - of_int \<lfloor>?y\<rfloor> = of_nat ?m / 100000"
    unfolding fl unfolding y by (simp add: field_simps)
  have cmp: "of_nat ?m / 100000 < (1 / 2 :: rat) \<longleftrightarrow> ?m < 50000"
    "of_nat ?m / 100000 > (1 / 2 :: rat) \<longleftrightarrow> 50000 < ?m"
    using of_nat_less_iff [of ?m 50000, where 'a = rat] of_nat_less_iff [of 50000 ?m, where 'a = rat]
    by (simp_all add: field_simps)
  let ?r = "if ?m < 50000 then int ?q else if 50000 < ?m then int ?q + 1
      else if even (int ?q) then int ?q else int ?q + 1"
  have r: "sol = of_int ?r / 10 ^ 4"
    unfolding sol py_round_def Let_def rest unfolding fl cmp by (rule refl)
  have lt: "x < low_balance_sol \<longleftrightarrow> r < 10000" if "x = rat_of_int r / 10 ^ 4" for x r
    unfolding that low_balance_sol_def by (simp add: divide_less_eq)
  from lt [OF r] have "sol < low_balance_sol \<longleftrightarrow> ?r < 10000" .
  also have "\<dots> \<longleftrightarrow> k < 999950000"
  proof (cases "?q = 9999")
    case True
    then have "k = 999900000 + ?m" using div_mult_mod_eq [of k 100000] by linarith
    with True show ?thesis by auto
  next
    case False
    then have "?q < 9999 \<or> 9999 < ?q" by linarith
    moreover have "?q < 9999 \<longleftrightarrow> k < 999900000" "9999 < ?q \<longleftrightarrow> 1000000000 \<le> k"
      by (auto simp: div_less_iff_less_mult less_eq_div_iff_mult_less_eq Suc_le_eq [symmetric])
    ultimately show ?thesis by auto
  qed
  finally show ?thesis .
qed

theorem low_balance_threshold_witness:
  "\<not> snd (case balance_of (JInt (int 999960000)) of Inr sol \<Rightarrow> (sol, sol < low_balance_sol) | Inl e \<Rightarrow> (0, True))"
proof -
  obtain sol where s: "balance_of (JInt (int 999960000)) = Inr sol"
    by (auto simp: balance_of_def in_sol_def json_truthy_def Let_def)
  from low_balance_threshold [OF s] s show ?thesis by simp
qed

end
