(* ===== verification/Cloudflare.thy ===== *)
theory Cloudflare
  imports Dns
begin

text \<open>
  The Cloudflare driver of \<open>dns.py\<close>. The HTTP client is a parameter: what it answers, and what
  becomes of the zone behind it. What the driver relies on of the API is the predicate
  \<open>cloudflare_api\<close>; under it the driver fulfils the contract of a driver.
\<close>

section \<open>The client\<close>

datatype http_request =
    Get string "(string \<times> string) list"
  | Post string json
  | Delete string

type_synonym 's http_client = "http_request \<Rightarrow> 's \<Rightarrow> http_reply \<times> 's"

record 's cf_state =
  cf_zone_id :: "string option"
  cf_zone_state :: 's

text \<open>\<open>raise_for_status\<close>\<close>

definition http_ok :: "http_reply \<Rightarrow> bool" where
  "http_ok reply = (case reply of TransportFailed _ \<Rightarrow> False | BadStatus _ \<Rightarrow> False | _ \<Rightarrow> True)"

definition http_error :: "http_reply \<Rightarrow> exn" where
  "http_error reply = HttpError (case reply of TransportFailed e \<Rightarrow> e | BadStatus e \<Rightarrow> e | _ \<Rightarrow> [])"

text \<open>\<open>r.json().get("result") or []\<close>\<close>

definition cf_result :: "json \<Rightarrow> exn + json list" where
  "cf_result body =
     and_then (json_get body ''result'') (\<lambda>r. case r of
       None \<Rightarrow> Inr []
     | Some v \<Rightarrow> if json_truthy v then as_list v else Inr [])"

definition cf_body :: "http_reply \<Rightarrow> exn + json list" where
  "cf_body reply =
     (if \<not> http_ok reply then Inl (http_error reply)
      else case reply of Body b \<Rightarrow> cf_result b | _ \<Rightarrow> Inl JsonDecodeError)"

definition cf_send :: "'s http_client \<Rightarrow> http_request \<Rightarrow> ('s cf_state, http_reply) drv" where
  "cf_send client req d =
     (let (reply, s) = client req (cf_zone_state d) in (Inr reply, d\<lparr>cf_zone_state := s\<rparr>))"

definition cf_get :: "'s http_client \<Rightarrow> string \<Rightarrow> (string \<times> string) list \<Rightarrow> ('s cf_state, json list) drv" where
  "cf_get client path params =
     bind_drv (cf_send client (Get path params)) (\<lambda>reply. lift_drv (cf_body reply))"

definition cf_change :: "'s http_client \<Rightarrow> http_request \<Rightarrow> ('s cf_state, unit) drv" where
  "cf_change client req =
     bind_drv (cf_send client req) (\<lambda>reply.
       lift_drv (if http_ok reply then Inr () else Inl (http_error reply)))"

section \<open>The driver\<close>

text \<open>The id of the first zone found, remembered for the next call\<close>

definition cf_first_id :: "string \<Rightarrow> json list \<Rightarrow> exn + string" where
  "cf_first_id zone result =
     (case result of
        [] \<Rightarrow> Inl (DnsError (''cloudflare zone '' @ py_repr zone @ '' not found''))
      | z # _ \<Rightarrow> json_str z ''id'')"

definition cf_remember :: "string \<Rightarrow> ('s cf_state, string) drv" where
  "cf_remember i d = (Inr i, d\<lparr>cf_zone_id := Some i\<rparr>)"

definition cf_zid :: "'s http_client \<Rightarrow> string \<Rightarrow> ('s cf_state, string) drv" where
  "cf_zid client zone d =
     (case cf_zone_id d of
        Some z \<Rightarrow> (Inr z, d)
      | None \<Rightarrow>
          bind_drv (cf_get client ''/zones'' [(''name'', zone)]) (\<lambda>result.
          bind_drv (lift_drv (cf_first_id zone result)) cf_remember) d)"

definition records_path :: "string \<Rightarrow> string" where
  "records_path z = ''/zones/'' @ z @ ''/dns_records''"

definition cf_records :: "'s http_client \<Rightarrow> string \<Rightarrow> string \<Rightarrow> string \<Rightarrow> ('s cf_state, json list) drv" where
  "cf_records client zone rtype name =
     bind_drv (cf_zid client zone) (\<lambda>z.
       cf_get client (records_path z) [(''type'', rtype), (''name'', name)])"

definition cf_list_members :: "'s http_client \<Rightarrow> string \<Rightarrow> string \<Rightarrow> ('s cf_state, string list) drv" where
  "cf_list_members client zone r =
     bind_drv (cf_records client zone ''A'' r) (\<lambda>recs.
       lift_drv (and_then (all_of (\<lambda>rec. json_str rec ''content'') recs) (\<lambda>xs. Inr (sort xs))))"

definition new_record :: "string \<Rightarrow> string \<Rightarrow> string \<Rightarrow> int \<Rightarrow> json" where
  "new_record rtype name content ttl = JObj
     [(''type'', JStr rtype), (''name'', JStr name), (''content'', JStr content), (''ttl'', JInt ttl)]"

definition cf_add_member ::
  "'s http_client \<Rightarrow> string \<Rightarrow> string \<Rightarrow> string \<Rightarrow> int \<Rightarrow> ('s cf_state, unit) drv" where
  "cf_add_member client zone r ip ttl =
     bind_drv (cf_list_members client zone r) (\<lambda>members.
       if ip \<in> set members then ret_drv ()
       else bind_drv (cf_zid client zone) (\<lambda>z.
              cf_change client (Post (records_path z) (new_record ''A'' r ip ttl))))"

fun cf_delete_matching ::
  "'s http_client \<Rightarrow> string \<Rightarrow> string \<Rightarrow> json list \<Rightarrow> ('s cf_state, unit) drv" where
  "cf_delete_matching client zone ip [] = ret_drv ()"
| "cf_delete_matching client zone ip (rec # recs) =
     bind_drv (lift_drv (json_index rec ''content'')) (\<lambda>content.
     bind_drv
       (if content = JStr ip then
          bind_drv (cf_zid client zone) (\<lambda>z.
          bind_drv (lift_drv (json_str rec ''id'')) (\<lambda>i.
            cf_change client (Delete (records_path z @ ''/'' @ i))))
        else ret_drv ()) (\<lambda>_.
     cf_delete_matching client zone ip recs))"

definition cf_remove_member :: "'s http_client \<Rightarrow> string \<Rightarrow> string \<Rightarrow> string \<Rightarrow> ('s cf_state, unit) drv" where
  "cf_remove_member client zone r ip =
     bind_drv (cf_records client zone ''A'' r) (cf_delete_matching client zone ip)"

definition cf_has_marker :: "'s http_client \<Rightarrow> string \<Rightarrow> string \<Rightarrow> ('s cf_state, bool) drv" where
  "cf_has_marker client zone r =
     bind_drv (cf_records client zone ''TXT'' (marker_name r)) (\<lambda>recs. ret_drv (recs \<noteq> []))"

definition cf_ensure_marker :: "'s http_client \<Rightarrow> string \<Rightarrow> string \<Rightarrow> ('s cf_state, unit) drv" where
  "cf_ensure_marker client zone r =
     bind_drv (cf_has_marker client zone r) (\<lambda>present.
       if present then ret_drv ()
       else bind_drv (cf_zid client zone) (\<lambda>z.
              cf_change client (Post (records_path z)
                (new_record ''TXT'' (marker_name r) marker_content 300))))"

definition cloudflare_ops :: "'s http_client \<Rightarrow> string \<Rightarrow> 's cf_state dns_ops" where
  "cloudflare_ops client zone =
     \<lparr>list_members = cf_list_members client zone, add_member = cf_add_member client zone,
      remove_member = cf_remove_member client zone, has_marker = cf_has_marker client zone,
      ensure_marker = cf_ensure_marker client zone\<rparr>"

section \<open>What the driver relies on of the API\<close>

record zone_record =
  zr_type :: string
  zr_name :: string
  zr_content :: string
  zr_id :: string

definition shows_record :: "json \<Rightarrow> zone_record \<Rightarrow> bool" where
  "shows_record j r \<longleftrightarrow> json_str j ''content'' = Inr (zr_content r) \<and> json_str j ''id'' = Inr (zr_id r)"

definition named :: "string \<Rightarrow> string \<Rightarrow> zone_record \<Rightarrow> bool" where
  "named rtype name r \<longleftrightarrow> zr_type r = rtype \<and> zr_name r = name"

text \<open>
  The documented behaviour of the API for one zone: looking the zone up gives its id; listing
  gives the records of a type and a name, with their ids; posting adds one record; deleting
  removes the record of that id, and ids are unique. A change that fails may have been made.
\<close>

definition zone_api :: "'s http_client \<Rightarrow> string \<Rightarrow> string \<Rightarrow> ('s \<Rightarrow> zone_record list) \<Rightarrow> ('s \<Rightarrow> bool) \<Rightarrow> bool" where
  "zone_api client zone zid recs ok \<longleftrightarrow>
     (\<forall>s reply s'. ok s \<longrightarrow> client (Get ''/zones'' [(''name'', zone)]) s = (reply, s') \<longrightarrow>
        ok s' \<and> recs s' = recs s \<and>
        (\<forall>js. cf_body reply = Inr js \<longrightarrow> (\<exists>z zs. js = z # zs \<and> json_str z ''id'' = Inr zid)))"

definition list_api :: "'s http_client \<Rightarrow> string \<Rightarrow> ('s \<Rightarrow> zone_record list) \<Rightarrow> ('s \<Rightarrow> bool) \<Rightarrow> bool" where
  "list_api client zid recs ok \<longleftrightarrow>
     (\<forall>s t nm reply s'. ok s \<longrightarrow>
        client (Get (records_path zid) [(''type'', t), (''name'', nm)]) s = (reply, s') \<longrightarrow>
        ok s' \<and> recs s' = recs s \<and>
        (\<forall>js. cf_body reply = Inr js \<longrightarrow> list_all2 shows_record js (filter (named t nm) (recs s))))"

definition post_api :: "'s http_client \<Rightarrow> string \<Rightarrow> ('s \<Rightarrow> zone_record list) \<Rightarrow> ('s \<Rightarrow> bool) \<Rightarrow> bool" where
  "post_api client zid recs ok \<longleftrightarrow>
     (\<forall>s t nm c ttl reply s'. ok s \<longrightarrow>
        client (Post (records_path zid) (new_record t nm c ttl)) s = (reply, s') \<longrightarrow>
        ok s' \<and> (\<not> http_ok reply \<and> recs s' = recs s \<or>
          (\<exists>i. recs s' = recs s @ [\<lparr>zr_type = t, zr_name = nm, zr_content = c, zr_id = i\<rparr>])))"

definition delete_api :: "'s http_client \<Rightarrow> string \<Rightarrow> ('s \<Rightarrow> zone_record list) \<Rightarrow> ('s \<Rightarrow> bool) \<Rightarrow> bool" where
  "delete_api client zid recs ok \<longleftrightarrow>
     (\<forall>s i reply s'. ok s \<longrightarrow> client (Delete (records_path zid @ ''/'' @ i)) s = (reply, s') \<longrightarrow>
        ok s' \<and> (\<not> http_ok reply \<and> recs s' = recs s \<or> recs s' = filter (\<lambda>r. zr_id r \<noteq> i) (recs s)))"

definition cloudflare_api ::
  "'s http_client \<Rightarrow> string \<Rightarrow> string \<Rightarrow> ('s \<Rightarrow> zone_record list) \<Rightarrow> ('s \<Rightarrow> bool) \<Rightarrow> bool" where
  "cloudflare_api client zone zid recs ok \<longleftrightarrow>
     zone_api client zone zid recs ok \<and> list_api client zid recs ok \<and> post_api client zid recs ok \<and>
     delete_api client zid recs ok \<and> (\<forall>s. ok s \<longrightarrow> distinct (map zr_id (recs s)))"

lemma cloudflare_apiD:
  assumes "cloudflare_api client zone zid recs ok" and "ok s"
  shows zone_apiD: "client (Get ''/zones'' [(''name'', zone)]) s = (reply, s') \<Longrightarrow>
      ok s' \<and> recs s' = recs s \<and>
      (\<forall>js. cf_body reply = Inr js \<longrightarrow> (\<exists>z zs. js = z # zs \<and> json_str z ''id'' = Inr zid))"
    and list_apiD: "client (Get (records_path zid) [(''type'', t), (''name'', nm)]) s = (reply, s') \<Longrightarrow>
      ok s' \<and> recs s' = recs s \<and>
      (\<forall>js. cf_body reply = Inr js \<longrightarrow> list_all2 shows_record js (filter (named t nm) (recs s)))"
    and post_apiD: "client (Post (records_path zid) (new_record t nm c ttl)) s = (reply, s') \<Longrightarrow>
      ok s' \<and> (\<not> http_ok reply \<and> recs s' = recs s \<or>
        (\<exists>i. recs s' = recs s @ [\<lparr>zr_type = t, zr_name = nm, zr_content = c, zr_id = i\<rparr>]))"
    and delete_apiD: "client (Delete (records_path zid @ ''/'' @ i)) s = (reply, s') \<Longrightarrow>
      ok s' \<and> (\<not> http_ok reply \<and> recs s' = recs s \<or> recs s' = filter (\<lambda>r. zr_id r \<noteq> i) (recs s))"
    and ids_distinct: "distinct (map zr_id (recs s))"
  using assms
  unfolding cloudflare_api_def zone_api_def list_api_def post_api_def delete_api_def
  by (elim conjE, metis)+

text \<open>The addresses and the markers the zone holds, and the driver states in question\<close>

definition cf_members :: "('s \<Rightarrow> zone_record list) \<Rightarrow> 's cf_state \<Rightarrow> string \<Rightarrow> string set" where
  "cf_members recs d r = zr_content ` {x \<in> set (recs (cf_zone_state d)). named ''A'' r x}"

definition cf_marked :: "('s \<Rightarrow> zone_record list) \<Rightarrow> 's cf_state \<Rightarrow> string set" where
  "cf_marked recs d = {r. \<exists>x \<in> set (recs (cf_zone_state d)). named ''TXT'' (marker_name r) x}"

definition cf_ok :: "string \<Rightarrow> ('s \<Rightarrow> bool) \<Rightarrow> 's cf_state \<Rightarrow> bool" where
  "cf_ok zid ok d \<longleftrightarrow> ok (cf_zone_state d) \<and> (cf_zone_id d = None \<or> cf_zone_id d = Some zid)"

section \<open>The driver fulfils the contract\<close>

abbreviation zone_records :: "('s \<Rightarrow> zone_record list) \<Rightarrow> 's cf_state \<Rightarrow> zone_record list" where
  "zone_records recs d \<equiv> recs (cf_zone_state d)"

lemma cf_sendE:
  assumes "cf_send client req d = (res, d')"
  obtains reply where "client req (cf_zone_state d) = (reply, cf_zone_state d')"
    "res = Inr reply" "cf_zone_id d' = cf_zone_id d"
  using assms by (auto simp: cf_send_def split: prod.splits)

lemma cf_getE:
  assumes "cf_get client path params d = (res, d')"
  obtains reply where "client (Get path params) (cf_zone_state d) = (reply, cf_zone_state d')"
    "res = cf_body reply" "cf_zone_id d' = cf_zone_id d"
  using assms unfolding cf_get_def
  by (elim bind_drvE) (auto simp: lift_drv_def elim!: cf_sendE)

lemma cf_changeE:
  assumes "cf_change client req d = (res, d')"
  obtains reply where "client req (cf_zone_state d) = (reply, cf_zone_state d')"
    "isl res \<longleftrightarrow> \<not> http_ok reply" "cf_zone_id d' = cf_zone_id d"
  using assms unfolding cf_change_def
  by (elim bind_drvE) (auto simp: lift_drv_def elim!: cf_sendE split: if_splits)

lemma cf_zid_result:
  assumes "cloudflare_api client zone zid recs ok" and "cf_ok zid ok d"
    and "cf_zid client zone d = (res, d')"
  shows "cf_ok zid ok d' \<and> zone_records recs d' = zone_records recs d \<and> (\<forall>z. res = Inr z \<longrightarrow> z = zid)"
proof (cases "cf_zone_id d")
  case (Some z)
  with assms show ?thesis by (auto simp: cf_zid_def cf_ok_def)
next
  case None
  have z: "bind_drv (cf_get client ''/zones'' [(''name'', zone)]) (\<lambda>result.
          bind_drv (lift_drv (cf_first_id zone result)) cf_remember) d = (res, d')"
    using assms(3) None by (simp add: cf_zid_def)
  have step: "ok s' \<and> recs s' = recs (cf_zone_state d) \<and>
      (\<forall>js. cf_body reply = Inr js \<longrightarrow> (\<exists>z zs. js = z # zs \<and> json_str z ''id'' = Inr zid))"
    if "client (Get ''/zones'' [(''name'', zone)]) (cf_zone_state d) = (reply, s')" for reply s'
    using zone_apiD [OF assms(1) _ that] assms(2) by (simp add: cf_ok_def)
  from z show ?thesis
  proof (cases rule: bind_drvE)
    case (raised e)
    from cf_getE [OF raised(1)] step None raised(2) show ?thesis by (auto simp: cf_ok_def)
  next
    case (returned js d1)
    from cf_getE [OF returned(1)] obtain reply where g:
      "client (Get ''/zones'' [(''name'', zone)]) (cf_zone_state d) = (reply, cf_zone_state d1)"
      "cf_body reply = Inr js" "cf_zone_id d1 = cf_zone_id d" by metis
    with step [OF g(1)] obtain y ys where "js = y # ys" "json_str y ''id'' = Inr zid" by blast
    with returned(2) g step [OF g(1)] None show ?thesis
      by (auto simp: bind_drv_def lift_drv_def cf_first_id_def cf_remember_def cf_ok_def)
  qed
qed

lemma cf_records_result:
  assumes "cloudflare_api client zone zid recs ok" and "cf_ok zid ok d"
    and "cf_records client zone t nm d = (res, d')"
  shows "cf_ok zid ok d' \<and> zone_records recs d' = zone_records recs d \<and>
    (\<forall>js. res = Inr js \<longrightarrow> list_all2 shows_record js (filter (named t nm) (zone_records recs d)))"
proof -
  from assms(3)[unfolded cf_records_def] show ?thesis
  proof (cases rule: bind_drvE)
    case (raised e)
    with cf_zid_result [OF assms(1,2) raised(1)] show ?thesis by auto
  next
    case (returned z d1)
    note zid = cf_zid_result [OF assms(1,2) returned(1)]
    from cf_getE [OF returned(2)] zid obtain reply where g:
      "client (Get (records_path zid) [(''type'', t), (''name'', nm)]) (cf_zone_state d1) = (reply, cf_zone_state d')"
      "res = cf_body reply" "cf_zone_id d' = cf_zone_id d1" by metis
    have "ok (cf_zone_state d1)" using zid by (simp add: cf_ok_def)
    from list_apiD [OF assms(1) this g(1)]
    have "ok (cf_zone_state d') \<and> zone_records recs d' = zone_records recs d1 \<and>
        (\<forall>js. cf_body reply = Inr js \<longrightarrow> list_all2 shows_record js (filter (named t nm) (zone_records recs d1)))" .
    with zid g show ?thesis by (auto simp: cf_ok_def)
  qed
qed

lemma contents_shown:
  "list_all2 shows_record js rs \<Longrightarrow> all_of (\<lambda>rec. json_str rec ''content'') js = Inr (map zr_content rs)"
  by (induction rule: list_all2_induct) (simp_all add: shows_record_def)

lemma cf_list_result:
  assumes "cloudflare_api client zone zid recs ok" and "cf_ok zid ok d"
    and "cf_list_members client zone r d = (res, d')"
  shows "cf_ok zid ok d' \<and> zone_records recs d' = zone_records recs d \<and>
    (\<forall>xs. res = Inr xs \<longrightarrow> set xs = cf_members recs d r)"
proof -
  from assms(3)[unfolded cf_list_members_def] show ?thesis
  proof (cases rule: bind_drvE)
    case (raised e)
    with cf_records_result [OF assms(1,2) raised(1)] show ?thesis by auto
  next
    case (returned js d1)
    from cf_records_result [OF assms(1,2) returned(1)] returned(2) contents_shown show ?thesis
      by (fastforce simp: lift_drv_def cf_members_def)
  qed
qed

lemma cf_post_result:
  assumes "cloudflare_api client zone zid recs ok" and "cf_ok zid ok d"
    and "bind_drv (cf_zid client zone) (\<lambda>z. cf_change client (Post (records_path z) (new_record t nm c ttl))) d
      = (res, d')"
  shows "cf_ok zid ok d' \<and> (isl res \<and> zone_records recs d' = zone_records recs d \<or>
    (\<exists>i. zone_records recs d' = zone_records recs d
       @ [\<lparr>zr_type = t, zr_name = nm, zr_content = c, zr_id = i\<rparr>]))"
  using assms(3)
proof (cases rule: bind_drvE)
  case (raised e)
  with cf_zid_result [OF assms(1,2) raised(1)] show ?thesis by auto
next
  case (returned z d1)
  note zid = cf_zid_result [OF assms(1,2) returned(1)]
  from cf_changeE [OF returned(2)] zid obtain reply where g:
    "client (Post (records_path zid) (new_record t nm c ttl)) (cf_zone_state d1) = (reply, cf_zone_state d')"
    "isl res \<longleftrightarrow> \<not> http_ok reply" "cf_zone_id d' = cf_zone_id d1" by metis
  have "ok (cf_zone_state d1)" using zid by (simp add: cf_ok_def)
  from post_apiD [OF assms(1) this g(1)] have "ok (cf_zone_state d') \<and> (\<not> http_ok reply \<and> zone_records recs d' = zone_records recs d1 \<or>
      (\<exists>i. zone_records recs d' = zone_records recs d1
         @ [\<lparr>zr_type = t, zr_name = nm, zr_content = c, zr_id = i\<rparr>]))" .
  with zid g show ?thesis by (auto simp: cf_ok_def)
qed

text \<open>Deleting the listed records of an address, with all of them still in the zone\<close>

lemma cf_delete_matching_result:
  assumes "cloudflare_api client zone zid recs ok"
  shows "cf_ok zid ok d \<Longrightarrow> list_all2 shows_record js rs \<Longrightarrow> distinct (map zr_id rs) \<Longrightarrow>
    set rs \<subseteq> set (zone_records recs d) \<Longrightarrow> cf_delete_matching client zone ip js d = (res, d') \<Longrightarrow>
    cf_ok zid ok d' \<and> set (zone_records recs d') \<subseteq> set (zone_records recs d) \<and>
    set (zone_records recs d) - {x \<in> set rs. zr_content x = ip} \<subseteq> set (zone_records recs d') \<and>
    (isl res \<or> set (zone_records recs d') = set (zone_records recs d) - {x \<in> set rs. zr_content x = ip})"
proof (induction js arbitrary: rs d)
  case Nil
  then show ?case by (auto simp: ret_drv_def)
next
  case (Cons j js)
  from Cons.prems(2) obtain x xs where rs: "rs = x # xs" "shows_record j x" "list_all2 shows_record js xs"
    by (cases rs) auto
  have content: "json_index j ''content'' = Inr (JStr (zr_content x))" and id: "json_str j ''id'' = Inr (zr_id x)"
    using rs(2) by (auto simp: shows_record_def json_str_def and_then_Inr split: json.splits)
  have x: "x \<in> set (zone_records recs d)" and xs: "set xs \<subseteq> set (zone_records recs d)" "x \<notin> set xs"
    "distinct (map zr_id xs)" using Cons.prems(3,4) rs(1) by auto
  let ?one = "if zr_content x = ip then bind_drv (cf_zid client zone) (\<lambda>z.
       bind_drv (lift_drv (json_str j ''id'')) (\<lambda>i. cf_change client (Delete (records_path z @ ''/'' @ i))))
     else ret_drv ()"
  have run: "bind_drv ?one (\<lambda>_. cf_delete_matching client zone ip js) d = (res, d')"
    using Cons.prems(5) content by (simp add: bind_drv_def lift_drv_def)
  have one: "cf_ok zid ok d1 \<and> (zone_records recs d1 = zone_records recs d \<and> (isl r1 \<or> zr_content x \<noteq> ip) \<or>
      set (zone_records recs d1) = set (zone_records recs d) - {x} \<and> zr_content x = ip)"
    if "?one d = (r1, d1)" for r1 d1
  proof (cases "zr_content x = ip")
    case False
    with that Cons.prems(1) show ?thesis by (simp add: ret_drv_def)
  next
    case True
    with that have "bind_drv (cf_zid client zone) (\<lambda>z. cf_change client
        (Delete (records_path z @ ''/'' @ zr_id x))) d = (r1, d1)"
      by (simp add: id) (simp add: bind_drv_def lift_drv_def)
    then show ?thesis
    proof (cases rule: bind_drvE)
      case (raised e)
      with cf_zid_result [OF assms Cons.prems(1) raised(1)] show ?thesis by auto
    next
      case (returned z d2)
      note zid = cf_zid_result [OF assms Cons.prems(1) returned(1)]
      from cf_changeE [OF returned(2)] zid obtain reply where g:
        "client (Delete (records_path zid @ ''/'' @ zr_id x)) (cf_zone_state d2) = (reply, cf_zone_state d1)"
        "isl r1 \<longleftrightarrow> \<not> http_ok reply" "cf_zone_id d1 = cf_zone_id d2" by metis
      have ok2: "ok (cf_zone_state d2)" using zid by (simp add: cf_ok_def)
      from delete_apiD [OF assms this g(1)] have "ok (cf_zone_state d1) \<and> (\<not> http_ok reply \<and> zone_records recs d1 = zone_records recs d2 \<or>
          zone_records recs d1 = filter (\<lambda>r. zr_id r \<noteq> zr_id x) (zone_records recs d2))" .
      then have "cf_ok zid ok d1" and del: "\<not> http_ok reply \<and> zone_records recs d1 = zone_records recs d2 \<or>
          zone_records recs d1 = filter (\<lambda>r. zr_id r \<noteq> zr_id x) (zone_records recs d2)"
        using zid g(3) by (simp_all add: cf_ok_def)
      have same: "zone_records recs d2 = zone_records recs d" using zid by blast
      have "distinct (map zr_id (zone_records recs d))"
        using ids_distinct [OF assms ok2] unfolding same .
      with x have "set (filter (\<lambda>r. zr_id r \<noteq> zr_id x) (zone_records recs d)) = set (zone_records recs d) - {x}"
        by (auto simp: distinct_map inj_on_def)
      with del g(2) True have "zone_records recs d1 = zone_records recs d \<and> (isl r1 \<or> zr_content x \<noteq> ip) \<or>
          set (zone_records recs d1) = set (zone_records recs d) - {x} \<and> zr_content x = ip"
        unfolding same by metis
      with \<open>cf_ok zid ok d1\<close> show ?thesis by (rule conjI)
    qed
  qed
  from run show ?case
  proof (cases rule: bind_drvE)
    case (raised e)
    with one [OF raised(1)] rs(1) x show ?thesis by auto
  next
    case (returned u d1)
    note o = one [OF returned(1)]
    have "set xs \<subseteq> set (zone_records recs d1)" using o xs(1,2) by auto
    note rest = Cons.IH [OF conjunct1 [OF o] rs(3) xs(3) this returned(2)]
    show ?thesis
    proof (cases "zr_content x = ip \<and> set (zone_records recs d1) = set (zone_records recs d) - {x}")
      case True
      then have "{y \<in> set rs. zr_content y = ip} = insert x {y \<in> set xs. zr_content y = ip}"
        using rs(1) by auto
      with rest True show ?thesis by auto
    next
      case False
      with o have "zone_records recs d1 = zone_records recs d" "zr_content x \<noteq> ip" by auto
      moreover from this rs(1) have "{y \<in> set rs. zr_content y = ip} = {y \<in> set xs. zr_content y = ip}"
        by auto
      ultimately show ?thesis using rest by simp
    qed
  qed
qed

lemma cf_has_marker_result:
  assumes "cloudflare_api client zone zid recs ok" and "cf_ok zid ok d"
    and "cf_has_marker client zone r d = (res, d')"
  shows "cf_ok zid ok d' \<and> zone_records recs d' = zone_records recs d \<and>
    (\<forall>b. res = Inr b \<longrightarrow> (b \<longleftrightarrow> r \<in> cf_marked recs d))"
proof -
  from assms(3)[unfolded cf_has_marker_def] show ?thesis
  proof (cases rule: bind_drvE)
    case (raised e)
    with cf_records_result [OF assms(1,2) raised(1)] show ?thesis by auto
  next
    case (returned js d1)
    note r = cf_records_result [OF assms(1,2) returned(1)]
    then have "list_all2 shows_record js (filter (named ''TXT'' (marker_name r)) (zone_records recs d))"
      by simp
    then have "length js = length (filter (named ''TXT'' (marker_name r)) (zone_records recs d))"
      by (rule list_all2_lengthD)
    then have "js \<noteq> [] \<longleftrightarrow> filter (named ''TXT'' (marker_name r)) (zone_records recs d) \<noteq> []" by auto
    also have "\<dots> \<longleftrightarrow> r \<in> cf_marked recs d" by (simp add: cf_marked_def filter_empty_conv)
    finally show ?thesis using r returned(2) by (auto simp: ret_drv_def)
  qed
qed

lemma cf_members_Cons:
  "named ''A'' r x \<Longrightarrow> set (zone_records recs d') = insert x (set (zone_records recs d)) \<Longrightarrow>
   cf_members recs d' = (cf_members recs d)(r := insert (zr_content x) (cf_members recs d r))"
  by (auto simp: cf_members_def named_def fun_eq_iff)

lemma cf_members_cong: "zone_records recs d' = zone_records recs d \<Longrightarrow> cf_members recs d' = cf_members recs d"
  by (simp add: cf_members_def fun_eq_iff)

lemma cf_marked_cong: "zone_records recs d' = zone_records recs d \<Longrightarrow> cf_marked recs d' = cf_marked recs d"
  by (simp add: cf_marked_def)

lemma cf_add_result:
  assumes "cloudflare_api client zone zid recs ok" and "cf_ok zid ok d"
    and "cf_add_member client zone r ip ttl d = (res, d')"
  shows "cf_ok zid ok d' \<and> cf_marked recs d' = cf_marked recs d \<and>
    may_apply res (cf_members recs d) ((cf_members recs d)(r := insert ip (cf_members recs d r)))
      (cf_members recs d')"
proof -
  from assms(3)[unfolded cf_add_member_def] show ?thesis
  proof (cases rule: bind_drvE)
    case (raised e)
    with cf_list_result [OF assms(1,2) raised(1)] show ?thesis
      by (auto simp: may_apply_def dest: cf_members_cong cf_marked_cong)
  next
    case (returned xs d1)
    note l = cf_list_result [OF assms(1,2) returned(1)]
    have z: "zone_records recs d1 = zone_records recs d" using l by blast
    note same = cf_members_cong [OF z] cf_marked_cong [OF z]
    show ?thesis
    proof (cases "ip \<in> set xs")
      case True
      with l returned(2) same have "res = Inr ()" "d' = d1" "ip \<in> cf_members recs d r"
        by (auto simp: ret_drv_def)
      with l same show ?thesis by (simp add: insert_absorb fun_upd_idem)
    next
      case False
      with returned(2) have p: "bind_drv (cf_zid client zone) (\<lambda>z. cf_change client
          (Post (records_path z) (new_record ''A'' r ip ttl))) d1 = (res, d')" by simp
      let ?x = "\<lambda>i. \<lparr>zr_type = ''A'', zr_name = r, zr_content = ip, zr_id = i\<rparr>"
      from cf_post_result [OF assms(1) conjunct1 [OF l] p] have ok: "cf_ok zid ok d'" and
        "isl res \<and> zone_records recs d' = zone_records recs d1 \<or>
         (\<exists>i. zone_records recs d' = zone_records recs d1 @ [?x i])" by blast+
      then consider "isl res" "zone_records recs d' = zone_records recs d1"
        | i where "zone_records recs d' = zone_records recs d1 @ [?x i]" by blast
      then show ?thesis
      proof cases
        case 1
        from cf_members_cong [OF 1(2)] cf_marked_cong [OF 1(2)] 1(1) ok same show ?thesis
          by (simp add: may_apply_def)
      next
        case (2 i)
        then have "cf_members recs d' = (cf_members recs d1)(r := insert ip (cf_members recs d1 r))"
          using cf_members_Cons [of r "?x i" recs d' d1] by (simp add: named_def)
        moreover have "cf_marked recs d' = cf_marked recs d1"
          using 2 by (simp add: cf_marked_def named_def)
        ultimately show ?thesis using ok same by (simp add: may_apply_def)
      qed
    qed
  qed
qed

lemma cf_remove_result:
  assumes "cloudflare_api client zone zid recs ok" and "cf_ok zid ok d"
    and "cf_remove_member client zone r ip d = (res, d')"
  shows "cf_ok zid ok d' \<and> cf_marked recs d' = cf_marked recs d \<and>
    may_apply res (cf_members recs d) ((cf_members recs d)(r := cf_members recs d r - {ip}))
      (cf_members recs d')"
proof -
  from assms(3)[unfolded cf_remove_member_def] show ?thesis
  proof (cases rule: bind_drvE)
    case (raised e)
    with cf_records_result [OF assms(1,2) raised(1)] show ?thesis
      by (auto simp: may_apply_def dest: cf_members_cong cf_marked_cong)
  next
    case (returned js d1)
    let ?rs = "filter (named ''A'' r) (zone_records recs d)"
    note l = cf_records_result [OF assms(1,2) returned(1)]
    have same: "zone_records recs d1 = zone_records recs d" using l by blast
    have "distinct (map zr_id (zone_records recs d))"
      using ids_distinct [OF assms(1)] assms(2) by (simp add: cf_ok_def)
    then have "distinct (map zr_id ?rs)" by (rule distinct_map_filter)
    moreover have "set ?rs \<subseteq> set (zone_records recs d1)" using same by auto
    ultimately have del: "cf_ok zid ok d' \<and> set (zone_records recs d') \<subseteq> set (zone_records recs d1) \<and>
      set (zone_records recs d1) - {x \<in> set ?rs. zr_content x = ip} \<subseteq> set (zone_records recs d') \<and>
      (isl res \<or> set (zone_records recs d') = set (zone_records recs d1) - {x \<in> set ?rs. zr_content x = ip})"
      using cf_delete_matching_result [OF assms(1) conjunct1 [OF l] _ _ _ returned(2)] l returned(1) by blast
    have gone: "x \<in> set (zone_records recs d') \<or> named ''A'' r x \<and> zr_content x = ip"
      if "x \<in> set (zone_records recs d)" for x
      using del same that by auto
    have sub: "set (zone_records recs d') \<subseteq> set (zone_records recs d)" using del same by auto
    have "cf_marked recs d' = cf_marked recs d"
      using gone sub unfolding cf_marked_def named_def by fastforce
    moreover have other: "q \<noteq> r \<Longrightarrow> cf_members recs d' q = cf_members recs d q" for q
      using gone sub unfolding cf_members_def named_def by fastforce
    moreover have "cf_members recs d r - {ip} \<subseteq> cf_members recs d' r" "cf_members recs d' r \<subseteq> cf_members recs d r"
      using gone sub unfolding cf_members_def by blast+
    moreover have "ip \<notin> cf_members recs d' r" if "\<not> isl res"
      using del same that unfolding cf_members_def by auto
    ultimately have at: "cf_members recs d' r = (if ip \<in> cf_members recs d' r then cf_members recs d r
        else cf_members recs d r - {ip})" and raised: "ip \<in> cf_members recs d' r \<Longrightarrow> isl res" by auto
    have "may_apply res (cf_members recs d) ((cf_members recs d)(r := cf_members recs d r - {ip}))
      (cf_members recs d')"
    proof (cases "ip \<in> cf_members recs d' r")
      case True
      with at other have "cf_members recs d' = cf_members recs d" by (metis ext)
      with raised [OF True] show ?thesis by (simp add: may_apply_def)
    next
      case False
      have "cf_members recs d' = (cf_members recs d)(r := cf_members recs d r - {ip})"
      proof
        fix q
        from at [unfolded if_not_P [OF False]] other [of q]
        show "cf_members recs d' q = ((cf_members recs d)(r := cf_members recs d r - {ip})) q"
          by (cases "q = r") simp_all
      qed
      then show ?thesis by (simp add: may_apply_def)
    qed
    with del \<open>cf_marked recs d' = cf_marked recs d\<close> show ?thesis by blast
  qed
qed

lemma cf_ensure_result:
  assumes "cloudflare_api client zone zid recs ok" and "cf_ok zid ok d"
    and "cf_ensure_marker client zone r d = (res, d')"
  shows "cf_ok zid ok d' \<and> cf_members recs d' = cf_members recs d \<and>
    may_apply res (cf_marked recs d) (insert r (cf_marked recs d)) (cf_marked recs d')"
proof -
  from assms(3)[unfolded cf_ensure_marker_def] show ?thesis
  proof (cases rule: bind_drvE)
    case (raised e)
    with cf_has_marker_result [OF assms(1,2) raised(1)] show ?thesis
      by (auto simp: may_apply_def dest: cf_members_cong cf_marked_cong)
  next
    case (returned b d1)
    note l = cf_has_marker_result [OF assms(1,2) returned(1)]
    have z: "zone_records recs d1 = zone_records recs d" using l by blast
    note same = cf_members_cong [OF z] cf_marked_cong [OF z]
    show ?thesis
    proof (cases b)
      case True
      with l returned(2) same show ?thesis by (auto simp: ret_drv_def insert_absorb)
    next
      case False
      with returned(2) have p: "bind_drv (cf_zid client zone) (\<lambda>z. cf_change client
          (Post (records_path z) (new_record ''TXT'' (marker_name r) marker_content 300))) d1 = (res, d')" by simp
      let ?x = "\<lambda>i. \<lparr>zr_type = ''TXT'', zr_name = marker_name r, zr_content = marker_content, zr_id = i\<rparr>"
      from cf_post_result [OF assms(1) conjunct1 [OF l] p] have ok: "cf_ok zid ok d'" and
        "isl res \<and> zone_records recs d' = zone_records recs d1 \<or>
         (\<exists>i. zone_records recs d' = zone_records recs d1 @ [?x i])" by blast+
      then consider "isl res" "zone_records recs d' = zone_records recs d1"
        | i where "zone_records recs d' = zone_records recs d1 @ [?x i]" by blast
      then show ?thesis
      proof cases
        case 1
        from cf_members_cong [OF 1(2)] cf_marked_cong [OF 1(2)] 1(1) ok same show ?thesis
          by (simp add: may_apply_def)
      next
        case (2 i)
        have "\<not> named ''A'' q (?x i)" for q by (simp add: named_def)
        with 2 have "{x \<in> set (zone_records recs d'). named ''A'' q x} =
            {x \<in> set (zone_records recs d1). named ''A'' q x}" for q by auto
        then have "cf_members recs d' = cf_members recs d1"
          by (simp add: cf_members_def fun_eq_iff)
        moreover have "cf_marked recs d' = insert r (cf_marked recs d1)"
          using 2 by (auto simp: cf_marked_def named_def marker_name_def)
        ultimately show ?thesis using ok same by (simp add: may_apply_def)
      qed
    qed
  qed
qed

section \<open>Property\<close>


text \<open>A zone that behaves as documented: its records, and the number of the next id\<close>

type_synonym zone = "zone_record list \<times> nat"

definition record_json :: "zone_record \<Rightarrow> json" where
  "record_json r = JObj [(''id'', JStr (zr_id r)), (''content'', JStr (zr_content r))]"

definition answer :: "json list \<Rightarrow> http_reply" where
  "answer js = Body (JObj [(''result'', JList js)])"

fun zone_server :: "zone http_client" where
  "zone_server (Get path params) (rs, k) =
     (if path = ''/zones'' then (answer [JObj [(''id'', JStr ''z1'')]], (rs, k))
      else (case params of
              [(_, t), (_, nm)] \<Rightarrow> (answer (map record_json (filter (named t nm) rs)), (rs, k))
            | _ \<Rightarrow> (BadStatus ''400'', (rs, k))))"
| "zone_server (Post path body) (rs, k) =
     (case body of
        JObj [(_, JStr t), (_, JStr nm), (_, JStr c), _] \<Rightarrow>
          (answer [], (rs @ [\<lparr>zr_type = t, zr_name = nm, zr_content = c, zr_id = show_nat k\<rparr>], Suc k))
      | _ \<Rightarrow> (BadStatus ''400'', (rs, k)))"
| "zone_server (Delete path) (rs, k) =
     (answer [], (filter (\<lambda>r. records_path ''z1'' @ ''/'' @ zr_id r \<noteq> path) rs, k))"

definition zone_ok :: "zone \<Rightarrow> bool" where
  "zone_ok z \<longleftrightarrow> distinct (map zr_id (fst z)) \<and> zr_id ` set (fst z) \<subseteq> show_nat ` {..<snd z}"

lemma show_nat_inj: "show_nat m = show_nat n \<Longrightarrow> m = n"
  by (metis int_of_digits_show_nat of_nat_eq_iff)

lemma answer_body: "cf_body (answer js) = Inr js"
  by (cases js) (simp_all add: cf_body_def answer_def http_ok_def cf_result_def json_get_def
      json_truthy_def as_list_def)

lemma shown_records: "list_all2 shows_record (map record_json rs) rs"
  by (simp add: list_all2_conv_all_nth shows_record_def record_json_def json_str_def json_index_def)

lemma zone_server_api: "cloudflare_api zone_server ''example.com'' ''z1'' fst zone_ok"
  unfolding cloudflare_api_def
proof (intro conjI)
  show "zone_api zone_server ''example.com'' ''z1'' fst zone_ok"
    by (auto simp: zone_api_def answer_body json_str_def json_index_def)
  show "list_api zone_server ''z1'' fst zone_ok"
    by (auto simp: list_api_def records_path_def answer_body shown_records)
  show "delete_api zone_server ''z1'' fst zone_ok"
    by (auto simp: delete_api_def zone_ok_def distinct_map_filter)
  show "\<forall>s. zone_ok s \<longrightarrow> distinct (map zr_id (fst s))" by (simp add: zone_ok_def)
  show "post_api zone_server ''z1'' fst zone_ok"
    unfolding post_api_def
  proof (intro allI impI)
    fix s s' :: zone and t nm c ttl reply
    assume ok: "zone_ok s"
      and post: "zone_server (Post (records_path ''z1'') (new_record t nm c ttl)) s = (reply, s')"
    obtain rs k where s: "s = (rs, k)" by (cases s)
    let ?r = "\<lparr>zr_type = t, zr_name = nm, zr_content = c, zr_id = show_nat k\<rparr>"
    from post have s': "s' = (rs @ [?r], Suc k)" by (simp add: s new_record_def)
    have "show_nat k \<notin> show_nat ` {..<k}" by (auto dest: show_nat_inj)
    with ok have "show_nat k \<notin> zr_id ` set rs" by (auto simp: zone_ok_def s)
    with ok have "zone_ok s'" by (auto simp: zone_ok_def s s')
    then show "zone_ok s' \<and> (\<not> http_ok reply \<and> fst s' = fst s \<or>
        (\<exists>i. fst s' = fst s @ [\<lparr>zr_type = t, zr_name = nm, zr_content = c, zr_id = i\<rparr>]))"
      by (simp add: s s')
  qed
qed


end
