(* ===== verification/Route53.thy ===== *)
theory Route53
  imports Dns Config
begin

text \<open>
  The Route53 driver of \<open>dns.py\<close>, and the choice of the driver. The boto3 client is a
  parameter; what the driver relies on of the service is the predicate \<open>route53_api\<close>. The driver
  keeps one record set per name with all addresses, and rewrites it as a whole.
\<close>

section \<open>The client\<close>

datatype r53_request =
    ListZones string
  | ListSets string string string
  | ChangeSets string json

type_synonym 's r53_client = "r53_request \<Rightarrow> 's \<Rightarrow> (exn + json) \<times> 's"

record 's r53_state =
  r53_zone_id :: "string option"
  r53_service :: 's

definition r53_call :: "'s r53_client \<Rightarrow> r53_request \<Rightarrow> ('s r53_state, json) drv" where
  "r53_call client req d =
     (let (reply, s) = client req (r53_service d) in (reply, d\<lparr>r53_service := s\<rparr>))"

text \<open>\<open>resp.get(key, [])\<close>\<close>

definition r53_items :: "string \<Rightarrow> json \<Rightarrow> exn + json list" where
  "r53_items key resp =
     and_then (json_get resp key) (\<lambda>v. case v of None \<Rightarrow> Inr [] | Some x \<Rightarrow> as_list x)"

section \<open>The driver\<close>

text \<open>\<open>name.rstrip(".") + "."\<close>\<close>

definition fqdn :: "string \<Rightarrow> string" where
  "fqdn name = rstrip_char CHR ''.'' name @ ''.''"

fun first_zone :: "string \<Rightarrow> json list \<Rightarrow> exn + json option" where
  "first_zone zone [] = Inr None"
| "first_zone zone (z # zs) =
     and_then (json_index z ''Name'') (\<lambda>nm.
     and_then (first_zone zone zs) (\<lambda>rest. Inr (if nm = JStr zone then Some z else rest)))"

definition r53_remember :: "string \<Rightarrow> ('s r53_state, string) drv" where
  "r53_remember i d = (Inr i, d\<lparr>r53_zone_id := Some i\<rparr>)"

definition r53_zone_of :: "string \<Rightarrow> json \<Rightarrow> exn + string" where
  "r53_zone_of zone resp =
     and_then (r53_items ''HostedZones'' resp) (\<lambda>zs.
     and_then (first_zone zone zs) (\<lambda>found.
       case found of
         None \<Rightarrow> Inl (DnsError (''route53 zone '' @ py_repr zone @ '' not found''))
       | Some z \<Rightarrow> json_str z ''Id''))"

definition r53_zid :: "'s r53_client \<Rightarrow> string \<Rightarrow> ('s r53_state, string) drv" where
  "r53_zid client zone d =
     (case r53_zone_id d of
        Some z \<Rightarrow> (Inr z, d)
      | None \<Rightarrow>
          bind_drv (r53_call client (ListZones (fqdn zone))) (\<lambda>resp.
          bind_drv (lift_drv (r53_zone_of (fqdn zone) resp)) r53_remember) d)"

text \<open>The first set of the reply with this name and type\<close>

fun find_set :: "string \<Rightarrow> string \<Rightarrow> json list \<Rightarrow> exn + json option" where
  "find_set nm t [] = Inr None"
| "find_set nm t (rs # rest) =
     and_then (json_index rs ''Name'') (\<lambda>n.
       if n = JStr nm then
         and_then (json_index rs ''Type'') (\<lambda>ty.
           if ty = JStr t then Inr (Some rs) else find_set nm t rest)
       else find_set nm t rest)"

definition r53_record_set :: "'s r53_client \<Rightarrow> string \<Rightarrow> string \<Rightarrow> string \<Rightarrow> ('s r53_state, json option) drv" where
  "r53_record_set client zone rtype name =
     bind_drv (r53_zid client zone) (\<lambda>z.
     bind_drv (r53_call client (ListSets z (fqdn name) rtype)) (\<lambda>resp.
       lift_drv (and_then (r53_items ''ResourceRecordSets'' resp) (find_set (fqdn name) rtype))))"

definition set_values :: "json option \<Rightarrow> exn + string list" where
  "set_values rs =
     (case rs of
        None \<Rightarrow> Inr []
      | Some j \<Rightarrow>
          and_then (json_index j ''ResourceRecords'') (\<lambda>v.
          and_then (as_list v) (\<lambda>xs.
          and_then (all_of (\<lambda>r. json_str r ''Value'') xs) (\<lambda>vs. Inr (sort vs)))))"

definition r53_list_members :: "'s r53_client \<Rightarrow> string \<Rightarrow> string \<Rightarrow> ('s r53_state, string list) drv" where
  "r53_list_members client zone r =
     bind_drv (r53_record_set client zone ''A'' r) (\<lambda>rs. lift_drv (set_values rs))"

definition change_batch :: "string \<Rightarrow> json \<Rightarrow> json" where
  "change_batch action rs = JObj [(''Changes'', JList [JObj
     [(''Action'', JStr action), (''ResourceRecordSet'', rs)]])]"

definition new_set :: "string \<Rightarrow> string \<Rightarrow> int \<Rightarrow> string list \<Rightarrow> json" where
  "new_set name rtype ttl values = JObj
     [(''Name'', JStr name), (''Type'', JStr rtype), (''TTL'', JInt ttl),
      (''ResourceRecords'', JList (map (\<lambda>v. JObj [(''Value'', JStr v)]) values))]"

definition r53_change :: "'s r53_client \<Rightarrow> string \<Rightarrow> string \<Rightarrow> json \<Rightarrow> ('s r53_state, unit) drv" where
  "r53_change client zone action rs =
     bind_drv (r53_zid client zone) (\<lambda>z.
     bind_drv (r53_call client (ChangeSets z (change_batch action rs))) (\<lambda>_. ret_drv ()))"

definition r53_upsert :: "'s r53_client \<Rightarrow> string \<Rightarrow> string \<Rightarrow> string set \<Rightarrow> int \<Rightarrow> ('s r53_state, unit) drv" where
  "r53_upsert client zone r values ttl =
     (if values = {} then
        bind_drv (r53_record_set client zone ''A'' r) (\<lambda>rs. case rs of
          None \<Rightarrow> ret_drv ()
        | Some j \<Rightarrow> r53_change client zone ''DELETE'' j)
      else r53_change client zone ''UPSERT'' (new_set (fqdn r) ''A'' ttl (py_sorted values)))"

definition r53_add_member ::
  "'s r53_client \<Rightarrow> string \<Rightarrow> string \<Rightarrow> string \<Rightarrow> int \<Rightarrow> ('s r53_state, unit) drv" where
  "r53_add_member client zone r ip ttl =
     bind_drv (r53_list_members client zone r) (\<lambda>members.
       if ip \<notin> set members then r53_upsert client zone r (insert ip (set members)) ttl
       else ret_drv ())"

definition r53_remove_member :: "'s r53_client \<Rightarrow> string \<Rightarrow> string \<Rightarrow> string \<Rightarrow> ('s r53_state, unit) drv" where
  "r53_remove_member client zone r ip =
     bind_drv (r53_list_members client zone r) (\<lambda>members.
       if ip \<in> set members then r53_upsert client zone r (set members - {ip}) 60
       else ret_drv ())"

definition r53_has_marker :: "'s r53_client \<Rightarrow> string \<Rightarrow> string \<Rightarrow> ('s r53_state, bool) drv" where
  "r53_has_marker client zone r =
     bind_drv (r53_record_set client zone ''TXT'' (marker_name r)) (\<lambda>rs. ret_drv (rs \<noteq> None))"

definition r53_ensure_marker :: "'s r53_client \<Rightarrow> string \<Rightarrow> string \<Rightarrow> ('s r53_state, unit) drv" where
  "r53_ensure_marker client zone r =
     bind_drv (r53_has_marker client zone r) (\<lambda>present.
       if present then ret_drv ()
       else r53_change client zone ''UPSERT'' (new_set (fqdn (marker_name r)) ''TXT'' 300
              [[CHR 0x22] @ marker_content @ [CHR 0x22]]))"

definition route53_ops :: "'s r53_client \<Rightarrow> string \<Rightarrow> 's r53_state dns_ops" where
  "route53_ops client zone =
     \<lparr>list_members = r53_list_members client zone, add_member = r53_add_member client zone,
      remove_member = r53_remove_member client zone, has_marker = r53_has_marker client zone,
      ensure_marker = r53_ensure_marker client zone\<rparr>"

section \<open>What the driver relies on of the service\<close>

text \<open>The record sets of the zone: their time to live and their values, by name and type\<close>

type_synonym record_sets = "string \<times> string \<rightharpoonup> int \<times> string list"

definition shows_set :: "json \<Rightarrow> string \<Rightarrow> string \<Rightarrow> string list \<Rightarrow> bool" where
  "shows_set j nm t vs \<longleftrightarrow>
     json_index j ''Name'' = Inr (JStr nm) \<and> json_index j ''Type'' = Inr (JStr t) \<and>
     (\<exists>xs. json_index j ''ResourceRecords'' = Inr (JList xs) \<and>
        list_all2 (\<lambda>x v. json_str x ''Value'' = Inr v) xs vs)"

definition zones_service :: "'s r53_client \<Rightarrow> string \<Rightarrow> string \<Rightarrow> ('s \<Rightarrow> record_sets) \<Rightarrow> ('s \<Rightarrow> bool) \<Rightarrow> bool" where
  "zones_service client zone zid sets ok \<longleftrightarrow>
     (\<forall>s reply s'. ok s \<longrightarrow> client (ListZones (fqdn zone)) s = (reply, s') \<longrightarrow>
        ok s' \<and> sets s' = sets s \<and>
        (\<forall>b. reply = Inr b \<longrightarrow> r53_zone_of (fqdn zone) b = Inr zid))"

text \<open>
  Listing from a name and a type gives the set of that name and type when there is one, and
  otherwise no set or another one.
\<close>

definition sets_service :: "'s r53_client \<Rightarrow> string \<Rightarrow> ('s \<Rightarrow> record_sets) \<Rightarrow> ('s \<Rightarrow> bool) \<Rightarrow> bool" where
  "sets_service client zid sets ok \<longleftrightarrow>
     (\<forall>s nm t reply s'. ok s \<longrightarrow> client (ListSets zid nm t) s = (reply, s') \<longrightarrow>
        ok s' \<and> sets s' = sets s \<and>
        (\<forall>b. reply = Inr b \<longrightarrow> (case sets s (nm, t) of
           Some (ttl, vs) \<Rightarrow> \<exists>j. r53_items ''ResourceRecordSets'' b = Inr [j] \<and> shows_set j nm t vs
         | None \<Rightarrow> r53_items ''ResourceRecordSets'' b = Inr [] \<or>
             (\<exists>j nm' t' vs. r53_items ''ResourceRecordSets'' b = Inr [j] \<and> shows_set j nm' t' vs \<and>
                (nm', t') \<noteq> (nm, t)))))"

definition upsert_service :: "'s r53_client \<Rightarrow> string \<Rightarrow> ('s \<Rightarrow> record_sets) \<Rightarrow> ('s \<Rightarrow> bool) \<Rightarrow> bool" where
  "upsert_service client zid sets ok \<longleftrightarrow>
     (\<forall>s nm t ttl vs reply s'. ok s \<longrightarrow>
        client (ChangeSets zid (change_batch ''UPSERT'' (new_set nm t ttl vs))) s = (reply, s') \<longrightarrow>
        ok s' \<and> (isl reply \<and> sets s' = sets s \<or> sets s' = (sets s)((nm, t) \<mapsto> (ttl, vs))))"

definition delete_service :: "'s r53_client \<Rightarrow> string \<Rightarrow> ('s \<Rightarrow> record_sets) \<Rightarrow> ('s \<Rightarrow> bool) \<Rightarrow> bool" where
  "delete_service client zid sets ok \<longleftrightarrow>
     (\<forall>s j nm t ttl vs reply s'. ok s \<longrightarrow> shows_set j nm t vs \<longrightarrow> sets s (nm, t) = Some (ttl, vs) \<longrightarrow>
        client (ChangeSets zid (change_batch ''DELETE'' j)) s = (reply, s') \<longrightarrow>
        ok s' \<and> (isl reply \<and> sets s' = sets s \<or> sets s' = (sets s)((nm, t) := None)))"

definition route53_api :: "'s r53_client \<Rightarrow> string \<Rightarrow> string \<Rightarrow> ('s \<Rightarrow> record_sets) \<Rightarrow> ('s \<Rightarrow> bool) \<Rightarrow> bool" where
  "route53_api client zone zid sets ok \<longleftrightarrow>
     zones_service client zone zid sets ok \<and> sets_service client zid sets ok \<and>
     upsert_service client zid sets ok \<and> delete_service client zid sets ok"

definition r53_ok :: "string \<Rightarrow> ('s \<Rightarrow> bool) \<Rightarrow> 's r53_state \<Rightarrow> bool" where
  "r53_ok zid ok d \<longleftrightarrow> ok (r53_service d) \<and> (r53_zone_id d = None \<or> r53_zone_id d = Some zid)"

abbreviation zone_sets :: "('s \<Rightarrow> record_sets) \<Rightarrow> 's r53_state \<Rightarrow> record_sets" where
  "zone_sets sets d \<equiv> sets (r53_service d)"

definition values_of :: "(int \<times> string list) option \<Rightarrow> string set" where
  "values_of x = (case x of None \<Rightarrow> {} | Some (_, vs) \<Rightarrow> set vs)"

section \<open>What the driver does to the sets\<close>

lemma zones_apiD:
  assumes "route53_api client zone zid sets ok" and "ok s"
    and "client (ListZones (fqdn zone)) s = (reply, s')"
  shows "ok s' \<and> sets s' = sets s \<and> (\<forall>b. reply = Inr b \<longrightarrow> r53_zone_of (fqdn zone) b = Inr zid)"
  using assms unfolding route53_api_def zones_service_def by blast

lemma sets_apiD:
  assumes "route53_api client zone zid sets ok" and "ok s"
    and "client (ListSets zid nm t) s = (reply, s')"
  shows "ok s' \<and> sets s' = sets s \<and> (\<forall>b. reply = Inr b \<longrightarrow> (case sets s (nm, t) of
           Some (ttl, vs) \<Rightarrow> \<exists>j. r53_items ''ResourceRecordSets'' b = Inr [j] \<and> shows_set j nm t vs
         | None \<Rightarrow> r53_items ''ResourceRecordSets'' b = Inr [] \<or>
             (\<exists>j nm' t' vs. r53_items ''ResourceRecordSets'' b = Inr [j] \<and> shows_set j nm' t' vs \<and>
                (nm', t') \<noteq> (nm, t))))"
proof -
  have "sets_service client zid sets ok" using assms(1) by (simp add: route53_api_def)
  from this [unfolded sets_service_def, rule_format, OF assms(2,3)] show ?thesis by simp
qed

lemma upsert_apiD:
  assumes "route53_api client zone zid sets ok" and "ok s"
    and "client (ChangeSets zid (change_batch ''UPSERT'' (new_set nm t ttl vs))) s = (reply, s')"
  shows "ok s' \<and> (isl reply \<and> sets s' = sets s \<or> sets s' = (sets s)((nm, t) \<mapsto> (ttl, vs)))"
  using assms unfolding route53_api_def upsert_service_def by blast

lemma delete_apiD:
  assumes "route53_api client zone zid sets ok" and "ok s"
    and "shows_set j nm t vs" and "sets s (nm, t) = Some (ttl, vs)"
    and "client (ChangeSets zid (change_batch ''DELETE'' j)) s = (reply, s')"
  shows "ok s' \<and> (isl reply \<and> sets s' = sets s \<or> sets s' = (sets s)((nm, t) := None))"
  using assms unfolding route53_api_def delete_service_def by blast

lemma r53_callE:
  assumes "r53_call client req d = (res, d')"
  shows "client req (r53_service d) = (res, r53_service d')" and "r53_zone_id d' = r53_zone_id d"
  using assms by (auto simp: r53_call_def split: prod.splits)

lemma r53_zid_result:
  assumes "route53_api client zone zid sets ok" and "r53_ok zid ok d"
    and "r53_zid client zone d = (res, d')"
  shows "r53_ok zid ok d' \<and> zone_sets sets d' = zone_sets sets d \<and> (\<forall>z. res = Inr z \<longrightarrow> z = zid)"
proof (cases "r53_zone_id d")
  case (Some z)
  with assms show ?thesis by (auto simp: r53_zid_def r53_ok_def)
next
  case None
  have z: "bind_drv (r53_call client (ListZones (fqdn zone))) (\<lambda>resp.
          bind_drv (lift_drv (r53_zone_of (fqdn zone) resp)) r53_remember) d = (res, d')"
    using assms(3) None by (simp add: r53_zid_def)
  have ok: "ok (r53_service d)" using assms(2) by (simp add: r53_ok_def)
  from z show ?thesis
  proof (cases rule: bind_drvE)
    case (raised e)
    from zones_apiD [OF assms(1) ok r53_callE(1) [OF raised(1)]] r53_callE(2) [OF raised(1)] None raised(2)
    show ?thesis by (simp add: r53_ok_def)
  next
    case (returned b d1)
    from zones_apiD [OF assms(1) ok r53_callE(1) [OF returned(1)]] r53_callE(2) [OF returned(1)] None returned(2)
    show ?thesis by (auto simp: r53_ok_def bind_drv_def lift_drv_def r53_remember_def)
  qed
qed

lemma find_set_shown:
  "shows_set j nm t vs \<Longrightarrow> find_set nm t [j] = Inr (Some j)"
  "shows_set j nm' t' vs \<Longrightarrow> (nm', t') \<noteq> (nm, t) \<Longrightarrow> find_set nm t [j] = Inr None"
  by (auto simp: shows_set_def)

lemma r53_record_set_result:
  assumes "route53_api client zone zid sets ok" and "r53_ok zid ok d"
    and "r53_record_set client zone t nm d = (res, d')"
  shows "r53_ok zid ok d' \<and> zone_sets sets d' = zone_sets sets d \<and>
    (\<forall>x. res = Inr x \<longrightarrow> (case zone_sets sets d (fqdn nm, t) of None \<Rightarrow> x = None
       | Some (ttl, vs) \<Rightarrow> \<exists>j. x = Some j \<and> shows_set j (fqdn nm) t vs))"
proof -
  from assms(3)[unfolded r53_record_set_def] show ?thesis
  proof (cases rule: bind_drvE)
    case (raised e)
    with r53_zid_result [OF assms(1,2) raised(1)] show ?thesis by simp
  next
    case (returned z d1)
    note zid = r53_zid_result [OF assms(1,2) returned(1)]
    have ok1: "ok (r53_service d1)" using zid by (simp add: r53_ok_def)
    from returned(2) show ?thesis
    proof (cases rule: bind_drvE)
      case (raised e)
      then have "client (ListSets zid (fqdn nm) t) (r53_service d1) = (Inl e, r53_service d')"
        using r53_callE(1) [OF raised(1)] zid returned(1) by simp
      from sets_apiD [OF assms(1) ok1 this] r53_callE(2) [OF raised(1)] zid raised(2) show ?thesis
        by (simp add: r53_ok_def)
    next
      case (returned b d2)
      then have "client (ListSets zid (fqdn nm) t) (r53_service d1) = (Inr b, r53_service d2)"
        using r53_callE(1) [OF returned(1)] zid \<open>r53_zid client zone d = (Inr z, d1)\<close> by simp
      note s = sets_apiD [OF assms(1) ok1 this]
      have d2: "r53_ok zid ok d'" "zone_sets sets d' = zone_sets sets d"
        using s r53_callE(2) [OF returned(1)] zid returned(2) by (simp_all add: r53_ok_def lift_drv_def)
      have same: "zone_sets sets d1 = zone_sets sets d" using zid by blast
      have "res = and_then (r53_items ''ResourceRecordSets'' b) (find_set (fqdn nm) t)"
        using returned(2) by (simp add: lift_drv_def)
      with s same have "\<forall>x. res = Inr x \<longrightarrow> (case zone_sets sets d (fqdn nm, t) of None \<Rightarrow> x = None
         | Some (ttl, vs) \<Rightarrow> \<exists>j. x = Some j \<and> shows_set j (fqdn nm) t vs)"
        by (auto simp: find_set_shown simp del: find_set.simps(2) split: option.splits)
      with d2 show ?thesis by blast
    qed
  qed
qed

lemma set_values_shown:
  assumes "shows_set j nm t vs"
  shows "set_values (Some j) = Inr (sort vs)"
proof -
  obtain xs where xs: "json_index j ''ResourceRecords'' = Inr (JList xs)"
    "list_all2 (\<lambda>x v. json_str x ''Value'' = Inr v) xs vs"
    using assms by (auto simp: shows_set_def)
  from xs(2) have "all_of (\<lambda>r. json_str r ''Value'') xs = Inr vs"
    by (induction rule: list_all2_induct) auto
  with xs(1) show ?thesis by (simp add: set_values_def as_list_def)
qed

abbreviation a_key :: "string \<Rightarrow> string \<times> string" where
  "a_key r \<equiv> (fqdn r, ''A'')"

lemma r53_list_result:
  assumes "route53_api client zone zid sets ok" and "r53_ok zid ok d"
    and "r53_list_members client zone r d = (res, d')"
  shows "r53_ok zid ok d' \<and> zone_sets sets d' = zone_sets sets d \<and>
    (\<forall>xs. res = Inr xs \<longrightarrow> set xs = values_of (zone_sets sets d (a_key r)))"
proof -
  from assms(3)[unfolded r53_list_members_def] show ?thesis
  proof (cases rule: bind_drvE)
    case (raised e)
    with r53_record_set_result [OF assms(1,2) raised(1)] show ?thesis by simp
  next
    case (returned x d1)
    note rs = r53_record_set_result [OF assms(1,2) returned(1)]
    from returned(2) have d1: "d' = d1" and res: "res = set_values x" by (simp_all add: lift_drv_def)
    have "\<forall>xs. res = Inr xs \<longrightarrow> set xs = values_of (zone_sets sets d (a_key r))"
    proof (cases "zone_sets sets d (a_key r)")
      case None
      with rs res show ?thesis by (simp add: set_values_def values_of_def)
    next
      case (Some e)
      obtain ttl vs where e: "e = (ttl, vs)" by (cases e)
      with rs Some obtain j where "x = Some j" "shows_set j (fqdn r) ''A'' vs" by auto
      with res e Some show ?thesis by (auto simp: values_of_def set_values_shown)
    qed
    with rs d1 show ?thesis by blast
  qed
qed

text \<open>A change that goes through, or may have, from the state the zone id was looked up in\<close>

lemma r53_changeE:
  assumes api: "route53_api client zone zid sets ok" and ok: "r53_ok zid ok d"
    and run: "r53_change client zone action rs d = (res, d')"
  obtains (failed) "isl res" "r53_ok zid ok d'" "zone_sets sets d' = zone_sets sets d"
    | (sent) s reply where "ok s" "sets s = zone_sets sets d" "isl res = isl reply"
      "client (ChangeSets zid (change_batch action rs)) s = (reply, r53_service d')"
      "r53_zone_id d' = None \<or> r53_zone_id d' = Some zid"
proof -
  from run [unfolded r53_change_def] show ?thesis
  proof (cases rule: bind_drvE)
    case (raised e)
    with r53_zid_result [OF api ok raised(1)] show ?thesis by (intro failed) simp_all
  next
    case (returned z d1)
    note zid = r53_zid_result [OF api ok returned(1)]
    then have d1: "ok (r53_service d1)" "r53_zone_id d1 = None \<or> r53_zone_id d1 = Some zid" "z = zid"
      by (simp_all add: r53_ok_def)
    have same: "zone_sets sets d1 = zone_sets sets d" using zid by blast
    from returned(2) show ?thesis
    proof (cases rule: bind_drvE)
      case (raised e)
      show ?thesis
        by (rule sent [OF d1(1) same _ r53_callE(1) [OF raised(1), unfolded d1(3)]])
          (use raised r53_callE(2) [OF raised(1)] d1(2) in simp_all)
    next
      case (returned b d2)
      then have "d' = d2" "res = Inr ()" by (simp_all add: ret_drv_def)
      then show ?thesis
        by (intro sent [OF d1(1) same _ r53_callE(1) [OF returned(1), unfolded d1(3), folded \<open>d' = d2\<close>]])
          (use r53_callE(2) [OF returned(1)] d1(2) in simp_all)
    qed
  qed
qed

lemma r53_upsert_change:
  assumes api: "route53_api client zone zid sets ok" and ok: "r53_ok zid ok d"
    and run: "r53_change client zone ''UPSERT'' (new_set nm t ttl vs) d = (res, d')"
  shows "r53_ok zid ok d' \<and>
    may_apply res (zone_sets sets d) ((zone_sets sets d)((nm, t) \<mapsto> (ttl, vs))) (zone_sets sets d')"
  using api ok run
proof (cases rule: r53_changeE)
  case failed
  then show ?thesis by (simp add: may_apply_def)
next
  case (sent s reply)
  from upsert_apiD [OF api sent(1,4)] sent show ?thesis by (auto simp: may_apply_def r53_ok_def)
qed

lemma r53_delete_change:
  assumes api: "route53_api client zone zid sets ok" and ok: "r53_ok zid ok d"
    and j: "shows_set j nm t vs" "zone_sets sets d (nm, t) = Some (ttl, vs)"
    and run: "r53_change client zone ''DELETE'' j d = (res, d')"
  shows "r53_ok zid ok d' \<and>
    may_apply res (zone_sets sets d) ((zone_sets sets d)((nm, t) := None)) (zone_sets sets d')"
  using api ok run
proof (cases rule: r53_changeE)
  case failed
  then show ?thesis by (simp add: may_apply_def)
next
  case (sent s reply)
  have "sets s (nm, t) = Some (ttl, vs)" using sent(2) j(2) by simp
  from delete_apiD [OF api sent(1) j(1) this sent(4)] sent show ?thesis
    by (auto simp: may_apply_def r53_ok_def)
qed

text \<open>Writing a set of addresses; the empty set deletes the record\<close>

definition set_written :: "record_sets \<Rightarrow> string \<Rightarrow> string set \<Rightarrow> int \<Rightarrow> record_sets" where
  "set_written S r values ttl =
     (if values = {} then S(a_key r := None) else S(a_key r \<mapsto> (ttl, py_sorted values)))"

lemma r53_upsert_result:
  assumes api: "route53_api client zone zid sets ok" and ok: "r53_ok zid ok d"
    and run: "r53_upsert client zone r values ttl d = (res, d')"
  shows "r53_ok zid ok d' \<and>
    may_apply res (zone_sets sets d) (set_written (zone_sets sets d) r values ttl) (zone_sets sets d')"
proof (cases "values = {}")
  case False
  with run have "r53_change client zone ''UPSERT'' (new_set (fqdn r) ''A'' ttl (py_sorted values)) d = (res, d')"
    by (simp add: r53_upsert_def)
  from r53_upsert_change [OF api ok this] False show ?thesis by (simp add: set_written_def)
next
  case True
  with run have "bind_drv (r53_record_set client zone ''A'' r) (\<lambda>rs. case rs of
      None \<Rightarrow> ret_drv () | Some j \<Rightarrow> r53_change client zone ''DELETE'' j) d = (res, d')"
    by (simp add: r53_upsert_def)
  then show ?thesis
  proof (cases rule: bind_drvE)
    case (raised e)
    with r53_record_set_result [OF api ok raised(1)] show ?thesis by (simp add: may_apply_def)
  next
    case (returned x d1)
    note rs = r53_record_set_result [OF api ok returned(1)]
    have same: "zone_sets sets d1 = zone_sets sets d" using rs by blast
    show ?thesis
    proof (cases "zone_sets sets d (a_key r)")
      case None
      with rs returned(2) True show ?thesis
        by (simp add: ret_drv_def set_written_def may_apply_def fun_upd_idem)
    next
      case (Some e)
      obtain ttl0 vs where e: "e = (ttl0, vs)" by (cases e)
      with rs Some obtain j where j: "x = Some j" "shows_set j (fqdn r) ''A'' vs" by auto
      have s1: "zone_sets sets d1 (a_key r) = Some (ttl0, vs)" using same Some e by simp
      have "r53_change client zone ''DELETE'' j d1 = (res, d')" using returned(2) j(1) by simp
      from r53_delete_change [OF api conjunct1 [OF rs] j(2) s1 this] True same show ?thesis
        by (simp add: set_written_def)
    qed
  qed
qed

lemma finite_values: "finite (values_of x)"
  by (auto simp: values_of_def split: option.splits)

lemma r53_add_result:
  assumes api: "route53_api client zone zid sets ok" and ok: "r53_ok zid ok d"
    and run: "r53_add_member client zone r ip ttl d = (res, d')"
  defines "V \<equiv> values_of (zone_sets sets d (a_key r))"
  shows "r53_ok zid ok d' \<and> may_apply res (zone_sets sets d)
    (if ip \<in> V then zone_sets sets d else set_written (zone_sets sets d) r (insert ip V) ttl)
    (zone_sets sets d')"
proof -
  from run [unfolded r53_add_member_def] show ?thesis
  proof (cases rule: bind_drvE)
    case (raised e)
    with r53_list_result [OF api ok raised(1)] show ?thesis by (simp add: may_apply_def)
  next
    case (returned xs d1)
    note l = r53_list_result [OF api ok returned(1)]
    have xs: "set xs = V" using l by (simp add: V_def)
    show ?thesis
    proof (cases "ip \<in> V")
      case True
      with returned(2) l xs show ?thesis by (auto simp: ret_drv_def)
    next
      case False
      with returned(2) xs have "r53_upsert client zone r (insert ip V) ttl d1 = (res, d')" by simp
      from r53_upsert_result [OF api conjunct1 [OF l] this] l False show ?thesis by simp
    qed
  qed
qed

lemma r53_remove_result:
  assumes api: "route53_api client zone zid sets ok" and ok: "r53_ok zid ok d"
    and run: "r53_remove_member client zone r ip d = (res, d')"
  defines "V \<equiv> values_of (zone_sets sets d (a_key r))"
  shows "r53_ok zid ok d' \<and> may_apply res (zone_sets sets d)
    (if ip \<in> V then set_written (zone_sets sets d) r (V - {ip}) 60 else zone_sets sets d)
    (zone_sets sets d')"
proof -
  from run [unfolded r53_remove_member_def] show ?thesis
  proof (cases rule: bind_drvE)
    case (raised e)
    with r53_list_result [OF api ok raised(1)] show ?thesis by (simp add: may_apply_def)
  next
    case (returned xs d1)
    note l = r53_list_result [OF api ok returned(1)]
    have xs: "set xs = V" using l by (simp add: V_def)
    show ?thesis
    proof (cases "ip \<in> V")
      case False
      with returned(2) l xs show ?thesis by (auto simp: ret_drv_def)
    next
      case True
      with returned(2) xs have "r53_upsert client zone r (V - {ip}) 60 d1 = (res, d')" by simp
      from r53_upsert_result [OF api conjunct1 [OF l] this] l True show ?thesis by simp
    qed
  qed
qed

abbreviation txt_key :: "string \<Rightarrow> string \<times> string" where
  "txt_key r \<equiv> (fqdn (marker_name r), ''TXT'')"

lemma r53_has_marker_result:
  assumes api: "route53_api client zone zid sets ok" and ok: "r53_ok zid ok d"
    and run: "r53_has_marker client zone r d = (res, d')"
  shows "r53_ok zid ok d' \<and> zone_sets sets d' = zone_sets sets d \<and>
    (\<forall>b. res = Inr b \<longrightarrow> b = (zone_sets sets d (txt_key r) \<noteq> None))"
proof -
  from run [unfolded r53_has_marker_def] show ?thesis
  proof (cases rule: bind_drvE)
    case (raised e)
    with r53_record_set_result [OF api ok raised(1)] show ?thesis by simp
  next
    case (returned x d1)
    with r53_record_set_result [OF api ok returned(1)] show ?thesis
      by (auto simp: ret_drv_def split: option.splits)
  qed
qed

lemma r53_ensure_result:
  assumes api: "route53_api client zone zid sets ok" and ok: "r53_ok zid ok d"
    and run: "r53_ensure_marker client zone r d = (res, d')"
  shows "r53_ok zid ok d' \<and> may_apply res (zone_sets sets d)
    (if zone_sets sets d (txt_key r) \<noteq> None then zone_sets sets d
     else (zone_sets sets d)(txt_key r \<mapsto> (300, [[CHR 0x22] @ marker_content @ [CHR 0x22]])))
    (zone_sets sets d')"
proof -
  from run [unfolded r53_ensure_marker_def] show ?thesis
  proof (cases rule: bind_drvE)
    case (raised e)
    with r53_has_marker_result [OF api ok raised(1)] show ?thesis by (simp add: may_apply_def)
  next
    case (returned b d1)
    note h = r53_has_marker_result [OF api ok returned(1)]
    have same: "zone_sets sets d1 = zone_sets sets d" using h by blast
    show ?thesis
    proof (cases b)
      case True
      with returned(2) h show ?thesis by (auto simp: ret_drv_def)
    next
      case False
      with returned(2) have "r53_change client zone ''UPSERT'' (new_set (fqdn (marker_name r)) ''TXT'' 300
          [[CHR 0x22] @ marker_content @ [CHR 0x22]]) d1 = (res, d')" by simp
      from r53_upsert_change [OF api conjunct1 [OF h] this] h False returned(1) same show ?thesis by auto
    qed
  qed
qed

section \<open>The choice of the driver\<close>

text \<open>
  \<open>make_driver\<close>: what it would construct. The token of the environment is a parameter. The
  configuration's provider is one of the two, so the source's last branch is not reached.
\<close>

datatype driver_choice = CloudflareChosen string string | Route53Chosen string

definition make_driver :: "string option \<Rightarrow> string option \<Rightarrow> dns_config \<Rightarrow> exn + driver_choice" where
  "make_driver env_token token dns =
     (case dn_provider dns of
        Cloudflare \<Rightarrow>
          (let t = (if token \<noteq> None \<and> token \<noteq> Some [] then token else env_token) in
           if t = None \<or> t = Some []
           then Inl (DnsError ''cloudflare driver needs CLOUDFLARE_API_TOKEN'')
           else Inr (CloudflareChosen (dn_zone dns) (the t)))
      | Route53 \<Rightarrow> Inr (Route53Chosen (dn_zone dns)))"

section \<open>Property\<close>

text \<open>
  C37. On a service that behaves as documented the Route53 driver rewrites the record's set as a
  whole and nothing else: adding an absent address writes all addresses with the pool's time to
  live, adding a present one nothing; removing the only address deletes the set, removing
  another one writes the rest, with the time to live 60 whatever it was; removing an absent
  address changes nothing; and the marker is written only when there is none. A call that raises
  has made this change or none.
\<close>

theorem route53_changes_exact:
  assumes "route53_api client zone zid sets ok" and "r53_ok zid ok d"
  shows "(let S = zone_sets sets d; key = (fqdn r, ''A''); mark = (fqdn (marker_name r), ''TXT'');
            V = (case S key of None \<Rightarrow> {} | Some (_, vs) \<Rightarrow> set vs);
            effect = (\<lambda>run S'. r53_ok zid ok (snd run) \<and> may_apply (fst run) S S' (zone_sets sets (snd run)))
          in effect (r53_add_member client zone r ip ttl d)
               (if ip \<in> V then S else S(key \<mapsto> (ttl, py_sorted (insert ip V)))) \<and>
             effect (r53_remove_member client zone r ip d)
               (if ip \<notin> V then S else if V = {ip} then S(key := None)
                else S(key \<mapsto> (60, py_sorted (V - {ip})))) \<and>
             effect (r53_ensure_marker client zone r d)
               (if S mark \<noteq> None then S
                else S(mark \<mapsto> (300, [[CHR 0x22] @ ''solfleet-managed'' @ [CHR 0x22]]))))"
proof -
  let ?S = "zone_sets sets d" and ?V = "values_of (zone_sets sets d (a_key r))"
  have V: "(case ?S (a_key r) of None \<Rightarrow> {} | Some (_, vs) \<Rightarrow> set vs) = ?V"
    by (simp add: values_of_def)
  have rm: "(if ip \<in> ?V then set_written ?S r (?V - {ip}) 60 else ?S) =
      (if ip \<notin> ?V then ?S else if ?V = {ip} then ?S(a_key r := None)
       else ?S(a_key r \<mapsto> (60, py_sorted (?V - {ip}))))"
    by (auto simp: set_written_def)
  have ad: "set_written ?S r (insert ip ?V) ttl = ?S(a_key r \<mapsto> (ttl, py_sorted (insert ip ?V)))"
    by (simp add: set_written_def)
  obtain r1 d1 where a: "r53_add_member client zone r ip ttl d = (r1, d1)" by fastforce
  obtain r2 d2 where m: "r53_remove_member client zone r ip d = (r2, d2)" by fastforce
  obtain r3 d3 where e: "r53_ensure_marker client zone r d = (r3, d3)" by fastforce
  from r53_add_result [OF assms a] r53_remove_result [OF assms m] r53_ensure_result [OF assms e]
  show ?thesis unfolding Let_def V rm ad a m e marker_content_def fst_conv snd_conv by blast
qed

text \<open>A zone that behaves as documented: the state is its record sets\<close>

definition set_json :: "string \<Rightarrow> string \<Rightarrow> string list \<Rightarrow> json" where
  "set_json nm t vs = JObj [(''Name'', JStr nm), (''Type'', JStr t),
     (''ResourceRecords'', JList (map (\<lambda>v. JObj [(''Value'', JStr v)]) vs))]"

definition set_body :: "json \<Rightarrow> int \<times> string list" where
  "set_body rs =
     ((case json_index rs ''TTL'' of Inr (JInt n) \<Rightarrow> n | _ \<Rightarrow> 0),
      (case and_then (json_index rs ''ResourceRecords'') (\<lambda>v.
              and_then (as_list v) (all_of (\<lambda>r. json_str r ''Value''))) of
         Inr vs \<Rightarrow> vs | Inl _ \<Rightarrow> []))"

definition zone_change :: "string \<Rightarrow> json \<Rightarrow> record_sets \<Rightarrow> (exn + json) \<times> record_sets" where
  "zone_change action rs S =
     (case (json_str rs ''Name'', json_str rs ''Type'') of
        (Inr nm, Inr t) \<Rightarrow>
          (Inr JNull, S((nm, t) := (if action = ''UPSERT'' then Some (set_body rs) else None)))
      | _ \<Rightarrow> (Inl TypeError, S))"

fun zone_of_sets :: "record_sets r53_client" where
  "zone_of_sets (ListZones z) S =
     (Inr (JObj [(''HostedZones'', JList [JObj [(''Name'', JStr z), (''Id'', JStr ''Z1'')]])]), S)"
| "zone_of_sets (ListSets z nm t) S =
     (Inr (JObj [(''ResourceRecordSets'', JList (case S (nm, t) of None \<Rightarrow> []
        | Some (ttl, vs) \<Rightarrow> [set_json nm t vs]))]), S)"
| "zone_of_sets (ChangeSets z batch) S =
     (case batch of
        JObj [(_, JList [JObj [(_, JStr action), (_, rs)]])] \<Rightarrow> zone_change action rs S
      | _ \<Rightarrow> (Inl TypeError, S))"

lemma values_back: "all_of (\<lambda>r. json_str r ''Value'') (map (\<lambda>v. JObj [(''Value'', JStr v)]) vs) = Inr vs"
  by (induction vs) (simp_all add: json_str_def json_index_def)

lemma shows_set_json: "shows_set (set_json nm t vs) nm t vs"
  by (simp add: shows_set_def set_json_def json_index_def json_str_def list_all2_conv_all_nth)

lemma shows_set_str: "shows_set j nm t vs \<Longrightarrow> json_str j ''Name'' = Inr nm \<and> json_str j ''Type'' = Inr t"
  by (simp add: shows_set_def json_str_def)

lemma zone_of_sets_api: "route53_api zone_of_sets ''example.com'' ''Z1'' id (\<lambda>_. True)"
  unfolding route53_api_def
proof (intro conjI)
  show "zones_service zone_of_sets ''example.com'' ''Z1'' id (\<lambda>_. True)"
    by (auto simp: zones_service_def r53_zone_of_def r53_items_def json_get_def as_list_def
        json_index_def json_str_def)
  show "sets_service zone_of_sets ''Z1'' id (\<lambda>_. True)"
    by (auto simp: sets_service_def r53_items_def json_get_def as_list_def shows_set_json
        split: option.splits)
  show "upsert_service zone_of_sets ''Z1'' id (\<lambda>_. True)"
    by (auto simp: upsert_service_def change_batch_def zone_change_def new_set_def set_body_def
        json_str_def json_index_def as_list_def values_back [unfolded json_str_def json_index_def])
  show "delete_service zone_of_sets ''Z1'' id (\<lambda>_. True)"
    by (auto simp: delete_service_def change_batch_def zone_change_def shows_set_str)
qed

theorem route53_changes_exact_witness:
  "(let S = [(''rpc.example.com.'', ''A'') \<mapsto> (30, [''10.0.0.1'', ''10.0.0.2''])];
        run = r53_remove_member zone_of_sets ''example.com'' ''rpc.example.com'' ''10.0.0.1''
                \<lparr>r53_zone_id = None, r53_service = S\<rparr>
    in r53_service (snd run) = S((''rpc.example.com.'', ''A'') \<mapsto> (60, [''10.0.0.2''])))"
proof -
  let ?S = "[(''rpc.example.com.'', ''A'') \<mapsto> (30, [''10.0.0.1'', ''10.0.0.2''])] :: record_sets"
  let ?d = "\<lparr>r53_zone_id = None, r53_service = ?S\<rparr>"
  let ?run = "r53_remove_member zone_of_sets ''example.com'' ''rpc.example.com'' ''10.0.0.1'' ?d"
  have ok: "r53_ok ''Z1'' (\<lambda>_. True) ?d" by (simp add: r53_ok_def)
  have f: "fqdn ''rpc.example.com'' = ''rpc.example.com.''" "fqdn ''example.com'' = ''example.com.''"
    by (simp_all add: fqdn_def rstrip_char_def)
  have eff: "may_apply (fst ?run) ?S (?S((''rpc.example.com.'', ''A'') \<mapsto> (60, py_sorted {''10.0.0.2''})))
      (r53_service (snd ?run))"
    using route53_changes_exact [OF zone_of_sets_api ok, of "''rpc.example.com''" "''10.0.0.1''" 60]
    by (simp add: Let_def f insert_Diff_if)
  have "\<not> isl (fst ?run)" by code_simp
  with eff show ?thesis by (auto simp: Let_def may_apply_def)
qed

end
