(* ===== verification/Watch_Converges.thy ===== *)
theory Watch_Converges
  imports Watch_Rounds
begin

text \<open>
  Convergence of the failover loop of \<open>watch.py\<close>: on a driver that does not fail, the last
  answer of the prober decides what a record ends up with, whatever happened in the rounds
  before it.
\<close>

section \<open>One pool per record\<close>

lemma reconcile_all_at:
  assumes "distinct (map pl_record ps)" and "p \<in> set ps"
  shows "reconcile_all ips st ps M (pl_record p) = reconciled ips st p (M (pl_record p))"
  using assms
proof (induction ps arbitrary: M)
  case (Cons q ps)
  show ?case
  proof (cases "p = q")
    case True
    with Cons.prems have "pl_record p \<notin> pl_record ` set ps" by auto
    with True show ?thesis by (simp add: reconcile_all_frame)
  next
    case False
    with Cons.prems have "p \<in> set ps" "pl_record q \<noteq> pl_record p" by auto
    with Cons show ?thesis by simp
  qed
qed simp

text \<open>Reconciling forgets every earlier reconciliation but for the foreign addresses\<close>

lemma reconciled_foreign: "reconciled ips st p cur - pool_ips ips p = cur - pool_ips ips p"
  by (auto simp: reconciled_def healthy_ips_def pool_ips_def)

lemma reconciled_twice:
  "healthy_ips ips st p \<noteq> {} \<Longrightarrow> reconciled ips st p (reconciled ips st' p cur) = reconciled ips st p cur"
  by (simp add: reconciled_def [of ips st p] reconciled_foreign)

section \<open>The rounds of the loop\<close>

context reliable_driver begin

lemma round_reconciles:
  assumes "ok d" and "fleet_wf f" and "fl_dns f = Some dns"
    and "distinct (map pl_record (dn_pools dns))" and "p \<in> set (dn_pools dns)"
  obtains rep d' al' where "watch_once f ops False (Inr clusters) (d, al) = (Inr rep, d', al')"
    and "ok d'" and "members d' (pl_record p) =
      reconciled (node_ips f) (status_by_name clusters) p (members d (pl_record p))"
proof -
  from watch_once_returns [OF assms(1,2)] obtain rep d' al' where
    w: "watch_once f ops False (Inr clusters) (d, al) = (Inr rep, d', al')" by metis
  from watch_once_result [OF assms(1) w assms(3)] have "ok d'"
    "members d' = reconcile_all (node_ips f) (status_by_name clusters) (dn_pools dns) (members d)"
    by simp_all
  with that [OF w] reconcile_all_at [OF assms(4,5)] show ?thesis by simp
qed

lemma watch_loop_converges_from:
  assumes f: "fleet_wf f" "fl_dns f = Some dns" "distinct (map pl_record (dn_pools dns))"
      "p \<in> set (dn_pools dns)"
    and answers: "\<forall>i \<in> {0..<k}. \<not> isl (prober i)" and last: "prober (k - 1) = Inr clusters"
    and healthy: "healthy_ips (node_ips f) (status_by_name clusters) p \<noteq> {}"
    and "ok d" and "0 \<le> n" and "n < k"
  shows "\<exists>out' d' al'. watch_loop f ops prober interval (Some k) False n out (d, al) =
      Some (Inr (), out', d', al') \<and> members d' (pl_record p) =
        reconciled (node_ips f) (status_by_name clusters) p (members d (pl_record p))"
  using assms(8,9,10)
proof (induction "nat (k - n)" arbitrary: n out d al)
  case (Suc m)
  from answers Suc.prems(2,3) have "\<not> isl (prober n)" by simp
  then obtain cl where cl: "prober n = Inr cl" by (cases "prober n") auto
  from round_reconciles [OF Suc.prems(1) f, where clusters = cl and al = al]
  obtain rep d1 al1 where w: "watch_once f ops False (Inr cl) (d, al) = (Inr rep, d1, al1)" "ok d1"
    and r: "members d1 (pl_record p) =
      reconciled (node_ips f) (status_by_name cl) p (members d (pl_record p))" by metis
  show ?case
  proof (cases "k \<le> n + 1")
    case True
    with Suc.prems(3) have "k = n + 1" by simp
    with last cl have "cl = clusters" by simp
    with w cl r \<open>k = n + 1\<close> show ?thesis by (subst watch_loop.simps) simp
  next
    case False
    let ?out = "(out @ [Round rep]) @ [Pause interval]"
    have eq: "watch_loop f ops prober interval (Some k) False n out (d, al) =
        watch_loop f ops prober interval (Some k) False (n + 1) ?out (d1, al1)"
      using w cl False Suc.prems(3) by (subst watch_loop.simps) (simp add: Let_def)
    have "m = nat (k - (n + 1))" "n + 1 < k" "0 \<le> n + 1"
      using Suc.hyps(2) Suc.prems(2) False by auto
    from Suc.hyps(1) [OF this(1) w(2) this(3,2), of ?out al1] eq show ?thesis
      by (simp add: r reconciled_twice [OF healthy])
  qed
qed simp

end

section \<open>Property\<close>

text \<open>
  C4. The loop converges: on a validated fleet with one pool per record, with a driver that
  does not fail and a prober that answers, after any number of rounds a pool's record holds
  exactly the members that passed in the last round and the foreign addresses it had at the
  start, provided some member passed. So a member that recovered is back in rotation, and one
  that failed is out, whatever the earlier rounds saw.
\<close>

theorem watch_converges:
  assumes "reliable_driver ops members marked ok" and "ok d" and "fleet_wf f"
    and "fl_dns f = Some dns" and "distinct (map pl_record (dn_pools dns))"
    and "p \<in> set (dn_pools dns)" and "0 < k" and "\<forall>i \<in> {0..<k}. \<not> isl (prober i)"
    and "prober (k - 1) = Inr clusters"
    and "healthy_ips (node_ips f) (status_by_name clusters) p \<noteq> {}"
  shows "\<exists>out d' al'. watch_loop f ops prober interval (Some k) False 0 [] (d, al) =
      Some (Inr (), out, d', al') \<and>
      members d' (pl_record p) = healthy_ips (node_ips f) (status_by_name clusters) p
        \<union> (members d (pl_record p) - pool_ips (node_ips f) p)"
  using reliable_driver.watch_loop_converges_from
    [OF assms(1) assms(3-6) assms(8-10) assms(2) order_refl assms(7), of interval "[]" al] assms(10)
  by (simp add: reconciled_def)

definition serving_both :: "cluster_status list" where
  "serving_both =
     [\<lparr>cs_name = ''mainnet'', cs_reference_rpc = ''ref'', cs_reference_slot = JNull,
       cs_reference_version = JNull, cs_reference_error = None,
       cs_nodes = [(fresh_status ''rpc1'' ''mainnet'' Rpc)\<lparr>ns_reachable := True, ns_healthy := Some True\<rparr>,
                   (fresh_status ''rpc2'' ''mainnet'' Rpc)\<lparr>ns_reachable := True, ns_healthy := Some True\<rparr>]\<rparr>]"

lemma serving_both_ips:
  "healthy_ips (node_ips two_node_fleet) (status_by_name serving_both) two_node_pool =
     {''10.0.0.1'', ''10.0.0.2''}"
proof -
  have k: "keeps (status_by_name serving_both) two_node_pool m" if "m = ''rpc1'' \<or> m = ''rpc2''" for m
    using that by (auto simp: keeps_def two_node_pool_def status_by_name_def serving_both_def
        dict_of_pairs_def default_eject_when_def fresh_status_def)
  have "dict_get (node_ips two_node_fleet) ''rpc1'' = Some ''10.0.0.1''"
    "dict_get (node_ips two_node_fleet) ''rpc2'' = Some ''10.0.0.2''"
    by (simp_all add: node_ips_def two_node_fleet_def basic_node_def dict_of_pairs_def)
  then have "(\<lambda>m. the (dict_get (node_ips two_node_fleet) m)) ` {''rpc1'', ''rpc2''} =
      {''10.0.0.1'', ''10.0.0.2''}" by auto
  moreover have "{m \<in> set (pl_members two_node_pool). keeps (status_by_name serving_both) two_node_pool m}
      = {''rpc1'', ''rpc2''}"
    using k by (auto simp: two_node_pool_def)
  ultimately show ?thesis unfolding healthy_ips_def by metis
qed

theorem watch_converges_witness:
  "\<exists>out d' al'. watch_loop two_node_fleet inmem_ops
      (\<lambda>i. Inr (if i = 0 then lagging_rpc1 else serving_both)) 30 (Some 2) False 0 []
      (serving_rpc1, None) = Some (Inr (), out, d', al') \<and>
    {''10.0.0.1'', ''10.0.0.2''} \<subseteq> im_get d' ''rpc''"
proof -
  have p: "two_node_pool \<in> set (dn_pools (the (fl_dns two_node_fleet)))"
    "distinct (map pl_record (dn_pools (the (fl_dns two_node_fleet))))"
    "pl_record two_node_pool = ''rpc''"
    by (simp_all add: two_node_fleet_def two_node_pool_def)
  show ?thesis
    using watch_converges [OF inmem.reliable_driver_axioms serving_rpc1_ok two_node_fleet_wf
        two_node_dns p(2,1), of 2 "\<lambda>i. Inr (if i = 0 then lagging_rpc1 else serving_both)"
        serving_both 30 None] serving_both_ips p(3)
    by auto
qed

end
