(* ===== verification/Dns_Steps.thy ===== *)
theory Dns_Steps
  imports Dns_Override
begin

text \<open>
  Everything that touches the DNS, as steps of one transition system: a round of the failover
  loop (in either mode, whatever the prober gave, ended by an exception or not), a manual
  override (dry run or confirmed, refused or applied, ended by an exception or not) and the
  status query. What holds along every history of such steps, and what does not when two of
  them overlap.
\<close>

section \<open>Steps\<close>

inductive dns_step :: "fleet \<Rightarrow> 'd dns_ops \<Rightarrow> 'd \<Rightarrow> 'd \<Rightarrow> bool" for f :: fleet and ops :: "'d dns_ops" where
  Round_Step: "watch_once f ops dry probed (d, al) = (res, d', al') \<Longrightarrow> dns_step f ops d d'"
| Override_Step: "dns_override f ops name a rec confirm (d, al) = (res, d', al') \<Longrightarrow> dns_step f ops d d'"
| Status_Step: "dns_status f ops rec d = (res, d') \<Longrightarrow> dns_step f ops d d'"

inductive_cases dns_stepE: "dns_step f ops d d'"

abbreviation dns_history :: "fleet \<Rightarrow> 'd dns_ops \<Rightarrow> 'd \<Rightarrow> 'd \<Rightarrow> bool" where
  "dns_history f ops \<equiv> (dns_step f ops)\<^sup>*\<^sup>*"

definition pool_records :: "fleet \<Rightarrow> string set" where
  "pool_records f = (case fl_dns f of None \<Rightarrow> {} | Some dns \<Rightarrow> pl_record ` set (dn_pools dns))"

section \<open>Only marked records of configured pools change\<close>

context dns_driver begin

text \<open>Whatever is marked stays marked, and what changed is a marked record of \<open>R\<close>\<close>

definition owned :: "string set \<Rightarrow> 'd \<Rightarrow> 'd \<Rightarrow> bool" where
  "owned R d d' \<longleftrightarrow> ok d' \<and> marked d \<subseteq> marked d' \<and>
     {r. members d' r \<noteq> members d r} \<subseteq> marked d' \<inter> R"

lemma owned_same: "ok d' \<Longrightarrow> members d' = members d \<Longrightarrow> marked d' = marked d \<Longrightarrow> owned R d d'"
  by (simp add: owned_def)

lemma owned_refl: "ok d \<Longrightarrow> owned R d d"
  by (rule owned_same) simp_all

lemma owned_ok: "owned R d d' \<Longrightarrow> ok d'"
  by (simp add: owned_def)

lemma owned_mono: "owned R d d' \<Longrightarrow> R \<subseteq> R' \<Longrightarrow> owned R' d d'"
  by (auto simp: owned_def)

lemma owned_trans:
  assumes "owned R d d1" and "owned R d1 d2"
  shows "owned R d d2"
proof -
  have "r \<in> marked d2 \<inter> R" if "members d2 r \<noteq> members d r" for r
  proof (cases "members d1 r = members d r")
    case True
    with that assms(2) show ?thesis by (auto simp: owned_def)
  next
    case False
    with assms show ?thesis by (auto simp: owned_def)
  qed
  with assms show ?thesis by (auto simp: owned_def)
qed

lemma owned_change:
  assumes "ok d'" and "marked d' = marked d" and "r \<in> marked d"
    and "\<And>q. q \<noteq> r \<Longrightarrow> members d' q = members d q"
  shows "owned {r} d d'"
  using assms by (auto simp: owned_def)

lemma owned_list: "ok d \<Longrightarrow> list_members ops r d = (lres, d') \<Longrightarrow> owned R d d'"
  using list_keeps [of d r lres d'] by (simp add: owned_same)

lemma owned_mark:
  assumes "ok d" and "ensure_marker ops r d = (res, d')"
  shows "owned {r} d d'" and "\<not> isl res \<Longrightarrow> r \<in> marked d'"
  using ensure_marker_result [OF assms] by (auto simp: owned_def may_apply_def)

lemma owned_apply_changes:
  assumes "ok d" and run: "apply_changes ops r rm ad ttl d = (res, d')"
  shows "owned {r} d d'"
proof -
  obtain r1 d1 where e: "ensure_marker ops r d = (r1, d1)" by fastforce
  note e_res = owned_mark [OF assms(1) e]
  show ?thesis
  proof (cases r1)
    case (Inl x)
    with e e_res run show ?thesis by (simp add: apply_changes_def)
  next
    case (Inr u)
    have ok1: "ok d1" and m1: "r \<in> marked d1" using e_res Inr by (simp_all add: owned_def)
    obtain r2 d2 where m: "remove_all ops r rm d1 = (r2, d2)" by fastforce
    note m_res = remove_all_result [OF ok1 m]
    have o2: "owned {r} d1 d2" using m_res m1 by (intro owned_change) auto
    show ?thesis
    proof (cases r2)
      case (Inl x)
      with e Inr m run have "d' = d2" by (simp add: apply_changes_def)
      with owned_trans [OF e_res(1) o2] show ?thesis by simp
    next
      case r2: (Inr v)
      with e Inr m run have a: "add_all ops r ad ttl d2 = (res, d')" by (simp add: apply_changes_def)
      have ok2: "ok d2" and m2: "r \<in> marked d2" using m_res m1 by auto
      note a_res = add_all_result [OF ok2 a]
      have "owned {r} d2 d'" using a_res m2 by (intro owned_change) auto
      with owned_trans [OF e_res(1) o2] owned_trans show ?thesis by blast
    qed
  qed
qed

lemma owned_override_apply:
  assumes "ok d" and run: "override_apply ops a ip p d = (res, d')"
  shows "owned {pl_record p} d d'"
proof -
  let ?r = "pl_record p"
  obtain r1 d1 where e: "ensure_marker ops ?r d = (r1, d1)" by fastforce
  note e_res = owned_mark [OF assms(1) e]
  show ?thesis
  proof (cases r1)
    case (Inl x)
    with e e_res run show ?thesis by (simp add: override_apply_def)
  next
    case (Inr u)
    have ok1: "ok d1" and m1: "?r \<in> marked d1" using e_res Inr by (simp_all add: owned_def)
    obtain r2 d2 where c: "(case a of Eject \<Rightarrow> remove_member ops ?r ip d1
        | Restore \<Rightarrow> add_member ops ?r ip (pl_ttl p) d1) = (r2, d2)" by fastforce
    have "ok d2 \<and> marked d2 = marked d1 \<and> (\<forall>q. q \<noteq> ?r \<longrightarrow> members d2 q = members d1 q)"
    proof (cases a)
      case Eject
      with c remove_result [OF ok1, of ?r ip r2 d2] show ?thesis by (auto simp: may_apply_def)
    next
      case Restore
      with c add_result [OF ok1, of ?r ip "pl_ttl p" r2 d2] show ?thesis by (auto simp: may_apply_def)
    qed
    then have o2: "owned {?r} d1 d2" using m1 by (intro owned_change) auto
    show ?thesis
    proof (cases r2)
      case (Inl x)
      with e Inr c run have "d' = d2" by (simp add: override_apply_def)
      with owned_trans [OF e_res(1) o2] show ?thesis by simp
    next
      case r2: (Inr v)
      with e Inr c run have "list_members ops ?r d2 = (res, d')" by (simp add: override_apply_def)
      from owned_list [OF owned_ok [OF o2] this] owned_trans [OF e_res(1) o2] owned_trans
      show ?thesis by blast
    qed
  qed
qed

end

context dns_driver begin

lemma owned_watch_pool:
  assumes ok: "ok d" and run: "watch_pool ops dry ips st p (d, al) = (res, d', al')"
  shows "owned {pl_record p} d d'"
proof (cases "find (\<lambda>m. dict_get ips m = None) (pl_members p)")
  case (Some m)
  with run ok show ?thesis by (auto simp: watch_pool_def owned_refl)
next
  case known: None
  obtain lres d1 where l: "list_members ops (pl_record p) d = (lres, d1)" by fastforce
  note o1 = owned_list [OF ok l, of "{pl_record p}"]
  show ?thesis
  proof (cases lres)
    case (Inl e)
    with run known l o1 show ?thesis by (auto simp: watch_pool_def)
  next
    case (Inr listed)
    have "owned {pl_record p} d1 d'"
      using run known l Inr owned_refl [OF owned_ok [OF o1]]
        owned_apply_changes [OF owned_ok [OF o1], of "pl_record p"]
      by (auto simp: watch_pool_def Let_def protect_pool_def reconcile_pool_def
          split: if_splits prod.splits sum.splits)
    with owned_trans [OF o1] show ?thesis by blast
  qed
qed

lemma owned_watch_pools:
  "ok d \<Longrightarrow> watch_pools ops dry ips st ps (d, al) = (res, d', al') \<Longrightarrow>
   owned (pl_record ` set ps) d d'"
proof (induction ps arbitrary: d al res d' al')
  case (Cons p ps)
  obtain r1 d1 al1 where w: "watch_pool ops dry ips st p (d, al) = (r1, d1, al1)"
    by (metis prod_cases3)
  have o1: "owned (pl_record ` set (p # ps)) d d1"
    by (rule owned_mono [OF owned_watch_pool [OF Cons.prems(1) w]]) simp
  show ?case
  proof (cases r1)
    case (Inl e)
    with Cons.prems(2) w o1 show ?thesis by simp
  next
    case (Inr rep)
    obtain r2 d2 al2 where ws: "watch_pools ops dry ips st ps (d1, al1) = (r2, d2, al2)"
      by (metis prod_cases3)
    have "owned (pl_record ` set (p # ps)) d1 d2"
      by (rule owned_mono [OF Cons.IH [OF owned_ok [OF o1] ws]]) auto
    moreover have "d' = d2" using Cons.prems(2) w Inr ws by (auto split: sum.splits)
    ultimately show ?thesis using owned_trans [OF o1] by blast
  qed
qed (simp add: owned_refl)

lemma owned_round:
  assumes ok: "ok d" and run: "watch_once f ops dry probed (d, al) = (res, d', al')"
  shows "owned (pool_records f) d d'"
proof (cases "\<exists>dns clusters. fl_dns f = Some dns \<and> dn_pools dns \<noteq> [] \<and> probed = Inr clusters")
  case True
  then obtain dns clusters where c: "fl_dns f = Some dns" "dn_pools dns \<noteq> []" "probed = Inr clusters"
    by blast
  obtain r1 d1 al1 where w: "watch_pools ops dry (node_ips f) (status_by_name clusters)
      (dn_pools dns) (d, al) = (r1, d1, al1)" by (metis prod_cases3)
  from owned_watch_pools [OF ok w] run c w show ?thesis
    by (auto simp: watch_once_def pool_records_def split: sum.splits)
next
  case False
  with run have "d' = d"
    by (auto simp: watch_once_def split: option.splits sum.splits if_splits)
  with ok show ?thesis by (simp add: owned_refl)
qed

lemma owned_override_pool:
  assumes ok: "ok d" and run: "override_pool ops a ip nm confirm p (d, al) = (res, d', al')"
  shows "owned {pl_record p} d d'"
proof -
  obtain lres d1 where l: "list_members ops (pl_record p) d = (lres, d1)" by fastforce
  note o1 = owned_list [OF ok l, of "{pl_record p}"]
  show ?thesis
  proof (cases lres)
    case (Inl e)
    with run l o1 show ?thesis by (auto simp: override_pool_def)
  next
    case (Inr listed)
    have "owned {pl_record p} d1 d'"
      using run l Inr owned_refl [OF owned_ok [OF o1]] owned_override_apply [OF owned_ok [OF o1], of a ip p]
      by (auto simp: override_pool_def Let_def split: if_splits prod.splits sum.splits)
    with owned_trans [OF o1] show ?thesis by blast
  qed
qed

lemma owned_override_pools:
  "ok d \<Longrightarrow> override_pools ops a ip nm confirm ps (d, al) = (res, d', al') \<Longrightarrow>
   owned (pl_record ` set ps) d d'"
proof (induction ps arbitrary: d al res d' al')
  case (Cons p ps)
  obtain r1 d1 al1 where w: "override_pool ops a ip nm confirm p (d, al) = (r1, d1, al1)"
    by (metis prod_cases3)
  have o1: "owned (pl_record ` set (p # ps)) d d1"
    by (rule owned_mono [OF owned_override_pool [OF Cons.prems(1) w]]) simp
  show ?case
  proof (cases r1)
    case (Inl e)
    with Cons.prems(2) w o1 show ?thesis by simp
  next
    case (Inr rep)
    obtain r2 d2 al2 where ws: "override_pools ops a ip nm confirm ps (d1, al1) = (r2, d2, al2)"
      by (metis prod_cases3)
    have "owned (pl_record ` set (p # ps)) d1 d2"
      by (rule owned_mono [OF Cons.IH [OF owned_ok [OF o1] ws]]) auto
    moreover have "d' = d2" using Cons.prems(2) w Inr ws by (auto split: sum.splits)
    ultimately show ?thesis using owned_trans [OF o1] by blast
  qed
qed (simp add: owned_refl)

lemma pools_for_node_records: "pl_record ` set (pools_for_node f name rec) \<subseteq> pool_records f"
  by (auto simp: pools_for_node_def pool_records_def Let_def split: option.splits if_splits)

lemma owned_override:
  assumes ok: "ok d" and run: "dns_override f ops name a rec confirm (d, al) = (res, d', al')"
  shows "owned (pool_records f) d d'"
proof (cases "find_node f name")
  case None
  with run ok show ?thesis by (simp add: dns_override_def owned_refl)
next
  case (Some x)
  obtain cn c n where x: "x = (cn, c, n)" by (cases x)
  obtain r1 d1 al1 where w: "override_pools ops a (host n) name confirm (pools_for_node f name rec)
      (d, al) = (r1, d1, al1)" by (metis prod_cases3)
  have "d' = d \<or> d' = d1"
    using run Some x w by (auto simp: dns_override_def Let_def split: if_splits sum.splits)
  with owned_mono [OF owned_override_pools [OF ok w] pools_for_node_records] owned_refl [OF ok]
  show ?thesis by blast
qed

lemma pool_statuses_same:
  "ok d \<Longrightarrow> pool_statuses ops names rec ps d = (res, d') \<Longrightarrow>
   ok d' \<and> members d' = members d \<and> marked d' = marked d"
proof (induction ps arbitrary: d res d')
  case (Cons p ps)
  show ?case
  proof (cases "truthy rec \<and> Some (pl_record p) \<noteq> rec")
    case True
    with Cons show ?thesis by simp
  next
    case False
    obtain r1 d1 where l: "list_members ops (pl_record p) d = (r1, d1)" by fastforce
    obtain r2 d2 where h: "has_marker ops (pl_record p) d1 = (r2, d2)" by fastforce
    obtain r3 d3 where s: "pool_statuses ops names rec ps d2 = (r3, d3)" by fastforce
    note k1 = list_keeps [OF Cons.prems(1) l]
    note k2 = has_marker_result [OF conjunct1 [OF k1] h]
    note k3 = Cons.IH [OF conjunct1 [OF k2] s]
    have "d' = d1 \<or> d' = d2 \<or> d' = d3"
      using Cons.prems(2) False l h s by (auto split: sum.splits)
    with k1 k2 k3 show ?thesis by metis
  qed
qed simp

lemma owned_status:
  assumes ok: "ok d" and run: "dns_status f ops rec d = (res, d')"
  shows "owned (pool_records f) d d'"
proof -
  have "ok d' \<and> members d' = members d \<and> marked d' = marked d"
    using run ok by (auto simp: dns_status_def dest: pool_statuses_same
        split: option.splits if_splits prod.splits sum.splits)
  then show ?thesis by (simp add: owned_same)
qed

lemma owned_step: "dns_step f ops d d' \<Longrightarrow> ok d \<Longrightarrow> owned (pool_records f) d d'"
  by (erule dns_stepE) (blast intro: owned_round owned_override owned_status)+

lemma owned_history: "dns_history f ops d d' \<Longrightarrow> ok d \<Longrightarrow> owned (pool_records f) d d'"
proof (induction rule: rtranclp_induct)
  case (step d1 d2)
  then have "owned (pool_records f) d d1" by blast
  with owned_step [OF step(2) owned_ok] owned_trans show ?case by blast
qed (rule owned_refl)

end

section \<open>A served record stays served\<close>

context reliable_driver begin

lemma round_serves:
  assumes "ok d" and "fleet_wf f" and "watch_once f ops dry probed (d, al) = (res, d', al')"
    and "members d r \<noteq> {}"
  shows "members d' r \<noteq> {}"
proof (cases probed)
  case (Inl e)
  with assms(3,4) show ?thesis by (auto simp: watch_once_def split: option.splits if_splits)
next
  case (Inr clusters)
  obtain rep d2 al2 where "watch_once f ops dry (Inr clusters) (d, al) = (Inr rep, d2, al2)"
    using watch_once_returns [OF assms(1,2)] by metis
  with assms(3) Inr have "\<not> isl res" by auto
  with watch_once_frame [OF assms(1,3), of r] assms(4) show ?thesis by blast
qed

lemma override_serves:
  assumes ok: "ok d" and run: "dns_override f ops name a rec confirm (d, al) = (res, d', al')"
    and ne: "members d r \<noteq> {}"
  shows "members d' r \<noteq> {}"
proof (cases "find_node f name")
  case None
  with run ne show ?thesis by (simp add: dns_override_def)
next
  case (Some x)
  obtain cn c n where x: "x = (cn, c, n)" by (cases x)
  obtain r1 d1 al1 where w: "override_pools ops a (host n) name confirm (pools_for_node f name rec)
      (d, al) = (r1, d1, al1)" by (metis prod_cases3)
  have "d' = d \<or> d' = d1"
    using run Some x w by (auto simp: dns_override_def Let_def split: if_splits sum.splits)
  with override_pools_result [OF ok w] ne show ?thesis by blast
qed

lemma step_serves:
  assumes "dns_step f ops d d'" and "ok d" and "fleet_wf f" and "members d r \<noteq> {}"
  shows "members d' r \<noteq> {}"
  using assms(1)
proof (rule dns_stepE)
  fix dry probed al res al'
  assume "watch_once f ops dry probed (d, al) = (res, d', al')"
  then show ?thesis by (rule round_serves [OF assms(2,3) _ assms(4)])
next
  fix name a rec confirm al res al'
  assume "dns_override f ops name a rec confirm (d, al) = (res, d', al')"
  then show ?thesis by (rule override_serves [OF assms(2) _ assms(4)])
next
  fix rec res
  assume run: "dns_status f ops rec d = (res, d')"
  have "members d' = members d"
    using run assms(2) by (auto simp: dns_status_def dest: pool_statuses_same
        split: option.splits if_splits prod.splits sum.splits)
  with assms(4) show ?thesis by simp
qed

lemma history_serves:
  assumes "dns_history f ops d d'" and "ok d" and "fleet_wf f" and "members d r \<noteq> {}"
  shows "members d' r \<noteq> {}"
  using assms(1)
proof (induction rule: rtranclp_induct)
  case (step d1 d2)
  have "ok d1" by (rule owned_ok [OF owned_history [OF step(1) assms(2)]])
  from step_serves [OF step(2) this assms(3) step.IH] show ?case .
qed (rule assms(4))

end

section \<open>Properties\<close>

text \<open>
  C8. Along every history of rounds, overrides and queries, in any order and number and ended by
  exceptions anywhere, for every driver that keeps its contract: markers are never removed, and
  a record whose addresses changed is the record of a configured pool and carries the marker.
\<close>

theorem only_marked_records_change:
  assumes "dns_driver ops members marked ok" and "ok d" and "dns_history f ops d d'"
  shows "marked d \<subseteq> marked d' \<and> {r. members d' r \<noteq> members d r} \<subseteq> marked d' \<inter> pool_records f"
  using dns_driver.owned_history [OF assms(1,3,2)] by (simp add: dns_driver.owned_def [OF assms(1)])

theorem only_marked_records_change_witness:
  "\<exists>d'. dns_history two_node_fleet inmem_ops serving_rpc1 d' \<and>
     im_markers serving_rpc1 \<subseteq> im_markers d' \<and>
     {r. im_get d' r \<noteq> im_get serving_rpc1 r} \<subseteq> im_markers d' \<inter> pool_records two_node_fleet"
proof -
  obtain res d' al' where "dns_override two_node_fleet inmem_ops ''rpc2'' Restore None True (serving_rpc1, None)
      = (res, d', al')" by (metis prod_cases3)
  then have h: "dns_history two_node_fleet inmem_ops serving_rpc1 d'"
    by (blast intro: Override_Step)
  from only_marked_records_change [OF inmem.dns_driver_axioms serving_rpc1_ok h] h show ?thesis by blast
qed

text \<open>
  C7. On a validated fleet and a driver that does not fail, no history of rounds, overrides and
  queries leaves a record empty that had an address, whatever the prober gave in each round and
  whatever was ejected by hand.
\<close>

theorem served_record_stays_served:
  assumes "reliable_driver ops members marked ok" and "ok d" and "fleet_wf f"
    and "dns_history f ops d d'"
  shows "{r. members d r \<noteq> {}} \<subseteq> {r. members d' r \<noteq> {}}"
  using reliable_driver.history_serves [OF assms(1,4,2,3)] by blast

theorem served_record_stays_served_witness:
  "\<exists>d'. dns_history two_node_fleet inmem_ops serving_rpc1 d' \<and> im_get d' ''rpc'' \<noteq> {}"
proof -
  obtain res d' al' where "dns_override two_node_fleet inmem_ops ''rpc1'' Eject None True (serving_rpc1, None)
      = (res, d', al')" by (metis prod_cases3)
  then have h: "dns_history two_node_fleet inmem_ops serving_rpc1 d'"
    by (blast intro: Override_Step)
  have "im_get serving_rpc1 ''rpc'' \<noteq> {}" by (simp add: serving_rpc1_def inmem_init_def im_get_def)
  with served_record_stays_served [OF inmem.reliable_driver_axioms serving_rpc1_ok two_node_fleet_wf h] h
  show ?thesis by blast
qed

text \<open>
  The last-member protection is a check before the change, not of it: two ejections that both
  read the record before either changes it are both allowed, and empty it. The same holds for
  an ejection and a round of the loop, which run in two processes.
\<close>

theorem overlapping_ejections_empty:
  fixes d :: inmem
  defines "d \<equiv> inmem_init [(''rpc'', [''10.0.0.1'', ''10.0.0.2''])] []"
  shows "gd_allowed (gate op cn nd True plan1 (override_checks Eject ''10.0.0.1'' two_node_pool (im_get d ''rpc''))) \<and>
    gd_allowed (gate op cn nd True plan2 (override_checks Eject ''10.0.0.2'' two_node_pool (im_get d ''rpc''))) \<and>
    im_get (snd (override_apply inmem_ops Eject ''10.0.0.2'' two_node_pool
      (snd (override_apply inmem_ops Eject ''10.0.0.1'' two_node_pool d)))) ''rpc'' = {}"
proof (intro conjI)
  have g: "im_get d ''rpc'' = {''10.0.0.1'', ''10.0.0.2''}"
    by (simp add: d_def inmem_init_def im_get_def)
  show "gd_allowed (gate op cn nd True plan1 (override_checks Eject ''10.0.0.1'' two_node_pool (im_get d ''rpc'')))"
    "gd_allowed (gate op cn nd True plan2 (override_checks Eject ''10.0.0.2'' two_node_pool (im_get d ''rpc'')))"
    by (simp_all add: override_allowed would_empty_iff g)
  show "im_get (snd (override_apply inmem_ops Eject ''10.0.0.2'' two_node_pool
      (snd (override_apply inmem_ops Eject ''10.0.0.1'' two_node_pool d)))) ''rpc'' = {}"
    by (simp add: override_apply_def inmem_defs two_node_pool_def d_def inmem_init_def)
qed

end
