(* ===== verification/Results.thy ===== *)
theory Results
  imports Restart Upgrade Provision Dns_Override Validate Voting
begin

text \<open>
  The dicts the operations return, as the command line prints them and the MCP tools pass them
  on: one function per operation from the outcome of the model to the dict of the source, with
  its keys in order. \<open>has_key\<close> and \<open>got\<close> are \<open>k in d\<close> and \<open>d.get(k)\<close>.
\<close>

section \<open>Reading a dict\<close>

definition has_key :: "string \<Rightarrow> json \<Rightarrow> bool" where
  "has_key k v = (case v of JObj kvs \<Rightarrow> map_of kvs k \<noteq> None | _ \<Rightarrow> False)"

definition got :: "string \<Rightarrow> json \<Rightarrow> json" where
  "got k v = (case v of JObj kvs \<Rightarrow> (case map_of kvs k of None \<Rightarrow> JNull | Some x \<Rightarrow> x) | _ \<Rightarrow> JNull)"

definition error_json :: "string \<Rightarrow> json" where
  "error_json e = JObj [(''error'', JStr e)]"

lemma has_key_error [simp]: "has_key ''error'' (error_json e)"
  by (simp add: has_key_def error_json_def)

section \<open>What the operations return\<close>

definition restart_result_json :: "restart_result \<Rightarrow> json" where
  "restart_result_json r =
     (case r of
        RestartUnknown e \<Rightarrow> error_json e
      | RestartGated d before leader \<Rightarrow> JObj
          [(''decision'', decision_json d), (''preflight'', inspect_json before),
           (''leader'', leader_opt_json leader)]
      | RestartDone out \<Rightarrow> restart_json out)"

definition plan_result_json :: "plan_result \<Rightarrow> json" where
  "plan_result_json r =
     (case r of
        PlanUnknown e \<Rightarrow> error_json e
      | Planned d target_version note \<Rightarrow> JObj
          [(''decision'', decision_json d), (''target_version'', JStr target_version),
           (''note'', JStr note)])"

definition upgrade_result_json :: "upgrade_result \<Rightarrow> json" where
  "upgrade_result_json r =
     (case r of
        UpgradeUnknown e \<Rightarrow> error_json e
      | UpgradeGated d before \<Rightarrow> JObj
          [(''decision'', decision_json d), (''preflight'', inspect_json before)]
      | UpgradeBuildFailed d b \<Rightarrow> JObj
          [(''decision'', decision_json d), (''build'', build_json b), (''succeeded'', JBool False)]
      | UpgradeDistFailed d b di \<Rightarrow> JObj
          [(''decision'', decision_json d), (''build'', build_json b),
           (''distribute'', dist_json di), (''succeeded'', JBool False)]
      | UpgradeDone out \<Rightarrow> upgrade_json out)"

definition provision_result_json :: "provision_result \<Rightarrow> json" where
  "provision_result_json r =
     (case r of
        ProvisionUnknown e \<Rightarrow> error_json e
      | ProvisionGated d pre \<Rightarrow> JObj
          [(''decision'', decision_json d), (''preflight'', preflight_json pre)]
      | ProvisionDone d (st, succeeded, note) \<Rightarrow> JObj
          ([(''decision'', decision_json d), (''steps'', steps_json st),
            (''succeeded'', JBool succeeded)] @ opt_field ''note'' JStr note))"

definition bootstrap_result_json :: "bootstrap_result \<Rightarrow> json" where
  "bootstrap_result_json r =
     (case r of
        BootstrapUnknown e \<Rightarrow> error_json e
      | BootstrapGated d \<Rightarrow> JObj
          [(''decision'', decision_json d), (''packages'', json_strs build_apt_packages)]
      | BootstrapDone out \<Rightarrow> bootstrap_json out)"

section \<open>DNS\<close>

definition pool_report_json :: "pool_report \<Rightarrow> json" where
  "pool_report_json r = JObj
     ([(''record'', JStr (pw_record r)), (''current'', json_strs (pw_current r)),
       (''decisions'', decisions_json (pw_decisions r)), (''protected'', JBool (pw_protected r))]
      @ opt_field ''note'' JStr (pw_note r)
      @ [(''added'', json_strs (pw_added r)), (''removed'', json_strs (pw_removed r))])"

definition watch_report_json :: "watch_report \<Rightarrow> json" where
  "watch_report_json r = JObj
     ([(''pools'', JList (map pool_report_json (wr_pools r)))] @ opt_field ''note'' JStr (wr_note r))"

definition pool_status_json :: "pool_status \<Rightarrow> json" where
  "pool_status_json s = JObj
     [(''record'', JStr (ps_record s)), (''cluster'', JStr (ps_cluster s)),
      (''ttl'', JInt (ps_ttl s)), (''marker'', JBool (ps_marker s)),
      (''members'', JList (map (\<lambda>(ip, nm). JObj [(''ip'', JStr ip), (''node'', JStr nm)])
         (ps_members s))),
      (''configured_members'', json_strs (ps_configured s))]"

definition dns_status_json :: "pool_status list \<times> string option \<Rightarrow> json" where
  "dns_status_json = (\<lambda>(pools, note). JObj
     ([(''pools'', JList (map pool_status_json pools))] @ opt_field ''note'' JStr note))"

definition override_entry_json :: "override_entry \<Rightarrow> json" where
  "override_entry_json e = JObj
     ([(''record'', JStr (ov_record e)), (''decision'', decision_json (ov_decision e))]
      @ opt_field ''members_now'' json_strs (ov_members_now e))"

definition override_result_json :: "override_result \<Rightarrow> json" where
  "override_result_json r =
     (case r of
        OverrideError e \<Rightarrow> error_json e
      | Overridden a node_name entries \<Rightarrow> JObj
          [(''action'', JStr (override_name a)), (''node'', JStr node_name),
           (''pools'', JList (map override_entry_json entries))])"

section \<open>The log\<close>

definition audit_event_json :: "string \<times> audit_entry \<Rightarrow> json" where
  "audit_event_json = (\<lambda>(ts, e). JObj
     [(''ts'', JStr ts), (''operation'', JStr (en_operation e)), (''cluster'', JStr (en_cluster e)),
      (''node'', JStr (en_node e)), (''mode'', JStr (en_mode e)),
      (''allowed'', JBool (en_allowed e)),
      (''detail'', case en_detail e of None \<Rightarrow> JNull | Some d \<Rightarrow> d)])"

definition events_json :: "(string \<times> audit_entry) list \<Rightarrow> json" where
  "events_json rows = JObj [(''events'', JList (map audit_event_json rows))]"

section \<open>Validation\<close>

definition status_text :: "check_status \<Rightarrow> string" where
  "status_text s = (case s of Pass \<Rightarrow> ''pass'' | Warn \<Rightarrow> ''warn'' | Fail \<Rightarrow> ''fail'')"

definition check_json :: "check \<Rightarrow> json" where
  "check_json c = JObj
     [(''name'', JStr (ck_name c)), (''status'', JStr (status_text (ck_status c))),
      (''detail'', JStr (ck_detail c))]"

definition validation_json :: "validation \<Rightarrow> json" where
  "validation_json va = JObj
     [(''ok'', JBool (va_ok va)),
      (''nodes'', JList (map (\<lambda>v. JObj
         [(''name'', JStr (nv_name v)), (''cluster'', JStr (nv_cluster v)),
          (''role'', JStr (role_name (nv_role v))), (''status'', JStr (status_text (nv_status v))),
          (''checks'', JList (map check_json (nv_checks v)))]) (va_nodes va))),
      (''builders'', JList (map (\<lambda>v. JObj
         [(''name'', JStr (bv_name v)), (''status'', JStr (status_text (bv_status v))),
          (''checks'', JList (map check_json (bv_checks v)))]) (va_builders va))),
      (''dns'', case va_dns va of None \<Rightarrow> JNull
         | Some (s, cs) \<Rightarrow> JObj [(''status'', JStr (status_text s)),
             (''checks'', JList (map check_json cs))])]"

section \<open>Errors in the results\<close>

text \<open>
  A result has the key \<open>error\<close> when the node is unknown and never otherwise, except that the
  outcome of a bootstrap always has it.
\<close>

lemma has_error_restart: "has_key ''error'' (restart_result_json r) = (case r of RestartUnknown _ \<Rightarrow> True | _ \<Rightarrow> False)"
  by (auto simp: restart_result_json_def has_key_def restart_json_def error_json_def
      split: restart_result.splits)

lemma has_error_plan: "has_key ''error'' (plan_result_json r) = (case r of PlanUnknown _ \<Rightarrow> True | _ \<Rightarrow> False)"
  by (auto simp: plan_result_json_def has_key_def error_json_def split: plan_result.splits)

lemma has_error_upgrade: "has_key ''error'' (upgrade_result_json r) = (case r of UpgradeUnknown _ \<Rightarrow> True | _ \<Rightarrow> False)"
  by (auto simp: upgrade_result_json_def has_key_def upgrade_json_def error_json_def
      split: upgrade_result.splits)

lemma has_error_provision: "has_key ''error'' (provision_result_json r) = (case r of ProvisionUnknown _ \<Rightarrow> True | _ \<Rightarrow> False)"
  by (auto simp: provision_result_json_def has_key_def error_json_def opt_field_def
      split: provision_result.splits option.splits)

lemma has_error_bootstrap: "has_key ''error'' (bootstrap_result_json r) = (case r of BootstrapGated _ \<Rightarrow> False | _ \<Rightarrow> True)"
  by (auto simp: bootstrap_result_json_def has_key_def bootstrap_json_def error_json_def
      split: bootstrap_result.splits)

lemma has_error_override: "has_key ''error'' (override_result_json r) = (case r of OverrideError _ \<Rightarrow> True | _ \<Rightarrow> False)"
  by (auto simp: override_result_json_def has_key_def error_json_def split: override_result.splits)

lemma has_error_vote: "has_key ''error'' (vote_json r) = (case r of VoteError _ \<Rightarrow> True | _ \<Rightarrow> False)"
  by (auto simp: vote_json_def has_key_def account_json_def balance_json_def lag_json_def Let_def
      split: vote_result.splits account_state.splits balance_view.splits lag_view.splits)

lemma succeeded_restart:
  "json_truthy (got ''succeeded'' (restart_result_json r)) =
     (case r of RestartDone out \<Rightarrow> restart_succeeded out | _ \<Rightarrow> False)"
  by (auto simp: restart_result_json_def got_def restart_json_def error_json_def json_truthy_def
      split: restart_result.splits)

lemma succeeded_upgrade:
  "json_truthy (got ''succeeded'' (upgrade_result_json r)) =
     (case r of UpgradeDone out \<Rightarrow> upgrade_succeeded out | _ \<Rightarrow> False)"
  by (auto simp: upgrade_result_json_def got_def upgrade_json_def error_json_def json_truthy_def
      split: upgrade_result.splits)

lemma succeeded_provision:
  "json_truthy (got ''succeeded'' (provision_result_json r)) =
     (case r of ProvisionDone d (st, ok, note) \<Rightarrow> ok | _ \<Rightarrow> False)"
  by (auto simp: provision_result_json_def got_def error_json_def json_truthy_def
      split: provision_result.splits)

end
