(* ===== verification/Status_Table.thy ===== *)
theory Status_Table
  imports Results
begin

text \<open>
  The text the command line prints: the table of \<open>format_table\<close> and the report of
  \<open>_format_validate\<close>. A row of the table is the list of its seven cells.
\<close>

section \<open>Padding\<close>

text \<open>\<open>s.ljust(w)\<close>, and \<open>f"{s:w}"\<close> of a string\<close>

definition ljust :: "nat \<Rightarrow> string \<Rightarrow> string" where
  "ljust w s = s @ replicate (w - length s) CHR '' ''"

lemma length_ljust [simp]: "length (ljust w s) = max w (length s)"
  by (simp add: ljust_def)

lemma length_join: "length (join sep xs) = sum_list (map length xs) + (length xs - 1) * length sep"
  by (induction sep xs rule: join.induct) (auto simp: algebra_simps)

section \<open>The table of a probe\<close>

definition health_cell :: "node_status \<Rightarrow> string" where
  "health_cell n =
     (if truthy (ns_error n) \<and> \<not> ns_reachable n then ''UNREACHABLE''
      else if ns_healthy n = Some True then ''ok''
      else if ns_healthy n = Some False then ''BEHIND''
      else ''-'')"

definition vote_cell :: "node_status \<Rightarrow> string" where
  "vote_cell n =
     (if ns_delinquent n = Some True then ''DELINQUENT''
      else if ns_delinquent n = Some False then ''voting''
      else ''-'')"

text \<open>\<open>n.version or "-"\<close>: an RPC can give a version that is no string\<close>

definition version_cell :: "json \<Rightarrow> string" where
  "version_cell v = (case v of JStr s \<Rightarrow> or_else s ''-'' | _ \<Rightarrow> ''-'')"

definition status_row :: "string \<Rightarrow> node_status \<Rightarrow> string list" where
  "status_row cn n =
     [cn, ns_name n, role_name (ns_role n), health_cell n, version_cell (ns_version n),
      (case ns_slot_lag n of None \<Rightarrow> ''-'' | Some k \<Rightarrow> show_int k), vote_cell n]"

definition table_headers :: "string list" where
  "table_headers = [''CLUSTER'', ''NODE'', ''ROLE'', ''HEALTH'', ''VERSION'', ''SLOT LAG'', ''VOTE'']"

definition table_rows :: "cluster_status list \<Rightarrow> string list list" where
  "table_rows clusters = concat (map (\<lambda>c. map (status_row (cs_name c)) (cs_nodes c)) clusters)"

definition column_widths :: "string list list \<Rightarrow> nat list" where
  "column_widths rows =
     map (\<lambda>i. foldr max (map (\<lambda>r. length (r ! i)) rows) (length (table_headers ! i)))
       [0..<length table_headers]"

definition table_line :: "nat list \<Rightarrow> string list \<Rightarrow> string" where
  "table_line widths cells = join ''  '' (map2 ljust widths cells)"

definition table_lines :: "cluster_status list \<Rightarrow> string list" where
  "table_lines clusters =
     (let rows = table_rows clusters; widths = column_widths rows
      in map (table_line widths) (table_headers # rows))"

definition warning_lines :: "cluster_status list \<Rightarrow> string list" where
  "warning_lines clusters =
     map (\<lambda>c. ''warning: '' @ cs_name c @ '': '' @ the (cs_reference_error c))
       (filter (\<lambda>c. truthy (cs_reference_error c)) clusters)"

text \<open>
  A version that is neither a string nor false raises: \<open>len\<close> of a number first, for every row,
  then \<open>ljust\<close> of a list or dict.
\<close>

definition all_versions :: "cluster_status list \<Rightarrow> json list" where
  "all_versions clusters = concat (map (\<lambda>c. map ns_version (cs_nodes c)) clusters)"

definition version_problem :: "json list \<Rightarrow> exn option" where
  "version_problem vs =
     (let odd = filter (\<lambda>v. json_truthy v \<and> \<not> (case v of JStr _ \<Rightarrow> True | _ \<Rightarrow> False)) vs in
      if list_ex (\<lambda>v. case v of JList _ \<Rightarrow> False | JObj _ \<Rightarrow> False | _ \<Rightarrow> True) odd then Some TypeError
      else if odd \<noteq> [] then Some AttributeError else None)"

definition format_table :: "cluster_status list \<Rightarrow> exn + string" where
  "format_table clusters =
     (case version_problem (all_versions clusters) of
        Some e \<Rightarrow> Inl e
      | None \<Rightarrow> Inr (join newline (table_lines clusters @ warning_lines clusters)))"

section \<open>The report of a validation\<close>

definition mark :: "check_status \<Rightarrow> string" where
  "mark s = (case s of Pass \<Rightarrow> ''PASS'' | Warn \<Rightarrow> ''WARN'' | Fail \<Rightarrow> ''FAIL'')"

definition summary_text :: "check list \<Rightarrow> string" where
  "summary_text cs = join '' '' (map (\<lambda>c. ck_name c @ '':'' @ status_text (ck_status c)) cs)"

definition detail_lines :: "check list \<Rightarrow> string list" where
  "detail_lines cs =
     map (\<lambda>c. ''        - '' @ ck_name c @ '': '' @ ck_detail c)
       (filter (\<lambda>c. ck_status c \<noteq> Pass) cs)"

definition head_line :: "check_status \<Rightarrow> string \<Rightarrow> string \<Rightarrow> check list \<Rightarrow> string" where
  "head_line s name where_shown cs =
     ljust 5 (mark s) @ '' '' @ ljust 14 name @ '' '' @ where_shown @ summary_text cs"

definition node_lines :: "node_verdict \<Rightarrow> string list" where
  "node_lines v =
     head_line (nv_status v) (nv_name v)
       (''['' @ nv_cluster v @ ''/'' @ role_name (nv_role v) @ '']  '') (nv_checks v)
     # detail_lines (nv_checks v)"

definition builder_lines :: "builder_verdict \<Rightarrow> string list" where
  "builder_lines v =
     head_line (bv_status v) (bv_name v) ''[builder]      '' (bv_checks v) # detail_lines (bv_checks v)"

definition count_warnings :: "validation \<Rightarrow> nat" where
  "count_warnings va =
     length (filter (\<lambda>c. ck_status c = Warn)
       (concat (map nv_checks (va_nodes va)) @ concat (map bv_checks (va_builders va))))"

definition overall_line :: "validation \<Rightarrow> string" where
  "overall_line va =
     ''OVERALL: '' @ (if va_ok va then ''PASS'' else ''FAIL'') @ ''  (''
       @ show_nat (count_warnings va) @ '' warning(s))''"

definition format_validate :: "validation \<Rightarrow> string" where
  "format_validate va = join newline
     (concat (map node_lines (va_nodes va)) @ concat (map builder_lines (va_builders va))
      @ (case va_dns va of None \<Rightarrow> []
         | Some (s, cs) \<Rightarrow> [head_line s ''dns'' ''[provider]     '' cs])
      @ [[], overall_line va])"

section \<open>The table is aligned\<close>

lemma foldr_max_ge:
  "x \<in> set xs \<Longrightarrow> x \<le> foldr max xs (a::nat)" "a \<le> foldr max xs (a::nat)"
  by (induction xs) auto

lemma length_status_row: "length (status_row cn n) = length table_headers"
  by (simp add: status_row_def table_headers_def)

lemma length_table_rows: "r \<in> set (table_rows clusters) \<Longrightarrow> length r = length table_headers"
  by (auto simp: table_rows_def length_status_row)

lemma column_widths_fit:
  assumes "r \<in> set (table_headers # rows)" and "i < length table_headers"
  shows "length (r ! i) \<le> column_widths rows ! i"
proof -
  have "column_widths rows ! i = foldr max (map (\<lambda>r. length (r ! i)) rows) (length (table_headers ! i))"
    using assms(2) by (simp add: column_widths_def)
  with assms(1) foldr_max_ge(2) show ?thesis by (auto intro: foldr_max_ge(1))
qed

lemma table_line_length:
  assumes "length cells = length widths"
    and "\<And>i. i < length widths \<Longrightarrow> length (cells ! i) \<le> widths ! i"
  shows "length (table_line widths cells) = sum_list widths + (length widths - 1) * 2"
proof -
  have "map length (map2 ljust widths cells) = widths"
    by (rule nth_equalityI) (use assms in \<open>auto simp: max_absorb1\<close>)
  with assms(1) show ?thesis by (simp add: table_line_def length_join)
qed

lemma table_lines_aligned:
  assumes "l \<in> set (table_lines clusters)"
  shows "length l = sum_list (column_widths (table_rows clusters)) + 12"
proof -
  have n: "length table_headers = 7" by (simp add: table_headers_def)
  have w: "length (column_widths rows) = 7" for rows by (simp add: column_widths_def n)
  from assms obtain r where r: "l = table_line (column_widths (table_rows clusters)) r"
    "r \<in> set (table_headers # table_rows clusters)" by (auto simp: table_lines_def Let_def)
  then have "length r = 7" using length_table_rows n by auto
  with r column_widths_fit [OF r(2)] table_line_length [of r "column_widths (table_rows clusters)"]
  show ?thesis by (simp add: w n)
qed

text \<open>
  The status table is aligned and complete: when it is printed, its lines are one header,
  one line per node in the order of the probe and one warning per unreachable reference, and
  the header and all node lines have one length, with each cell in full at the same place.
\<close>

theorem format_table_aligned:
  "case format_table clusters of
     Inl _ \<Rightarrow> list_ex (\<lambda>v. v \<noteq> JNull \<and> \<not> (\<exists>s. v = JStr s)) (all_versions clusters)
   | Inr text \<Rightarrow> \<exists>lines widths. text = join newline (lines @ warning_lines clusters) \<and>
       length lines = 1 + sum_list (map (\<lambda>c. length (cs_nodes c)) clusters) \<and>
       lines = map (\<lambda>cells. join ''  '' (map2 ljust widths cells)) (table_headers # table_rows clusters) \<and>
       list_all (\<lambda>l. length l = sum_list widths + 12) lines"
proof (cases "version_problem (all_versions clusters)")
  case (Some e)
  then have "filter (\<lambda>v. json_truthy v \<and> \<not> (case v of JStr _ \<Rightarrow> True | _ \<Rightarrow> False)) (all_versions clusters) \<noteq> []"
    by (auto simp: version_problem_def Let_def split: if_splits)
  then obtain v where "v \<in> set (all_versions clusters)" "json_truthy v" "\<not> (case v of JStr _ \<Rightarrow> True | _ \<Rightarrow> False)"
    by (auto simp: filter_empty_conv)
  then have "list_ex (\<lambda>v. v \<noteq> JNull \<and> \<not> (\<exists>s. v = JStr s)) (all_versions clusters)"
    by (auto simp: list_ex_iff json_truthy_def intro!: bexI [of _ v])
  with Some show ?thesis by (simp add: format_table_def)
next
  case None
  let ?w = "column_widths (table_rows clusters)"
  have "length (table_lines clusters) = 1 + sum_list (map (\<lambda>c. length (cs_nodes c)) clusters)"
    by (simp add: table_lines_def Let_def table_rows_def length_concat comp_def)
  moreover have "table_lines clusters =
      map (\<lambda>cells. join ''  '' (map2 ljust ?w cells)) (table_headers # table_rows clusters)"
    by (simp add: table_lines_def Let_def table_line_def)
  moreover have "list_all (\<lambda>l. length l = sum_list ?w + 12) (table_lines clusters)"
    by (simp add: list_all_iff table_lines_aligned)
  ultimately have "\<exists>lines widths. join newline (table_lines clusters @ warning_lines clusters) =
       join newline (lines @ warning_lines clusters) \<and>
       length lines = 1 + sum_list (map (\<lambda>c. length (cs_nodes c)) clusters) \<and>
       lines = map (\<lambda>cells. join ''  '' (map2 ljust widths cells)) (table_headers # table_rows clusters) \<and>
       list_all (\<lambda>l. length l = sum_list widths + 12) lines"
    by (intro exI conjI) (rule refl)
  with None show ?thesis by (simp only: format_table_def option.case sum.case)
qed

end
