(* ===== verification/Command_Line.thy ===== *)
theory Command_Line
  imports Results Status_Table Catchup Route53
begin

text \<open>
  The commands of \<open>cli.py\<close>: what each runs, prints and exits with. A command is the function
  \<open>cmd_x\<close> after its arguments are parsed; \<open>config\<close> is what \<open>load_fleet\<close> gave and \<open>pol\<close> what
  \<open>load_policy\<close> gave. The audit log the command opens is the world's. An exception that no
  command handles ends the process with a traceback and is the \<open>Inl\<close> of the computation, without
  what was printed before it.
\<close>

section \<open>What a command prints and returns\<close>

text \<open>\<open>PrintScreen\<close> is one refresh of \<open>status --watch\<close>: the time, the interval and the table\<close>

datatype printed =
    PrintJson json
  | PrintText string
  | PrintErr string
  | PrintScreen string int string

type_synonym exit = "int \<times> printed list"

text \<open>The part the changing commands share: \<open>key\<close> is \<open>succeeded\<close> or \<open>ok\<close>\<close>

definition exit_of_change :: "bool \<Rightarrow> string \<Rightarrow> json \<Rightarrow> exit" where
  "exit_of_change confirm key result =
     ((if has_key ''error'' result then 2
       else if \<not> confirm then 0
       else if json_truthy (got key result) then 0 else 1),
      [PrintJson result])"

definition unhealthy_node :: "node_status \<Rightarrow> bool" where
  "unhealthy_node n \<longleftrightarrow> ns_healthy n = Some False \<or> (truthy (ns_error n) \<and> \<not> ns_reachable n)
     \<or> ns_delinquent n = Some True"

definition unhealthy :: "cluster_status list \<Rightarrow> bool" where
  "unhealthy clusters = list_ex (\<lambda>c. list_ex unhealthy_node (cs_nodes c)) clusters"

section \<open>Commands that read\<close>

definition cmd_status :: "env \<Rightarrow> exn + fleet \<Rightarrow> bool \<Rightarrow> exit io" where
  "cmd_status E config as_json =
     bind_io (lift config) (\<lambda>f.
     bind_io (probe_fleet E f) (\<lambda>clusters.
     bind_io (if as_json then ret (PrintJson (JList (map cluster_status_json clusters)))
              else bind_io (lift (format_table clusters)) (\<lambda>t. ret (PrintText t))) (\<lambda>out.
     ret (if unhealthy clusters then 1 else 0, [out]))))"

definition known_nodes :: "fleet \<Rightarrow> string list" where
  "known_nodes f = concat (map (\<lambda>(_, c). map n_name (cl_nodes c)) (fl_clusters f))"

definition cmd_inspect :: "env \<Rightarrow> exn + fleet \<Rightarrow> string \<Rightarrow> exit io" where
  "cmd_inspect E config name =
     bind_io (lift config) (\<lambda>f.
       case find_node f name of
         None \<Rightarrow> ret (2, [PrintErr (''unknown node '' @ py_repr name @ ''; known: ''
                   @ join '', '' (known_nodes f))])
       | Some (_, _, n) \<Rightarrow>
           bind_io (inspect_node E n) (\<lambda>r.
             let s = ir_service r;
                 healthy = (sr_ok s \<and> sr_active s = Some ''active'' \<and> sr_sub s = Some ''running'')
             in ret (if healthy then 0 else 1, [PrintJson (inspect_json r)])))"

definition cmd_plan_upgrade :: "exn + fleet \<Rightarrow> policy \<Rightarrow> string \<Rightarrow> string \<Rightarrow> exit io" where
  "cmd_plan_upgrade config pol name version =
     bind_io (lift config) (\<lambda>f.
       let result = plan_result_json (plan_upgrade pol f name version)
       in ret (if has_key ''error'' result then 2
               else if got ''allowed'' (got ''decision'' result) = JBool True then 0 else 1,
               [PrintJson result]))"

definition cmd_vote_status :: "env \<Rightarrow> exn + fleet \<Rightarrow> string \<Rightarrow> exit io" where
  "cmd_vote_status E config name =
     bind_io (lift config) (\<lambda>f.
     bind_io (vote_status E f name) (\<lambda>r.
       let result = vote_json r
       in ret (if has_key ''error'' result then 2
               else if got ''voting'' result = JBool False \<or> got ''low_balance'' result = JBool True
                    then 1 else 0,
               [PrintJson result])))"

definition cmd_validate ::
  "env \<Rightarrow> (string \<Rightarrow> string option) \<Rightarrow> exn + fleet \<Rightarrow> policy \<Rightarrow> bool \<Rightarrow> exit io" where
  "cmd_validate E getenv config pol as_json =
     (case config of
        Inl e \<Rightarrow> ret (2, [PrintErr (''config invalid: '' @ exn_text E e)])
      | Inr f \<Rightarrow>
          bind_io (validate_fleet E getenv pol (probe_fleet E) f) (\<lambda>report.
            ret (if va_ok report then 0 else 1,
                 [if as_json then PrintJson (validation_json report)
                  else PrintText (format_validate report)])))"

definition cmd_audit :: "audit_log \<Rightarrow> string option \<Rightarrow> int \<Rightarrow> exit" where
  "cmd_audit al node limit = (0, [PrintJson (events_json (audit_recent node limit al))])"

section \<open>Commands that change something\<close>

definition cmd_restart :: "env \<Rightarrow> exn + fleet \<Rightarrow> policy \<Rightarrow> string \<Rightarrow> bool \<Rightarrow> exit io" where
  "cmd_restart E config pol name confirm =
     bind_io (lift config) (\<lambda>f.
     bind_io (restart_node E pol (default_sampler E) (leader_info E) f name confirm 2) (\<lambda>r.
     ret (exit_of_change confirm ''succeeded'' (restart_result_json r))))"

definition cmd_upgrade :: "env \<Rightarrow> exn + fleet \<Rightarrow> policy \<Rightarrow> string \<Rightarrow> string \<Rightarrow> bool \<Rightarrow> bool \<Rightarrow> exit io" where
  "cmd_upgrade E config pol name version confirm force_build =
     bind_io (lift config) (\<lambda>f.
     bind_io (execute_upgrade E pol (default_sampler E) f name version confirm 2 force_build) (\<lambda>r.
     ret (exit_of_change confirm ''succeeded'' (upgrade_result_json r))))"

definition cmd_bootstrap_builder :: "env \<Rightarrow> exn + fleet \<Rightarrow> string \<Rightarrow> bool \<Rightarrow> exit io" where
  "cmd_bootstrap_builder E config builder confirm =
     bind_io (lift config) (\<lambda>f.
     bind_io (bootstrap_builder E f builder confirm) (\<lambda>r.
     ret (exit_of_change confirm ''ok'' (bootstrap_result_json r))))"

definition cmd_provision ::
  "env \<Rightarrow> exn + fleet \<Rightarrow> string \<Rightarrow> string \<Rightarrow> bool \<Rightarrow> string list \<Rightarrow> int \<Rightarrow> exit io" where
  "cmd_provision E config name version confirm format_devices catchup_timeout_s =
     bind_io (lift config) (\<lambda>f.
     bind_io (provision_node E (default_sampler E) f name version confirm (set format_devices) 2
                catchup_timeout_s) (\<lambda>r.
     ret (exit_of_change confirm ''succeeded'' (provision_result_json r))))"

section \<open>DNS commands\<close>

text \<open>
  The driver \<open>make_driver\<close> gives is a parameter, since its state is not the world's: \<open>driver dns\<close>
  is its operations, or the \<open>DnsError\<close> it raises.
\<close>

datatype dns_args =
    DnsStatusArgs "string option"
  | DnsEjectArgs string "string option" bool
  | DnsRestoreArgs string "string option" bool

definition no_dns :: exit where
  "no_dns = (2, [PrintErr ''no dns config in fleet.yaml''])"

definition exit_of_override :: "override_result \<Rightarrow> exit" where
  "exit_of_override r =
     (let result = override_result_json r
      in (if has_key ''error'' result then 2 else 0, [PrintJson result]))"

definition cmd_dns ::
  "exn + fleet \<Rightarrow> (dns_config \<Rightarrow> exn + 'd dns_ops) \<Rightarrow> dns_args \<Rightarrow> 'd watch_state \<Rightarrow>
   (exn + exit) \<times> 'd watch_state" where
  "cmd_dns config driver args s =
     (case config of
        Inl e \<Rightarrow> (Inl e, s)
      | Inr f \<Rightarrow>
     (case fl_dns f of
        None \<Rightarrow> (Inr no_dns, s)
      | Some dns \<Rightarrow>
     (case driver dns of
        Inl e \<Rightarrow> (Inl e, s)
      | Inr ops \<Rightarrow>
     (case args of
        DnsStatusArgs rec \<Rightarrow>
          (case dns_status f ops rec (fst s) of
             (Inl e, d) \<Rightarrow> (Inl e, d, snd s)
           | (Inr st, d) \<Rightarrow> (Inr (0, [PrintJson (dns_status_json st)]), d, snd s))
      | DnsEjectArgs name rec confirm \<Rightarrow>
          (case dns_eject f ops name rec confirm s of
             (Inl e, s1) \<Rightarrow> (Inl e, s1)
           | (Inr r, s1) \<Rightarrow> (Inr (exit_of_override r), s1))
      | DnsRestoreArgs name rec confirm \<Rightarrow>
          (case dns_restore f ops name rec confirm s of
             (Inl e, s1) \<Rightarrow> (Inl e, s1)
           | (Inr r, s1) \<Rightarrow> (Inr (exit_of_override r), s1))))))"

text \<open>
  The watch command without \<open>--once\<close> is the loop without a number of rounds; it has a value only
  when a round raises. \<open>prober n\<close> is what the prober gives in round \<open>n\<close>.
\<close>

definition shown_rounds :: "round_event list \<Rightarrow> printed list" where
  "shown_rounds out = concat (map (\<lambda>e. case e of
     Round report \<Rightarrow> [PrintJson (watch_report_json report)] | Pause _ \<Rightarrow> []) out)"

definition cmd_watch ::
  "exn + fleet \<Rightarrow> (dns_config \<Rightarrow> exn + 'd dns_ops) \<Rightarrow> (int \<Rightarrow> exn + cluster_status list) \<Rightarrow> bool \<Rightarrow>
   int \<Rightarrow> bool \<Rightarrow> 'd watch_state \<Rightarrow> ((exn + exit) \<times> 'd watch_state) option" where
  "cmd_watch config driver prober once interval dry_run s =
     (case config of
        Inl e \<Rightarrow> Some (Inl e, s)
      | Inr f \<Rightarrow>
     (case fl_dns f of
        None \<Rightarrow> Some (Inr no_dns, s)
      | Some dns \<Rightarrow>
     (case driver dns of
        Inl e \<Rightarrow> Some (Inl e, s)
      | Inr ops \<Rightarrow>
          if once then
            (case watch_once f ops dry_run (prober 0) s of
               (Inl e, s1) \<Rightarrow> Some (Inl e, s1)
             | (Inr report, s1) \<Rightarrow> Some (Inr (0, [PrintJson (watch_report_json report)]), s1))
          else
            (case watch_loop f ops prober interval None dry_run 0 [] s of
               None \<Rightarrow> None
             | Some (Inl e, out, s1) \<Rightarrow> Some (Inl e, s1)
             | Some (Inr _, out, s1) \<Rightarrow> Some (Inr (0, shown_rounds out), s1)))))"

section \<open>What the exit codes say\<close>

text \<open>How an operation ended: on no node, at the gate, or past it, with or without success\<close>

datatype finish = NoSuchNode | Stopped | Finished bool

definition restart_finish :: "restart_result \<Rightarrow> finish" where
  "restart_finish r =
     (case r of RestartUnknown _ \<Rightarrow> NoSuchNode | RestartGated _ _ _ \<Rightarrow> Stopped
      | RestartDone out \<Rightarrow> Finished (cycle_ok (ro_cycle out) \<and> cu_caught_up (ro_catchup out)))"

definition upgrade_finish :: "upgrade_result \<Rightarrow> finish" where
  "upgrade_finish r =
     (case r of UpgradeUnknown _ \<Rightarrow> NoSuchNode | UpgradeGated _ _ \<Rightarrow> Stopped
      | UpgradeBuildFailed _ _ \<Rightarrow> Finished False | UpgradeDistFailed _ _ _ \<Rightarrow> Finished False
      | UpgradeDone out \<Rightarrow> Finished (sp_ok (sc_swap (uo_cycle out)) \<and> cycle_ok (sc_cycle (uo_cycle out))
          \<and> cu_caught_up (uo_catchup out) \<and> uo_version_ok out))"

definition provision_finish :: "provision_result \<Rightarrow> finish" where
  "provision_finish r =
     (case r of ProvisionUnknown _ \<Rightarrow> NoSuchNode | ProvisionGated _ _ \<Rightarrow> Stopped
      | ProvisionDone _ (st, ok, note) \<Rightarrow> Finished ok)"

definition exit_for :: "bool \<Rightarrow> finish \<Rightarrow> int" where
  "exit_for confirm x =
     (case x of NoSuchNode \<Rightarrow> 2 | Stopped \<Rightarrow> (if confirm then 1 else 0)
      | Finished ok \<Rightarrow> (if ok then 0 else 1))"

text \<open>Only an unknown node is not found, and nothing is executed without the confirmation\<close>

definition finish_fits :: "fleet \<Rightarrow> string \<Rightarrow> bool \<Rightarrow> finish \<Rightarrow> bool" where
  "finish_fits f name confirm x \<longleftrightarrow>
     (x = NoSuchNode \<longleftrightarrow> find_node f name = None) \<and> (\<not> confirm \<longrightarrow> x = NoSuchNode \<or> x = Stopped)"

lemma yields_restart_node:
  "yields (\<lambda>r. finish_fits f name confirm (restart_finish r))
     (restart_node E pol sampler leader_fn f name confirm max_lag)"
  unfolding restart_node_def restart_decided_def Let_def
  by (auto simp: finish_fits_def restart_finish_def split: option.split
      intro!: yield_rules yields_recorded)

lemma yields_execute_upgrade:
  "yields (\<lambda>r. finish_fits f name confirm (upgrade_finish r))
     (execute_upgrade E pol sampler f name version confirm max_lag force)"
  unfolding execute_upgrade_def upgrade_decided_def upgrade_execute_def upgrade_swap_def Let_def
  by (auto simp: finish_fits_def upgrade_finish_def split: option.split
      intro!: yield_rules yields_recorded)

lemma yields_provision_node:
  "yields (\<lambda>r. finish_fits f name confirm (provision_finish r))
     (provision_node E sampler f name version confirm devices max_lag timeout)"
  unfolding provision_node_def provision_decided_def Let_def
  by (auto simp: finish_fits_def provision_finish_def split: option.split prod.split
      intro!: yield_rules yields_recorded)

lemma exit_of_change_fits:
  assumes "finish_fits f name confirm x"
    and "has_key ''error'' j \<longleftrightarrow> x = NoSuchNode" and "json_truthy (got ''succeeded'' j) \<longleftrightarrow> x = Finished True"
  shows "exit_of_change confirm ''succeeded'' j = (exit_for confirm x, [PrintJson j])"
  using assms by (cases x) (auto simp: exit_of_change_def exit_for_def finish_fits_def)

lemma yields_ret_bind: "yields Q m \<Longrightarrow> (\<And>x. Q x \<Longrightarrow> P (g x)) \<Longrightarrow> yields P (bind_io m (\<lambda>x. ret (g x)))"
  by (rule yields_bindQ [where Q = Q]) (auto intro: yields_ret)

text \<open>
  C40. The exit code of restart, upgrade and provision is what an operator can rely on. On a
  loaded fleet the command prints the operation's result, and exits with 2 exactly when no node
  has the name. Without the confirmation nothing is executed and it exits with 0; with it, 0
  means that the operation went past the gate and that every part of it succeeded (for an
  upgrade: the swap, the cycle, the catch-up and the version), and everything else is 1.
\<close>

theorem change_exit_codes:
  "yields (\<lambda>(code, out). \<exists>r. out = [PrintJson (restart_result_json r)] \<and>
       code = exit_for confirm (restart_finish r) \<and> finish_fits f name confirm (restart_finish r))
     (cmd_restart E (Inr f) pol name confirm) \<and>
   yields (\<lambda>(code, out). \<exists>r. out = [PrintJson (upgrade_result_json r)] \<and>
       code = exit_for confirm (upgrade_finish r) \<and> finish_fits f name confirm (upgrade_finish r))
     (cmd_upgrade E (Inr f) pol name version confirm force_build) \<and>
   yields (\<lambda>(code, out). \<exists>r. out = [PrintJson (provision_result_json r)] \<and>
       code = exit_for confirm (provision_finish r) \<and> finish_fits f name confirm (provision_finish r))
     (cmd_provision E (Inr f) name version confirm devices timeout)"
proof (intro conjI)
  have r: "exit_of_change confirm ''succeeded'' (restart_result_json r) =
      (exit_for confirm (restart_finish r), [PrintJson (restart_result_json r)])"
    if "finish_fits f name confirm (restart_finish r)" for r
    by (rule exit_of_change_fits [OF that])
      (simp_all add: has_error_restart succeeded_restart restart_finish_def restart_succeeded_def
        split: restart_result.split)
  show "yields (\<lambda>(code, out). \<exists>r. out = [PrintJson (restart_result_json r)] \<and>
       code = exit_for confirm (restart_finish r) \<and> finish_fits f name confirm (restart_finish r))
     (cmd_restart E (Inr f) pol name confirm)"
    unfolding cmd_restart_def lift_Inr_bind
    by (rule yields_ret_bind [OF yields_restart_node]) (auto simp: r)
  have u: "exit_of_change confirm ''succeeded'' (upgrade_result_json r) =
      (exit_for confirm (upgrade_finish r), [PrintJson (upgrade_result_json r)])"
    if "finish_fits f name confirm (upgrade_finish r)" for r
    by (rule exit_of_change_fits [OF that])
      (simp_all add: has_error_upgrade succeeded_upgrade upgrade_finish_def upgrade_succeeded_def
        split: upgrade_result.split)
  show "yields (\<lambda>(code, out). \<exists>r. out = [PrintJson (upgrade_result_json r)] \<and>
       code = exit_for confirm (upgrade_finish r) \<and> finish_fits f name confirm (upgrade_finish r))
     (cmd_upgrade E (Inr f) pol name version confirm force_build)"
    unfolding cmd_upgrade_def lift_Inr_bind
    by (rule yields_ret_bind [OF yields_execute_upgrade]) (auto simp: u)
  have p: "exit_of_change confirm ''succeeded'' (provision_result_json r) =
      (exit_for confirm (provision_finish r), [PrintJson (provision_result_json r)])"
    if "finish_fits f name confirm (provision_finish r)" for r
    by (rule exit_of_change_fits [OF that])
      (auto simp add: has_error_provision succeeded_provision provision_finish_def
        split: provision_result.split prod.split)
  show "yields (\<lambda>(code, out). \<exists>r. out = [PrintJson (provision_result_json r)] \<and>
       code = exit_for confirm (provision_finish r) \<and> finish_fits f name confirm (provision_finish r))
     (cmd_provision E (Inr f) name version confirm devices timeout)"
    unfolding cmd_provision_def lift_Inr_bind
    by (rule yields_ret_bind [OF yields_provision_node]) (auto simp: p)
qed

lemma bootstrap_returns: "\<exists>r w'. bootstrap_builder E f builder confirm w = (Inr r, w')"
  by (simp add: bootstrap_builder_def bootstrap_decided_def bind_io_def run_def run_argv_def emit_def
      recorded_def ret_def split: option.split)

text \<open>
  C37. A confirmed bootstrap always ends, and never with exit code 0, whatever the builder
  answers: the result of an executed bootstrap always has the key \<open>error\<close>, so the command exits
  with 2 after a success as after a failure, and with 1 when the gate refused.
\<close>

theorem bootstrap_never_exits_0:
  "\<exists>r w'. cmd_bootstrap_builder E (Inr f) builder True w =
     (Inr (case r of BootstrapGated _ \<Rightarrow> 1 | _ \<Rightarrow> 2, [PrintJson (bootstrap_result_json r)]), w')"
proof -
  have "\<not> json_truthy (got ''ok'' (bootstrap_result_json (BootstrapGated d)))" for d
    by (simp add: bootstrap_result_json_def got_def json_truthy_def)
  then have "exit_of_change True ''ok'' (bootstrap_result_json r) =
      (case r of BootstrapGated _ \<Rightarrow> 1 | _ \<Rightarrow> 2, [PrintJson (bootstrap_result_json r)])" for r
    by (cases r) (simp_all add: exit_of_change_def has_error_bootstrap)
  moreover obtain r w' where "bootstrap_builder E f builder True w = (Inr r, w')"
    using bootstrap_returns by metis
  ultimately show ?thesis
    unfolding cmd_bootstrap_builder_def lift_Inr_bind
    by (intro exI [of _ r] exI [of _ w']) (simp add: bind_io_def ret_def)
qed

text \<open>Which nodes a probe can show as well\<close>

definition node_fine :: "node_status \<Rightarrow> bool" where
  "node_fine n \<longleftrightarrow> ns_reachable n \<and> ns_healthy n = Some True \<and> ns_delinquent n \<noteq> Some True"

lemma status_ok_fine: "status_ok cn n s \<Longrightarrow> unhealthy_node s \<longleftrightarrow> \<not> node_fine s"
  by (auto simp: status_ok_def unhealthy_node_def node_fine_def)

lemma status_ok_rpc: "status_ok cn n s \<Longrightarrow> node_fine s \<Longrightarrow> truthy (n_rpc_url n)"
  by (auto simp: status_ok_def node_fine_def)

lemma unhealthy_iff:
  assumes "list_all2 cluster_ok cs report"
  shows "unhealthy report \<longleftrightarrow> \<not> list_all (\<lambda>c. list_all node_fine (cs_nodes c)) report"
    and "\<not> unhealthy report \<Longrightarrow> list_all (\<lambda>(cn, c). list_all (\<lambda>n. truthy (n_rpc_url n)) (cl_nodes c)) cs"
proof -
  have nodes: "(list_ex unhealthy_node ss \<longleftrightarrow> \<not> list_all node_fine ss) \<and>
      (list_all node_fine ss \<longrightarrow> list_all (\<lambda>n. truthy (n_rpc_url n)) ns)"
    if "list_all2 (status_ok cn) ns ss" for cn ns ss
    using that by (induction rule: list_all2_induct) (auto simp: status_ok_fine dest: status_ok_rpc)
  have "(unhealthy report \<longleftrightarrow> \<not> list_all (\<lambda>c. list_all node_fine (cs_nodes c)) report) \<and>
      (\<not> unhealthy report \<longrightarrow> list_all (\<lambda>(cn, c). list_all (\<lambda>n. truthy (n_rpc_url n)) (cl_nodes c)) cs)"
    using assms
  proof (induction rule: list_all2_induct)
    case (Cons x xs y ys)
    from Cons(1) have "list_all2 (status_ok (fst x)) (cl_nodes (snd x)) (cs_nodes y)"
      by (auto simp: cluster_ok_def split: prod.splits)
    from nodes [OF this] Cons(3) show ?case by (auto simp: unhealthy_def split: prod.splits)
  qed (simp add: unhealthy_def)
  then show "unhealthy report \<longleftrightarrow> \<not> list_all (\<lambda>c. list_all node_fine (cs_nodes c)) report"
    "\<not> unhealthy report \<Longrightarrow> list_all (\<lambda>(cn, c). list_all (\<lambda>n. truthy (n_rpc_url n)) (cl_nodes c)) cs"
    by blast+
qed

text \<open>
  The status command exits with 0 exactly when every node of the configuration answered, is
  healthy and is not delinquent. So a fleet with a node that has no RPC url, which the
  configuration allows, always exits with 1.
\<close>

theorem status_exit_exact:
  "yields (\<lambda>(code, out). \<exists>report. list_all2 cluster_ok (fl_clusters f) report \<and>
       code = (if list_all (\<lambda>c. list_all (\<lambda>n. ns_reachable n \<and> ns_healthy n = Some True \<and>
                 ns_delinquent n \<noteq> Some True) (cs_nodes c)) report then 0 else 1) \<and>
       (if list_all (\<lambda>(cn, c). list_all (\<lambda>n. truthy (n_rpc_url n)) (cl_nodes c)) (fl_clusters f)
        then True else code = 1))
     (cmd_status E (Inr f) as_json)"
  unfolding cmd_status_def lift_Inr_bind node_fine_def [symmetric]
proof (rule yields_bindQ [OF yields_probe_fleet], rule yields_bind, rule yields_ret)
  fix report out
  assume ok: "list_all2 cluster_ok (fl_clusters f) report"
  from unhealthy_iff [OF ok] ok show "case (if unhealthy report then 1 else 0, [out]) of
      (code, out) \<Rightarrow> \<exists>report. list_all2 cluster_ok (fl_clusters f) report \<and>
        code = (if list_all (\<lambda>c. list_all node_fine (cs_nodes c)) report then 0 else 1) \<and>
        (if list_all (\<lambda>(cn, c). list_all (\<lambda>n. truthy (n_rpc_url n)) (cl_nodes c)) (fl_clusters f)
         then True else code = 1)"
    by (intro case_prodI exI [of _ report]) auto
qed

text \<open>
  The exit codes of vote-status and validate: 0 exactly for a validator that votes and whose
  balance is not reported low, and for a report in which nothing failed.
\<close>

theorem reading_exit_codes:
  "yields (\<lambda>(code, out). \<exists>r. out = [PrintJson (vote_json r)] \<and>
       code = (case r of VoteError _ \<Rightarrow> 2 | VoteStatus v \<Rightarrow> if voting v \<and> \<not> low_balance v then 0 else 1))
     (cmd_vote_status E (Inr f) name) \<and>
   yields (\<lambda>(code, out). \<exists>report. code = (if va_ok report then 0 else 1) \<and>
       out = [if as_json then PrintJson (validation_json report) else PrintText (format_validate report)])
     (cmd_validate E getenv (Inr f) pol as_json)"
proof (intro conjI)
  have v: "got ''voting'' (vote_json (VoteStatus v)) = JBool False \<longleftrightarrow> \<not> voting v"
    "got ''low_balance'' (vote_json (VoteStatus v)) = JBool True \<longleftrightarrow> low_balance v" for v
    by (auto simp: got_def vote_json_def voting_def low_balance_def account_json_def balance_json_def
        lag_json_def Let_def split: account_state.splits balance_view.splits lag_view.splits)
  have "yields (\<lambda>_. True) (vote_status E f name)" by (simp add: yields_def)
  then show "yields (\<lambda>(code, out). \<exists>r. out = [PrintJson (vote_json r)] \<and>
       code = (case r of VoteError _ \<Rightarrow> 2 | VoteStatus v \<Rightarrow> if voting v \<and> \<not> low_balance v then 0 else 1))
     (cmd_vote_status E (Inr f) name)"
    unfolding cmd_vote_status_def lift_Inr_bind Let_def
  proof (rule yields_ret_bind)
    fix r
    show "case (if has_key ''error'' (vote_json r) then 2 else if got ''voting'' (vote_json r) = JBool False
          \<or> got ''low_balance'' (vote_json r) = JBool True then 1 else 0, [PrintJson (vote_json r)]) of
        (code, out) \<Rightarrow> \<exists>r. out = [PrintJson (vote_json r)] \<and>
          code = (case r of VoteError _ \<Rightarrow> 2 | VoteStatus v \<Rightarrow> if voting v \<and> \<not> low_balance v then 0 else 1)"
      by (cases r) (auto simp: has_error_vote v intro!: exI [of _ r])
  qed
  have "yields (\<lambda>_. True) (validate_fleet E getenv pol (probe_fleet E) f)" by (simp add: yields_def)
  then show "yields (\<lambda>(code, out). \<exists>report. code = (if va_ok report then 0 else 1) \<and>
       out = [if as_json then PrintJson (validation_json report) else PrintText (format_validate report)])
     (cmd_validate E getenv (Inr f) pol as_json)"
    unfolding cmd_validate_def sum.case by (rule yields_ret_bind) auto
qed

text \<open>
  A confirmed ejection that the gate refuses exits with 0: only an unknown node or one in no
  pool is an error. Here the last address of a record is to be ejected.
\<close>

theorem refused_ejection_exits_0:
  "\<exists>out s'. cmd_dns (Inr two_node_fleet) (\<lambda>_. Inr inmem_ops) (DnsEjectArgs ''rpc1'' None True)
      (serving_rpc1, None) = (Inr (0, out), s') \<and> im_get (fst s') ''rpc'' = {''10.0.0.1''}"
proof -
  have f: "find_node two_node_fleet ''rpc1'' = Some (''mainnet'', snd (hd (fl_clusters two_node_fleet)),
      basic_node ''rpc1'' Rpc ''10.0.0.1'' (Some ''u1'') None)"
    by (simp add: find_node_def two_node_fleet_def basic_node_def)
  have p: "pools_for_node two_node_fleet ''rpc1'' None = [two_node_pool]"
    by (simp add: pools_for_node_def two_node_fleet_def two_node_pool_def)
  have h: "host (basic_node ''rpc1'' Rpc ''10.0.0.1'' (Some ''u1'') None) = ''10.0.0.1''"
    by (simp add: basic_node_def)
  have l: "list_members inmem_ops ''rpc'' serving_rpc1 = (Inr [''10.0.0.1''], serving_rpc1)"
    by (simp add: inmem_defs serving_rpc1_def inmem_init_def)
  have w: "would_empty ''10.0.0.1'' {''10.0.0.1''}" by (simp add: would_empty_def)
  have r: "pl_record two_node_pool = ''rpc''" by (simp add: two_node_pool_def)
  have g: "\<not> gd_allowed (gate op c nd True pl (override_checks Eject ''10.0.0.1'' two_node_pool {''10.0.0.1''}))"
    for op c nd pl by (simp add: gate_allowed override_checks_def w)
  have "\<exists>es. override_pools inmem_ops Eject ''10.0.0.1'' ''rpc1'' True [two_node_pool] (serving_rpc1, None)
      = (Inr es, serving_rpc1, None)"
    using g by (simp add: override_pool_def r l Let_def)
  then obtain es where "override_pools inmem_ops Eject
      (host (basic_node ''rpc1'' Rpc ''10.0.0.1'' (Some ''u1'') None)) ''rpc1'' True [two_node_pool]
      (serving_rpc1, None) = (Inr es, serving_rpc1, None)" unfolding h by blast
  then have "\<exists>es. dns_eject two_node_fleet inmem_ops ''rpc1'' None True (serving_rpc1, None)
      = (Inr (Overridden Eject ''rpc1'' es), serving_rpc1, None)"
    by (simp add: dns_eject_def dns_override_def f p Let_def del: override_pools.simps)
  moreover have "fl_dns two_node_fleet \<noteq> None" by (simp add: two_node_fleet_def)
  ultimately show ?thesis
    by (auto simp: cmd_dns_def exit_of_override_def has_error_override serving_rpc1_def inmem_init_def
        im_get_def)
qed

end
