(* ===== verification/Mcp_Server.thy ===== *)
theory Mcp_Server
  imports Results Catchup Route53
begin

text \<open>
  The tools of \<open>mcp_server.py\<close>: each loads the configuration, runs one operation and returns its
  dict. \<open>config\<close> is what \<open>load_fleet()\<close> gave, \<open>pol\<close> what \<open>load_policy()\<close> gave; the audit log of
  \<open>_audit\<close> is the world's. A tool that raises is answered by the MCP library.
\<close>

section \<open>Tools that read\<close>

definition tool_fleet_status :: "env \<Rightarrow> exn + fleet \<Rightarrow> json io" where
  "tool_fleet_status E config =
     bind_io (lift config) (\<lambda>f.
     bind_io (probe_fleet E f) (\<lambda>clusters.
     ret (JObj [(''clusters'', JList (map cluster_status_json clusters))])))"

definition detail_json :: "cluster_status \<Rightarrow> node_status \<Rightarrow> json" where
  "detail_json c s = JObj
     [(''node'', node_status_json s),
      (''cluster'', JObj [(''name'', JStr (cs_name c)), (''reference_slot'', cs_reference_slot c),
         (''reference_version'', cs_reference_version c),
         (''reference_error'', json_opt JStr (cs_reference_error c))])]"

text \<open>The first status of that name in a cluster of that name, going through the report\<close>

fun find_detail :: "string \<Rightarrow> string \<Rightarrow> cluster_status list \<Rightarrow> json option" where
  "find_detail cn name [] = None"
| "find_detail cn name (c # cs) =
     (if cs_name c \<noteq> cn then find_detail cn name cs
      else case find (\<lambda>s. ns_name s = name) (cs_nodes c) of
             Some s \<Rightarrow> Some (detail_json c s)
           | None \<Rightarrow> find_detail cn name cs)"

definition all_node_names :: "fleet \<Rightarrow> string list" where
  "all_node_names f = concat (map (\<lambda>(_, c). map n_name (cl_nodes c)) (fl_clusters f))"

definition tool_node_detail :: "env \<Rightarrow> exn + fleet \<Rightarrow> string \<Rightarrow> json io" where
  "tool_node_detail E config name =
     bind_io (lift config) (\<lambda>f.
       case find_node f name of
         None \<Rightarrow> ret (JObj [(''error'', JStr (''unknown node '' @ py_repr name)),
                   (''known_nodes'', json_strs (all_node_names f))])
       | Some (cn, _, _) \<Rightarrow>
           bind_io (probe_fleet E f) (\<lambda>clusters.
             ret (case find_detail cn name clusters of
                    Some d \<Rightarrow> d
                  | None \<Rightarrow> error_json (''probe returned no result for '' @ py_repr name))))"

text \<open>\<open>None\<close> when one of the versions is not known\<close>

definition matches_reference :: "json \<Rightarrow> json \<Rightarrow> bool option" where
  "matches_reference ref version =
     (if ref = JNull \<or> version = JNull then None else Some (version = ref))"

definition drift_json :: "cluster_status \<Rightarrow> json" where
  "drift_json c =
     (let ref = cs_reference_version c;
          nodes = map (\<lambda>n. (n, matches_reference ref (ns_version n))) (cs_nodes c)
      in JObj
        [(''cluster'', JStr (cs_name c)), (''reference_version'', ref),
         (''nodes'', JList (map (\<lambda>(n, m). JObj [(''name'', JStr (ns_name n)),
            (''version'', ns_version n), (''matches_reference'', json_opt JBool m)]) nodes)),
         (''drift'', JBool (list_ex (\<lambda>(n, m). m = Some False) nodes))])"

definition tool_version_drift :: "env \<Rightarrow> exn + fleet \<Rightarrow> json io" where
  "tool_version_drift E config =
     bind_io (lift config) (\<lambda>f.
     bind_io (probe_fleet E f) (\<lambda>clusters.
     ret (JObj [(''clusters'', JList (map drift_json clusters))])))"

definition tool_vote_status :: "env \<Rightarrow> exn + fleet \<Rightarrow> string \<Rightarrow> json io" where
  "tool_vote_status E config name =
     bind_io (lift config) (\<lambda>f. bind_io (vote_status E f name) (\<lambda>r. ret (vote_json r)))"

definition tool_leader_schedule :: "env \<Rightarrow> exn + fleet \<Rightarrow> string \<Rightarrow> int \<Rightarrow> json io" where
  "tool_leader_schedule E config name min_window_minutes =
     bind_io (lift config) (\<lambda>f.
       case find_node f name of
         None \<Rightarrow> ret (error_json (''unknown node '' @ py_repr name))
       | Some (_, c, n) \<Rightarrow>
           if n_role n \<noteq> Validator \<or> \<not> truthy (n_identity n) then
             ret (error_json (name @ '' is not a voting validator''))
           else catch
             (bind_io (leader_windows E (cl_reference_rpc c) (the (n_identity n)) min_window_minutes)
                (\<lambda>l. ret (leader_json l)))
             (\<lambda>e. if is_leader_failure e
                then Some (ret (error_json (''leader schedule unavailable: '' @ exn_text E e)))
                else None))"

definition tool_validate :: "env \<Rightarrow> (string \<Rightarrow> string option) \<Rightarrow> exn + fleet \<Rightarrow> policy \<Rightarrow> json io" where
  "tool_validate E getenv config pol =
     bind_io (lift config) (\<lambda>f.
     bind_io (validate_fleet E getenv pol (probe_fleet E) f) (\<lambda>report. ret (validation_json report)))"

definition tool_plan_node_upgrade :: "exn + fleet \<Rightarrow> policy \<Rightarrow> string \<Rightarrow> string \<Rightarrow> json io" where
  "tool_plan_node_upgrade config pol name target_version =
     bind_io (lift config) (\<lambda>f. ret (plan_result_json (plan_upgrade pol f name target_version)))"

definition tool_audit_log :: "audit_log \<Rightarrow> string option \<Rightarrow> int \<Rightarrow> json" where
  "tool_audit_log al name limit = events_json (audit_recent name limit al)"

section \<open>Tools that change something\<close>

definition tool_restart :: "env \<Rightarrow> exn + fleet \<Rightarrow> policy \<Rightarrow> string \<Rightarrow> bool \<Rightarrow> json io" where
  "tool_restart E config pol name confirm =
     bind_io (lift config) (\<lambda>f.
     bind_io (restart_node E pol (default_sampler E) (leader_info E) f name confirm 2) (\<lambda>r.
     ret (restart_result_json r)))"

definition tool_bootstrap_builder_host :: "env \<Rightarrow> exn + fleet \<Rightarrow> string \<Rightarrow> bool \<Rightarrow> json io" where
  "tool_bootstrap_builder_host E config builder confirm =
     bind_io (lift config) (\<lambda>f.
     bind_io (bootstrap_builder E f builder confirm) (\<lambda>r. ret (bootstrap_result_json r)))"

definition tool_provision ::
  "env \<Rightarrow> exn + fleet \<Rightarrow> string \<Rightarrow> string \<Rightarrow> bool \<Rightarrow> string list \<Rightarrow> int \<Rightarrow> json io" where
  "tool_provision E config name version confirm format_devices catchup_timeout_s =
     bind_io (lift config) (\<lambda>f.
     bind_io (provision_node E (default_sampler E) f name version confirm (set format_devices) 2
                catchup_timeout_s) (\<lambda>r. ret (provision_result_json r)))"

definition tool_upgrade :: "env \<Rightarrow> exn + fleet \<Rightarrow> policy \<Rightarrow> string \<Rightarrow> string \<Rightarrow> bool \<Rightarrow> json io" where
  "tool_upgrade E config pol name target_version confirm =
     bind_io (lift config) (\<lambda>f.
     bind_io (execute_upgrade E pol (default_sampler E) f name target_version confirm 2 False) (\<lambda>r.
     ret (upgrade_result_json r)))"

text \<open>The DNS tools: \<open>driver\<close> is \<open>make_driver\<close> with the operations of the driver it chooses\<close>

definition with_pools ::
  "exn + fleet \<Rightarrow> (dns_config \<Rightarrow> exn + 'd dns_ops) \<Rightarrow>
   (fleet \<Rightarrow> 'd dns_ops \<Rightarrow> 'd watch_state \<Rightarrow> (exn + json) \<times> 'd watch_state) \<Rightarrow> 'd watch_state \<Rightarrow>
   (exn + json) \<times> 'd watch_state" where
  "with_pools config driver k s =
     (case config of
        Inl e \<Rightarrow> (Inl e, s)
      | Inr f \<Rightarrow>
          (case fl_dns f of
             None \<Rightarrow> (Inr (error_json ''no dns config in fleet.yaml''), s)
           | Some dns \<Rightarrow>
               (case driver dns of Inl e \<Rightarrow> (Inl e, s) | Inr ops \<Rightarrow> k f ops s)))"

definition tool_dns_pool_status ::
  "exn + fleet \<Rightarrow> (dns_config \<Rightarrow> exn + 'd dns_ops) \<Rightarrow> string option \<Rightarrow> 'd watch_state \<Rightarrow>
   (exn + json) \<times> 'd watch_state" where
  "tool_dns_pool_status config driver rec =
     with_pools config driver (\<lambda>f ops (d, al). case dns_status f ops rec d of
        (Inl e, d1) \<Rightarrow> (Inl e, d1, al)
      | (Inr st, d1) \<Rightarrow> (Inr (dns_status_json st), d1, al))"

definition tool_dns_pool_eject ::
  "exn + fleet \<Rightarrow> (dns_config \<Rightarrow> exn + 'd dns_ops) \<Rightarrow> string \<Rightarrow> string option \<Rightarrow> bool \<Rightarrow>
   'd watch_state \<Rightarrow> (exn + json) \<times> 'd watch_state" where
  "tool_dns_pool_eject config driver name rec confirm =
     with_pools config driver (\<lambda>f ops s. case dns_eject f ops name rec confirm s of
        (Inl e, s1) \<Rightarrow> (Inl e, s1)
      | (Inr r, s1) \<Rightarrow> (Inr (override_result_json r), s1))"

definition tool_dns_pool_restore ::
  "exn + fleet \<Rightarrow> (dns_config \<Rightarrow> exn + 'd dns_ops) \<Rightarrow> string \<Rightarrow> string option \<Rightarrow> bool \<Rightarrow>
   'd watch_state \<Rightarrow> (exn + json) \<times> 'd watch_state" where
  "tool_dns_pool_restore config driver name rec confirm =
     with_pools config driver (\<lambda>f ops s. case dns_restore f ops name rec confirm s of
        (Inl e, s1) \<Rightarrow> (Inl e, s1)
      | (Inr r, s1) \<Rightarrow> (Inr (override_result_json r), s1))"

section \<open>The node asked for\<close>

lemma find_status:
  assumes "list_all2 (status_ok cn) ns ss" and "find (\<lambda>n. n_name n = name) ns = Some n"
  shows "\<exists>s. find (\<lambda>s. ns_name s = name) ss = Some s \<and> status_ok cn n s"
  using assms by (induction rule: list_all2_induct) (auto simp: status_ok_def split: if_splits)

lemma find_detail_found:
  assumes "list_all2 cluster_ok cs report" and "distinct (map fst cs)"
    and "find_node_in cs name = Some (cn, c, n)"
  shows "\<exists>cst s. find_detail cn name report = Some (detail_json cst s) \<and> cs_name cst = cn \<and> status_ok cn n s"
  using assms
proof (induction rule: list_all2_induct)
  case (Cons x xs y ys)
  obtain cn1 c1 where x: "x = (cn1, c1)" by (cases x)
  with Cons(1) have y: "cs_name y = cn1" "list_all2 (status_ok cn1) (cl_nodes c1) (cs_nodes y)"
    by (auto simp: cluster_ok_def)
  show ?case
  proof (cases "find (\<lambda>n. n_name n = name) (cl_nodes c1)")
    case (Some n1)
    with Cons.prems(2) x have "cn = cn1" "n = n1" by simp_all
    with find_status [OF y(2) Some] obtain s where
      s: "find (\<lambda>s. ns_name s = name) (cs_nodes y) = Some s" "status_ok cn n s" by auto
    with y(1) \<open>cn = cn1\<close> show ?thesis by (intro exI [of _ y] exI [of _ s]) simp
  next
    case None
    with Cons.prems(2) x have rest: "find_node_in xs name = Some (cn, c, n)" by simp
    then have "cn \<in> fst ` set xs" using find_node_in_Some by (metis fst_conv image_eqI)
    with Cons.prems(1) x have "cn1 \<noteq> cn" by auto
    with Cons(3) Cons.prems(1) rest x y(1) show ?thesis by simp
  qed
qed simp

section \<open>Properties\<close>

text \<open>
  Asked for a node, the server answers with the consistent status of that very node, the
  first of its name in the configuration, and the data of its cluster; an error is returned
  exactly for a name no node has. The answer that the probe gave no result never occurs.
\<close>

theorem node_detail_complete:
  assumes "distinct (map fst (fl_clusters f))"
  shows "yields (\<lambda>answer. case find_node f name of
      None \<Rightarrow> has_key ''error'' answer \<and> got ''known_nodes'' answer = json_strs (all_node_names f)
    | Some (cn, c, n) \<Rightarrow> \<not> has_key ''error'' answer \<and>
        (\<exists>s. got ''node'' answer = node_status_json s \<and> status_ok cn n s) \<and>
        got ''name'' (got ''cluster'' answer) = JStr cn)
    (tool_node_detail E (Inr f) name)"
proof (cases "find_node f name")
  case None
  then show ?thesis
    by (simp add: tool_node_detail_def lift_Inr_bind yields_ret has_key_def got_def)
next
  case (Some x)
  obtain cn c n where x: "x = (cn, c, n)" by (cases x)
  have d: "\<exists>cst s. find_detail cn name report = Some (detail_json cst s) \<and> cs_name cst = cn \<and> status_ok cn n s"
    if "list_all2 cluster_ok (fl_clusters f) report" for report
    using find_detail_found [OF that assms] Some x by (simp add: find_node_def)
  have "yields (\<lambda>answer. \<not> has_key ''error'' answer \<and>
        (\<exists>s. got ''node'' answer = node_status_json s \<and> status_ok cn n s) \<and>
        got ''name'' (got ''cluster'' answer) = JStr cn)
      (bind_io (probe_fleet E f) (\<lambda>clusters. ret (case find_detail cn name clusters of
         Some d \<Rightarrow> d | None \<Rightarrow> error_json (''probe returned no result for '' @ py_repr name))))"
    by (rule yields_bindQ [OF yields_probe_fleet], rule yields_ret)
      (drule d, auto simp: detail_json_def has_key_def got_def)
  with Some x show ?thesis by (simp add: tool_node_detail_def lift_Inr_bind)
qed

theorem node_detail_complete_witness:
  "yields (\<lambda>answer. \<not> has_key ''error'' answer) (tool_node_detail silent_env (Inr val_fleet) ''val1'')"
proof -
  have d: "distinct (map fst (fl_clusters val_fleet))" by (simp add: val_fleet_def)
  have f: "find_node val_fleet ''val1'' = Some (''mainnet'', val_cluster, val1)"
    by (simp add: find_node_def val_fleet_def val_cluster_def val1_def basic_node_def)
  from node_detail_complete [OF d, of "''val1''" silent_env] show ?thesis
    unfolding f by (simp add: yields_def)
qed

text \<open>
  The drift of a cluster is reported exactly when the reference's version is known and some node
  reports another one; a node whose version is not known never counts.
\<close>

theorem drift_exact:
  "got ''drift'' (drift_json c) = JBool (cs_reference_version c \<noteq> JNull \<and>
     list_ex (\<lambda>n. ns_version n \<noteq> JNull \<and> ns_version n \<noteq> cs_reference_version c) (cs_nodes c))"
  by (auto simp: drift_json_def got_def matches_reference_def Let_def list_ex_iff)

end
