(* ===== verification/Argparse.thy ===== *)
theory Argparse
  imports Prelude
begin

text \<open>
  Python's \<open>argparse\<close> (3.11 and 3.12), as far as the command line uses it: options with one
  value or none, abbreviated long options, \<open>--opt=value\<close>, the flag \<open>-h\<close>, positionals, \<open>--\<close>, and
  subcommands. Parsing ends with a namespace, after the help text, or with a usage error, which
  are the exit codes 0 and 2; the texts printed then are not modelled. Conversions are the
  ones used: none, and \<open>int\<close>.
\<close>

section \<open>Parsers as data\<close>

datatype 'f arg_value =
    NoneV
  | BoolV bool
  | IntV int
  | TextV string
  | ListV "string list"
  | FuncV 'f

type_synonym 'f namespace = "(string, 'f arg_value) dict"

text \<open>The actions \<open>store\<close>, with a conversion or not, \<open>store_true\<close>, \<open>append\<close> and \<open>help\<close>\<close>

datatype opt_kind = Store | StoreInt | StoreTrue | Append | Help

record 'f opt =
  opt_strings :: "string list"
  opt_dest :: string
  opt_kind :: opt_kind
  opt_default :: "'f arg_value"

text \<open>
  A parser has its options, in the order they were added, and either plain positionals or
  required subcommands, and the defaults of \<open>set_defaults\<close>.
\<close>

datatype 'f arg_parser =
    Parser "'f opt list" "string list" "'f namespace"
  | ParserOf "'f opt list" string "(string \<times> 'f arg_parser) list" "'f namespace"

text \<open>How parsing stops early: \<open>exit(0)\<close> after the help, \<open>exit(2)\<close> after an error\<close>

datatype stop = HelpShown | UsageError

definition takes_value :: "'f opt \<Rightarrow> bool" where
  "takes_value a \<longleftrightarrow> opt_kind a \<in> {Store, StoreInt, Append}"

section \<open>Classifying arguments\<close>

text \<open>
  An argument is a positional, the separator \<open>--\<close>, or an option: the action it stands for, if
  there is one, the option's full name and the value written in the same argument, marked with
  whether an equals sign separates it.
\<close>

datatype 'f token =
    Plain
  | Dashes
  | Option "'f opt option" string "(bool \<times> string) option"

abbreviation equals_sign :: char where
  "equals_sign \<equiv> CHR ''=''"

abbreviation minus_sign :: char where
  "minus_sign \<equiv> CHR ''-''"

definition find_opt :: "'f opt list \<Rightarrow> string \<Rightarrow> 'f opt option" where
  "find_opt os s = find (\<lambda>a. s \<in> set (opt_strings a)) os"

definition opt_table :: "'f opt list \<Rightarrow> (string \<times> 'f opt) list" where
  "opt_table os = concat (map (\<lambda>a. map (\<lambda>s. (s, a)) (opt_strings a)) os)"

text \<open>\<open>arg.partition('=')\<close> with a value when there is a separator\<close>

definition split_value :: "string \<Rightarrow> string \<times> (bool \<times> string) option" where
  "split_value s =
     (fst (partition_char equals_sign s),
      if equals_sign \<in> set s then Some (True, snd (partition_char equals_sign s)) else None)"

text \<open>\<open>_get_option_tuples\<close>\<close>

definition opt_matches :: "'f opt list \<Rightarrow> string \<Rightarrow> ('f opt \<times> string \<times> (bool \<times> string) option) list" where
  "opt_matches os s =
     (if startswith s ''--'' then
        (case split_value s of (p, e) \<Rightarrow>
           map (\<lambda>(n, a). (a, n, e)) (filter (\<lambda>(n, a). startswith n p) (opt_table os)))
      else
        List.map_filter (\<lambda>(n, a).
          if n = take 2 s then Some (a, n, Some (False, drop 2 s))
          else if startswith n s then Some (a, n, None) else None) (opt_table os))"

text \<open>The pattern of a negative number; its end may be before a final line feed\<close>

definition looks_negative :: "string \<Rightarrow> bool" where
  "looks_negative s =
     (case s of [] \<Rightarrow> False
      | c # t \<Rightarrow> c = minus_sign \<and>
          (let u = (if endswith t newline then butlast t else t);
               (a, b) = partition_char (CHR ''.'') u
           in isdigit u \<or> (CHR ''.'' \<in> set u \<and> (a = [] \<or> isdigit a) \<and> isdigit b)))"

text \<open>\<open>_parse_optional\<close>; \<open>None\<close> is the error of an ambiguous abbreviation\<close>

definition classify :: "'f opt list \<Rightarrow> string \<Rightarrow> 'f token option" where
  "classify os s =
     (if \<not> startswith s ''-'' then Some Plain
      else case find_opt os s of
        Some a \<Rightarrow> Some (Option (Some a) s None)
      | None \<Rightarrow>
          if length s = 1 then Some Plain
          else case (if equals_sign \<in> set s then find_opt os (fst (split_value s)) else None) of
            Some a \<Rightarrow> Some (Option (Some a) (fst (split_value s)) (snd (split_value s)))
          | None \<Rightarrow>
              (case opt_matches os s of
                 [] \<Rightarrow> if looks_negative s \<or> CHR '' '' \<in> set s then Some Plain
                       else Some (Option None s None)
               | [(a, n, e)] \<Rightarrow> Some (Option (Some a) n e)
               | _ \<Rightarrow> None))"

fun tokens :: "'f opt list \<Rightarrow> string list \<Rightarrow> (string \<times> 'f token) list option" where
  "tokens os [] = Some []"
| "tokens os (s # ss) =
     (if s = ''--'' then Some ((s, Dashes) # map (\<lambda>x. (x, Plain)) ss)
      else case classify os s of
        None \<Rightarrow> None
      | Some t \<Rightarrow> map_option (\<lambda>ts. (s, t) # ts) (tokens os ss))"

lemma find_opt_Some: "find_opt os s = Some a \<Longrightarrow> a \<in> set os \<and> s \<in> set (opt_strings a)"
  by (auto simp: find_opt_def find_Some_iff)

section \<open>Taking actions\<close>

text \<open>
  \<open>int(s)\<close>: blanks around, a sign, digits that single underscores may separate, and at most
  4300 of them
\<close>

fun underscored :: "string \<Rightarrow> bool" where
  "underscored [] = False"
| "underscored [c] = is_digit c"
| "underscored (c # d # s) =
     (is_digit c \<and> (if d = CHR ''_'' then underscored s else underscored (d # s)))"

definition py_int :: "string \<Rightarrow> int option" where
  "py_int s =
     (let t = strip s;
          (neg, u) = (case t of c # r \<Rightarrow> if c = minus_sign then (True, r)
                        else if c = CHR ''+'' then (False, r) else (False, t) | [] \<Rightarrow> (False, t));
          ds = filter (\<lambda>c. c \<noteq> CHR ''_'') u
      in if underscored u \<and> length ds \<le> 4300
         then Some (if neg then - int_of_digits ds else int_of_digits ds) else None)"

text \<open>\<open>take_action\<close> of an option with the values it was given\<close>

definition take_opt :: "'f opt \<Rightarrow> string list \<Rightarrow> 'f namespace \<Rightarrow> stop + 'f namespace" where
  "take_opt a vs ns =
     (case opt_kind a of
        Help \<Rightarrow> Inl HelpShown
      | StoreTrue \<Rightarrow> Inr (dict_set (opt_dest a) (BoolV True) ns)
      | Store \<Rightarrow> Inr (dict_set (opt_dest a) (TextV (hd vs)) ns)
      | StoreInt \<Rightarrow>
          (case py_int (hd vs) of
             None \<Rightarrow> Inl UsageError
           | Some i \<Rightarrow> Inr (dict_set (opt_dest a) (IntV i) ns))
      | Append \<Rightarrow>
          Inr (dict_set (opt_dest a)
            (ListV ((case dict_get ns (opt_dest a) of Some (ListV xs) \<Rightarrow> xs | _ \<Rightarrow> []) @ [hd vs])) ns))"

fun take_opts :: "('f opt \<times> string list) list \<Rightarrow> 'f namespace \<Rightarrow> stop + 'f namespace" where
  "take_opts [] ns = Inr ns"
| "take_opts ((a, vs) # as) ns =
     (case take_opt a vs ns of Inl e \<Rightarrow> Inl e | Inr ns1 \<Rightarrow> take_opts as ns1)"

text \<open>
  The loop of \<open>consume_optional\<close> on a value in the same argument: \<open>-xyz\<close> is \<open>-x -y -z\<close> as long as
  the flags take no value. The result is the actions with their values, an unknown rest, and the
  last action when it still takes its value from the next argument.
\<close>

function short_flags :: "'f opt list \<Rightarrow> 'f opt \<Rightarrow> string \<Rightarrow> bool \<Rightarrow> string \<Rightarrow> ('f opt \<times> string list) list \<Rightarrow>
    stop + (('f opt \<times> string list) list \<times> string list \<times> 'f opt option)" where
  "short_flags os a name eq e taken =
     (if takes_value a then Inr (taken @ [(a, [e])], [], None)
      else if \<not> startswith name ''--'' \<and> e \<noteq> [] then
        (if eq \<or> hd e = minus_sign then Inl UsageError
         else case find_opt os [minus_sign, hd e] of
           None \<Rightarrow> Inr (taken @ [(a, [])], [minus_sign # e], None)
         | Some a2 \<Rightarrow>
             (case tl e of
                [] \<Rightarrow> Inr (taken @ [(a, [])], [], Some a2)
              | c # r \<Rightarrow>
                  if c = equals_sign
                  then short_flags os a2 [minus_sign, hd e] True r (taken @ [(a, [])])
                  else short_flags os a2 [minus_sign, hd e] False (tl e) (taken @ [(a, [])])))
      else Inl UsageError)"
  by pat_completeness auto
termination
  by (relation "measure (\<lambda>(os, a, name, eq, e, taken). length e)") (auto simp: neq_Nil_conv)

declare short_flags.simps [simp del]

text \<open>An action without a value in its own argument takes the next one, if it needs one\<close>

definition take_next :: "('f opt \<times> string list) list \<Rightarrow> 'f opt \<Rightarrow> (string \<times> 'f token) list \<Rightarrow>
    'f namespace \<Rightarrow> stop + ('f namespace \<times> (string \<times> 'f token) list)" where
  "take_next taken a ts ns =
     (if takes_value a then
        (case ts of
           (v, Plain) # rest \<Rightarrow> map_sum id (\<lambda>ns1. (ns1, rest)) (take_opts (taken @ [(a, [v])]) ns)
         | _ \<Rightarrow> Inl UsageError)
      else map_sum id (\<lambda>ns1. (ns1, ts)) (take_opts (taken @ [(a, [])]) ns))"

text \<open>\<open>consume_optional\<close>; the namespace, the extra arguments, and what is left\<close>

fun consume_option :: "'f opt list \<Rightarrow> string \<times> 'f token \<Rightarrow> (string \<times> 'f token) list \<Rightarrow> 'f namespace \<Rightarrow>
    stop + ('f namespace \<times> string list \<times> (string \<times> 'f token) list)" where
  "consume_option os (s, Option (Some a) name None) ts ns =
     map_sum id (\<lambda>(ns1, rest). (ns1, [], rest)) (take_next [] a ts ns)"
| "consume_option os (s, Option (Some a) name (Some (eq, e))) ts ns =
     (case short_flags os a name eq e [] of
        Inl st \<Rightarrow> Inl st
      | Inr (taken, extra, None) \<Rightarrow> map_sum id (\<lambda>ns1. (ns1, extra, ts)) (take_opts taken ns)
      | Inr (taken, extra, Some a2) \<Rightarrow>
          map_sum id (\<lambda>(ns1, rest). (ns1, extra, rest)) (take_next taken a2 ts ns))"
| "consume_option os (s, t) ts ns = Inr (ns, [s], ts)"

lemma map_sum_Inr_E:
  "map_sum f g x = Inr y \<Longrightarrow> (\<And>z. x = Inr z \<Longrightarrow> y = g z \<Longrightarrow> P) \<Longrightarrow> P"
  by (cases x) auto

lemma length_take_next:
  "take_next taken a ts ns = Inr (ns1, rest) \<Longrightarrow> length rest \<le> length ts"
  by (auto simp: take_next_def map_sum.simps split: if_splits list.splits prod.splits token.splits
      elim!: map_sum_Inr_E)

section \<open>Positionals\<close>

definition is_dashes :: "string \<times> 'f token \<Rightarrow> bool" where
  "is_dashes p \<longleftrightarrow> snd p = Dashes"

definition is_option :: "string \<times> 'f token \<Rightarrow> bool" where
  "is_option p = (case snd p of Option _ _ _ \<Rightarrow> True | _ \<Rightarrow> False)"

text \<open>
  As many positionals as match: each takes separators, one plain argument and the separators
  after it. The value is without the first \<open>--\<close>, and an empty list when nothing is left.
\<close>

definition slot_value :: "string list \<Rightarrow> 'f arg_value" where
  "slot_value vs = (case remove1 ''--'' vs of [v] \<Rightarrow> TextV v | vs1 \<Rightarrow> ListV vs1)"

fun take_slots :: "string list \<Rightarrow> (string \<times> 'f token) list \<Rightarrow> 'f namespace \<Rightarrow>
    'f namespace \<times> string list \<times> (string \<times> 'f token) list" where
  "take_slots [] ts ns = (ns, [], ts)"
| "take_slots (d # ds) ts ns =
     (case dropWhile is_dashes ts of
        (s, Plain) # r \<Rightarrow>
          take_slots ds (dropWhile is_dashes r)
            (dict_set d (slot_value (map fst (takeWhile is_dashes ts) @ s #
               map fst (takeWhile is_dashes r))) ns)
      | _ \<Rightarrow> (ns, d # ds, ts))"

lemma length_take_slots: "length (snd (snd (take_slots ds ts ns))) \<le> length ts"
proof (induction ds ts ns rule: take_slots.induct)
  case (2 d ds ts ns)
  have "length (dropWhile is_dashes r) \<le> length ts" if "dropWhile is_dashes ts = p # r" for p r
    using length_dropWhile_le [of is_dashes r] length_dropWhile_le [of is_dashes ts] that by simp
  with 2 show ?case by (fastforce split: list.split prod.split token.split)
qed simp

section \<open>Parsing\<close>

text \<open>What a parser's positionals are still to receive; \<open>SubSlot\<close> is the subcommand\<close>

datatype slots = Dests "string list" | SubSlot

record 'f scanned =
  sc_ns :: "'f namespace"
  sc_slots :: slots
  sc_extras :: "string list"
  sc_sub :: "string list option"

text \<open>
  Positionals before the next option; the subcommand takes every argument from its name on,
  options and separators included.
\<close>

definition take_positionals :: "(string \<times> 'f token) list \<Rightarrow> 'f scanned \<Rightarrow>
    'f scanned \<times> (string \<times> 'f token) list" where
  "take_positionals ts sc =
     (case sc_slots sc of
        Dests ds \<Rightarrow>
          (case take_slots ds ts (sc_ns sc) of
             (ns, ds1, rest) \<Rightarrow> (sc\<lparr>sc_ns := ns, sc_slots := Dests ds1\<rparr>, rest))
      | SubSlot \<Rightarrow>
          (case dropWhile is_dashes ts of
             (s, Plain) # _ \<Rightarrow> (sc\<lparr>sc_slots := Dests [], sc_sub := Some (map fst ts)\<rparr>, [])
           | _ \<Rightarrow> (sc, ts)))"

lemma length_take_positionals: "length (snd (take_positionals ts sc)) \<le> length ts"
proof (cases "sc_slots sc")
  case (Dests ds)
  with length_take_slots [of ds ts "sc_ns sc"] show ?thesis
    by (auto simp: take_positionals_def split: prod.split)
next
  case SubSlot
  then show ?thesis by (auto simp: take_positionals_def split: list.split token.split)
qed

lemma length_consume_option:
  "consume_option os p ts ns = Inr (ns1, extra, rest) \<Longrightarrow> length rest \<le> length ts"
  by (induction os p ts ns rule: consume_option.induct)
    (auto split: sum.splits option.splits prod.splits elim!: map_sum_Inr_E dest: length_take_next)

text \<open>The alternation of positionals and options in \<open>_parse_known_args\<close>\<close>

function scan :: "'f opt list \<Rightarrow> (string \<times> 'f token) list \<Rightarrow> 'f scanned \<Rightarrow> stop + 'f scanned" where
  "scan os ts sc =
     (if \<not> list_ex is_option ts then
        (case take_positionals ts sc of
           (sc1, rest) \<Rightarrow> Inr (sc1\<lparr>sc_extras := sc_extras sc1 @ map fst rest\<rparr>))
      else case ts of [] \<Rightarrow> Inr sc
      | p # ts1 \<Rightarrow>
          if is_option p then
            (case consume_option os p ts1 (sc_ns sc) of
               Inl st \<Rightarrow> Inl st
             | Inr (ns, extra, rest) \<Rightarrow>
                 scan os rest (sc\<lparr>sc_ns := ns, sc_extras := sc_extras sc @ extra\<rparr>))
          else
            (case take_positionals ts sc of
               (sc1, rest) \<Rightarrow>
                 if length rest < length ts then scan os rest sc1
                 else scan os (dropWhile (Not \<circ> is_option) ts)
                   (sc1\<lparr>sc_extras := sc_extras sc1 @ map fst (takeWhile (Not \<circ> is_option) ts)\<rparr>)))"
  by pat_completeness auto
termination
  by (relation "measure (\<lambda>(os, ts, sc). length ts)")
    (auto simp: less_Suc_eq_le length_dropWhile_le dest: length_consume_option)

declare scan.simps [simp del]

text \<open>The namespace before parsing: \<open>--help\<close> has no value in it\<close>

definition opt_defaults :: "'f opt list \<Rightarrow> 'f namespace" where
  "opt_defaults os = map (\<lambda>a. (opt_dest a, opt_default a)) (filter (\<lambda>a. opt_kind a \<noteq> Help) os)"

lemma size_sub: "map_of subs name = Some p \<Longrightarrow> size p < size (ParserOf os dest subs sets)"
  by (drule map_of_SomeD, induction subs) auto

text \<open>The attributes of a subcommand's namespace are set on its parent's\<close>

definition merge_ns :: "'f namespace \<Rightarrow> 'f namespace \<Rightarrow> 'f namespace" where
  "merge_ns sub ns = fold (\<lambda>(k, v) d. dict_set k v d) sub ns"

text \<open>
  \<open>parse_known_args\<close>: a missing positional or an unknown subcommand is an error. The attributes
  a subcommand sets are copied into the namespace, and its unknown arguments are passed on.
\<close>

function parse_known :: "'f arg_parser \<Rightarrow> string list \<Rightarrow> stop + ('f namespace \<times> string list)" where
  "parse_known (Parser os ds sets) args =
     (case tokens os args of
        None \<Rightarrow> Inl UsageError
      | Some ts \<Rightarrow>
          (case scan os ts \<lparr>sc_ns = opt_defaults os @ map (\<lambda>d. (d, NoneV)) ds @ sets,
                            sc_slots = Dests ds, sc_extras = [], sc_sub = None\<rparr> of
             Inl st \<Rightarrow> Inl st
           | Inr sc \<Rightarrow> if sc_slots sc = Dests [] then Inr (sc_ns sc, sc_extras sc)
                       else Inl UsageError))"
| "parse_known (ParserOf os dest subs sets) args =
     (case tokens os args of
        None \<Rightarrow> Inl UsageError
      | Some ts \<Rightarrow>
          (case scan os ts \<lparr>sc_ns = opt_defaults os @ [(dest, NoneV)] @ sets,
                            sc_slots = SubSlot, sc_extras = [], sc_sub = None\<rparr> of
             Inl st \<Rightarrow> Inl st
           | Inr sc \<Rightarrow>
               (case sc_sub sc of
                  Some (name # rest) \<Rightarrow>
                    (case map_of subs name of
                       None \<Rightarrow> Inl UsageError
                     | Some p \<Rightarrow>
                         (case parse_known p rest of
                            Inl st \<Rightarrow> Inl st
                          | Inr (ns, extras) \<Rightarrow>
                              Inr (merge_ns ns (dict_set dest (TextV name) (sc_ns sc)),
                                   sc_extras sc @ extras)))
                | _ \<Rightarrow> Inl UsageError)))"
  by pat_completeness auto
termination by (relation "measure (\<lambda>(p, args). size p)") (auto dest: size_sub)

declare parse_known.simps [simp del]

text \<open>\<open>parse_args\<close>\<close>

definition parse_args :: "'f arg_parser \<Rightarrow> string list \<Rightarrow> stop + 'f namespace" where
  "parse_args p args =
     (case parse_known p args of
        Inl st \<Rightarrow> Inl st
      | Inr (ns, extras) \<Rightarrow> if extras = [] then Inr ns else Inl UsageError)"

end
