(* ===== verification/Argparse_Flags.thy ===== *)
theory Argparse_Flags
  imports Argparse
begin

text \<open>
  Which arguments can set a \<open>store_true\<close> flag of an \<open>argparse\<close> parser: an invariant of the scan,
  carried through subcommands.
\<close>

section \<open>What can raise a flag\<close>

text \<open>
  A flag is raised only by an argument that is classified as its option, without a value in the
  same argument; for that the option must have long names only.
\<close>

definition raises :: "string \<Rightarrow> 'f opt \<Rightarrow> bool" where
  "raises k a \<longleftrightarrow> opt_dest a = k \<and> opt_kind a = StoreTrue"

definition up :: "string \<Rightarrow> 'f namespace \<Rightarrow> bool" where
  "up k ns \<longleftrightarrow> (k, BoolV True) \<in> set ns"

definition long_named :: "string \<Rightarrow> 'f opt list \<Rightarrow> bool" where
  "long_named k os \<longleftrightarrow> (\<forall>a \<in> set os. raises k a \<longrightarrow> (\<forall>s \<in> set (opt_strings a). startswith s ''--''))"

lemma set_dict_set: "set (dict_set k v d) \<subseteq> insert (k, v) (set d)"
proof (induction d)
  case (Cons p d)
  then show ?case by (cases p) auto
qed simp

lemma up_dict_set: "up k (dict_set k1 v ns) \<Longrightarrow> up k ns \<or> (k1 = k \<and> v = BoolV True)"
  unfolding up_def using set_dict_set [of k1 v ns] by auto

lemma up_take_opt: "take_opt a vs ns = Inr ns1 \<Longrightarrow> up k ns1 \<Longrightarrow> up k ns \<or> raises k a"
  by (auto simp: take_opt_def raises_def split: opt_kind.splits option.splits dest!: up_dict_set)

lemma up_take_opts: "take_opts as ns = Inr ns1 \<Longrightarrow> up k ns1 \<Longrightarrow> up k ns \<or> (\<exists>(a, vs) \<in> set as. raises k a)"
  by (induction as ns rule: take_opts.induct) (auto split: sum.splits dest: up_take_opt)

lemma up_take_next:
  "take_next taken a ts ns = Inr (ns1, rest) \<Longrightarrow> up k ns1 \<Longrightarrow>
   up k ns \<or> raises k a \<or> (\<exists>(b, vs) \<in> set taken. raises k b)"
  by (auto simp: take_next_def split: if_splits list.splits prod.splits token.splits
      elim!: map_sum_Inr_E dest!: up_take_opts [where k = k])

lemma raises_no_value: "raises k a \<Longrightarrow> \<not> takes_value a"
  by (simp add: raises_def takes_value_def)

lemma short_flags_raise:
  assumes "long_named k os" and "raises k a \<longrightarrow> startswith name ''--''"
    and "\<forall>(b, vs) \<in> set taken. \<not> raises k b"
    and "short_flags os a name eq e taken = Inr (taken1, extra, pend)"
  shows "(\<forall>(b, vs) \<in> set taken1. \<not> raises k b) \<and> (\<forall>b. pend = Some b \<longrightarrow> \<not> raises k b)"
  using assms
proof (induction os a name eq e taken rule: short_flags.induct)
  case (1 os a name eq e taken)
  note run = "1.prems"(4) [unfolded short_flags.simps [of os a name eq e taken]]
  show ?case
  proof (cases "takes_value a")
    case True
    with run "1.prems"(3) show ?thesis by (auto dest: raises_no_value)
  next
    case False
    with run have short: "\<not> startswith name ''--''" "e \<noteq> []" "\<not> eq" "hd e \<noteq> minus_sign"
      by (simp_all split: if_splits)
    with "1.prems"(2) have a: "\<not> raises k a" by simp
    with "1.prems"(3) have taken: "\<forall>(b, vs) \<in> set (taken @ [(a, [])]). \<not> raises k b" by auto
    show ?thesis
    proof (cases "find_opt os [minus_sign, hd e]")
      case None
      with run False short taken show ?thesis by simp
    next
      case (Some a2)
      from find_opt_Some [OF Some] "1.prems"(1) short(4) have a2: "\<not> raises k a2"
        by (fastforce simp: long_named_def)
      show ?thesis
      proof (cases "tl e")
        case Nil
        with run False short taken a2 Some show ?thesis by auto
      next
        case (Cons c r)
        show ?thesis
        proof (cases "c = equals_sign")
          case True
          with run False short Some Cons have "short_flags os a2 [minus_sign, hd e] True r
              (taken @ [(a, [])]) = Inr (taken1, extra, pend)" by simp
          with "1.IH"(1) [OF False _ _ Some Cons True "1.prems"(1) _ taken] short a2 show ?thesis by simp
        next
          case no: False
          with run False short Some Cons have "short_flags os a2 [minus_sign, hd e] False (tl e)
              (taken @ [(a, [])]) = Inr (taken1, extra, pend)" by simp
          with "1.IH"(2) [OF False _ _ Some Cons no "1.prems"(1) _ taken] short a2 show ?thesis by simp
        qed
      qed
    qed
  qed
qed

text \<open>The arguments that may raise the flag\<close>

definition raising :: "string \<Rightarrow> string \<times> 'f token \<Rightarrow> bool" where
  "raising k p \<longleftrightarrow> (\<exists>a n. snd p = Option (Some a) n None \<and> raises k a)"

definition named :: "string \<times> 'f token \<Rightarrow> bool" where
  "named p \<longleftrightarrow> (case snd p of Option (Some a) n _ \<Rightarrow> n \<in> set (opt_strings a) | _ \<Rightarrow> True)"

definition owned :: "'f opt list \<Rightarrow> string \<times> 'f token \<Rightarrow> bool" where
  "owned os p \<longleftrightarrow> (case snd p of Option (Some a) _ _ \<Rightarrow> a \<in> set os | _ \<Rightarrow> True)"

lemma up_consume_option:
  assumes "long_named k os" and "named p" and "owned os p"
    and "consume_option os p ts ns = Inr (ns1, extra, rest)" and "up k ns1"
  shows "up k ns \<or> raising k p"
  using assms
proof (induction os p ts ns rule: consume_option.induct)
  case (1 os s a name ts ns)
  then show ?case
    by (auto simp: raising_def elim!: map_sum_Inr_E dest: up_take_next [where k = k])
next
  case (2 os s a name eq e ts ns)
  then obtain taken ex pend where s: "short_flags os a name eq e [] = Inr (taken, ex, pend)"
    by (auto split: sum.splits)
  have "raises k a \<longrightarrow> startswith name ''--''"
    using 2(1-3) by (auto simp: long_named_def named_def owned_def)
  from short_flags_raise [OF 2(1) this _ s] have q: "\<forall>(b, vs) \<in> set taken. \<not> raises k b"
    "\<forall>b. pend = Some b \<longrightarrow> \<not> raises k b" by auto
  show ?case
  proof (cases pend)
    case None
    with 2(4,5) s q show ?thesis by (auto elim!: map_sum_Inr_E dest: up_take_opts [where k = k])
  next
    case (Some b)
    with 2(4,5) s q show ?thesis by (auto elim!: map_sum_Inr_E dest: up_take_next [where k = k])
  qed
qed simp_all

lemma up_take_slots: "take_slots ds ts ns = (ns1, ds1, rest) \<Longrightarrow> up k ns1 \<Longrightarrow> up k ns"
proof (induction ds ts ns rule: take_slots.induct)
  case (2 d ds ts ns)
  have v: "slot_value vs \<noteq> BoolV True" for vs by (simp add: slot_value_def split: list.split)
  from "2.prems" "2.IH" [OF _ refl refl] show ?case
    by (fastforce split: list.splits prod.splits token.splits dest: up_dict_set simp: v)
qed simp

lemma up_take_positionals: "take_positionals ts sc = (sc1, rest) \<Longrightarrow> up k (sc_ns sc1) \<Longrightarrow> up k (sc_ns sc)"
  by (auto simp: take_positionals_def split: slots.splits prod.splits list.splits token.splits
      dest: up_take_slots)

lemma rest_take_opt:
  "take_next taken a ts ns = Inr (ns1, rest) \<Longrightarrow> set rest \<subseteq> set ts"
  by (auto simp: take_next_def split: if_splits list.splits prod.splits token.splits
      elim!: map_sum_Inr_E)

lemma rest_consume_option:
  "consume_option os p ts ns = Inr (ns1, extra, rest) \<Longrightarrow> set rest \<subseteq> set ts"
  by (induction os p ts ns rule: consume_option.induct)
    (auto split: sum.splits option.splits prod.splits elim!: map_sum_Inr_E dest: rest_take_opt)

lemma rest_take_slots: "take_slots ds ts ns = (ns1, ds1, rest) \<Longrightarrow> set rest \<subseteq> set ts"
proof (induction ds ts ns rule: take_slots.induct)
  case (2 d ds ts ns)
  have drop: "set (dropWhile is_dashes xs) \<subseteq> set xs" for xs :: "(string \<times> 'f token) list"
    by (auto dest: set_dropWhileD)
  show ?case
  proof (cases "dropWhile is_dashes ts")
    case (Cons p r)
    have "set (dropWhile is_dashes r) \<subseteq> set ts" using drop [of r] drop [of ts] Cons by auto
    with "2.prems" "2.IH" [OF Cons surjective_pairing [symmetric]] Cons show ?thesis
      by (cases p; cases "snd p") auto
  next
    case Nil
    from "2.prems" have "rest = ts" by (simp only: take_slots.simps Nil list.case prod.inject)
    then show ?thesis by simp
  qed
qed simp

lemma rest_take_positionals: "take_positionals ts sc = (sc1, rest) \<Longrightarrow> set rest \<subseteq> set ts"
  by (auto simp: take_positionals_def split: slots.splits prod.splits list.splits token.splits
      dest: rest_take_slots)

lemma sub_take_positionals:
  "take_positionals ts sc = (sc1, rest) \<Longrightarrow> sc_sub sc1 = Some ss \<Longrightarrow>
   sc_sub sc = Some ss \<or> set ss \<subseteq> fst ` set ts"
  by (auto simp: take_positionals_def split: slots.splits prod.splits list.splits token.splits)

text \<open>After the loop a flag is up only if it was, or an argument raised it\<close>

definition scan_fits :: "string \<Rightarrow> (string \<times> 'f token) list \<Rightarrow> 'f scanned \<Rightarrow> 'f scanned \<Rightarrow> bool" where
  "scan_fits k ts sc sc1 \<longleftrightarrow>
     (up k (sc_ns sc1) \<longrightarrow> up k (sc_ns sc) \<or> (\<exists>p \<in> set ts. raising k p)) \<and>
     (\<forall>ss. sc_sub sc1 = Some ss \<longrightarrow> sc_sub sc = Some ss \<or> set ss \<subseteq> fst ` set ts)"

lemma scan_fits_after:
  assumes "scan_fits k rest sc2 sc1" and "set rest \<subseteq> set ts" and "scan_fits k ts sc sc2"
  shows "scan_fits k ts sc sc1"
proof -
  have "fst ` set rest \<subseteq> fst ` set ts" using assms(2) by (rule image_mono)
  with assms show ?thesis unfolding scan_fits_def by blast
qed

lemma take_positionals_fits: "take_positionals ts sc = (sc1, rest) \<Longrightarrow> scan_fits k ts sc sc1"
  unfolding scan_fits_def by (blast dest: up_take_positionals sub_take_positionals)

lemma scan_up:
  assumes "long_named k os" and "\<forall>p \<in> set ts. named p \<and> owned os p"
    and "scan os ts sc = Inr sc1"
  shows "scan_fits k ts sc sc1"
  using assms
proof (induction os ts sc rule: scan.induct)
  case (1 os ts sc)
  note run = "1.prems"(3) [unfolded scan.simps [of os ts sc]]
  have mono: "\<forall>p \<in> set rest. named p \<and> owned os p" if "set rest \<subseteq> set ts" for rest
    using "1.prems"(2) that by blast
  show ?case
  proof (cases "list_ex is_option ts")
    case False
    obtain sc2 rest where "take_positionals ts sc = (sc2, rest)" by fastforce
    with run False take_positionals_fits [OF this, of k] show ?thesis by (auto simp: scan_fits_def)
  next
    case True
    then obtain p ts1 where ts: "ts = p # ts1" by (cases ts) auto
    show ?thesis
    proof (cases "is_option p")
      case opt: True
      with run True ts obtain ns extra rest where c: "consume_option os p ts1 (sc_ns sc) = Inr (ns, extra, rest)"
        and rec: "scan os rest (sc\<lparr>sc_ns := ns, sc_extras := sc_extras sc @ extra\<rparr>) = Inr sc1"
        by (auto split: sum.splits)
      have sub: "set rest \<subseteq> set ts" using rest_consume_option [OF c] ts by auto
      have start: "scan_fits k ts sc (sc\<lparr>sc_ns := ns, sc_extras := sc_extras sc @ extra\<rparr>)"
        using up_consume_option [OF "1.prems"(1) _ _ c] "1.prems"(2) ts by (auto simp: scan_fits_def)
      show ?thesis
        using "1.IH"(1) [OF _ ts opt c refl refl "1.prems"(1) mono [OF sub] rec] True
        by (intro scan_fits_after [OF _ sub start]) simp
    next
      case noopt: False
      obtain sc2 rest where t: "take_positionals ts sc = (sc2, rest)" by fastforce
      show ?thesis
      proof (cases "length rest < length ts")
        case less: True
        with run True ts noopt t have rec: "scan os rest sc2 = Inr sc1" by simp
        note sub = rest_take_positionals [OF t]
        show ?thesis
          using "1.IH"(2) [OF _ ts noopt t [symmetric] less "1.prems"(1) mono [OF sub] rec] True
          by (intro scan_fits_after [OF _ sub take_positionals_fits [OF t]]) simp
      next
        case notless: False
        let ?ts = "dropWhile (Not \<circ> is_option) ts"
        let ?sc = "sc2\<lparr>sc_extras := sc_extras sc2 @ map fst (takeWhile (Not \<circ> is_option) ts)\<rparr>"
        have sub: "set ?ts \<subseteq> set ts" by (auto dest: set_dropWhileD)
        from run True ts noopt t notless have rec: "scan os ?ts ?sc = Inr sc1" by simp
        have start: "scan_fits k ts sc ?sc" using take_positionals_fits [OF t, of k] by (simp add: scan_fits_def)
        show ?thesis
          using "1.IH"(3) [OF _ ts noopt t [symmetric] notless "1.prems"(1) mono [OF sub] rec] True
          by (intro scan_fits_after [OF _ sub start]) simp
      qed
    qed
  qed
qed

lemma tokens_facts:
  "tokens os args = Some ts \<Longrightarrow> (s, t) \<in> set ts \<Longrightarrow> s \<in> set args \<and> (is_option (s, t) \<longrightarrow> classify os s = Some t)"
  by (induction args arbitrary: ts) (fastforce simp: is_option_def split: if_splits option.splits)+

lemma opt_matches_single:
  "opt_matches os s = [(a, n, e)] \<Longrightarrow> a \<in> set os \<and> n \<in> set (opt_strings a)"
proof -
  assume "opt_matches os s = [(a, n, e)]"
  then have "(a, n, e) \<in> set (opt_matches os s)" by simp
  then show ?thesis
    by (auto simp: opt_matches_def split_value_def opt_table_def map_filter_def split: if_splits)
qed

lemma classify_named: "classify os s = Some t \<Longrightarrow> named (s, t) \<and> owned os (s, t)"
  by (auto simp: classify_def named_def owned_def split: if_splits option.splits list.splits
      dest: find_opt_Some dest!: opt_matches_single)

lemma tokens_named: "tokens os args = Some ts \<Longrightarrow> \<forall>p \<in> set ts. named p \<and> owned os p"
  by (auto dest!: tokens_facts dest: classify_named simp: is_option_def named_def owned_def
      split: token.splits option.splits)

text \<open>
  A condition on every parser of a tree, and the one for a flag: it has long names, is not up from
  the start, and \<open>names\<close> are the arguments that are classified as it.
\<close>

fun every_parser :: "('f opt list \<Rightarrow> 'f namespace \<Rightarrow> bool) \<Rightarrow> 'f arg_parser \<Rightarrow> bool" where
  "every_parser P (Parser os ds sets) = P os sets"
| "every_parser P (ParserOf os dest subs sets) = (P os sets \<and> list_all (\<lambda>(n, p). every_parser P p) subs)"

definition flag_named :: "string \<Rightarrow> string set \<Rightarrow> 'f opt list \<Rightarrow> 'f namespace \<Rightarrow> bool" where
  "flag_named k names os sets \<longleftrightarrow> long_named k os \<and> \<not> up k (opt_defaults os @ sets) \<and>
     (\<forall>s a n. classify os s = Some (Option (Some a) n None) \<and> raises k a \<longrightarrow> s \<in> names)"

lemma parse_known_ParserE:
  assumes "parse_known (Parser os ds sets) args = Inr (ns, extras)"
  obtains ts sc where "tokens os args = Some ts" "scan os ts
      \<lparr>sc_ns = opt_defaults os @ map (\<lambda>d. (d, NoneV)) ds @ sets, sc_slots = Dests ds,
       sc_extras = [], sc_sub = None\<rparr> = Inr sc" "sc_slots sc = Dests []" "ns = sc_ns sc" "extras = sc_extras sc"
  using assms by (simp add: parse_known.simps split: option.splits sum.splits if_splits)

lemma parse_known_ParserOfE:
  assumes "parse_known (ParserOf os dest subs sets) args = Inr (ns, extras)"
  obtains ts sc name rest p ns1 extras1 where "tokens os args = Some ts" "scan os ts
      \<lparr>sc_ns = opt_defaults os @ [(dest, NoneV)] @ sets, sc_slots = SubSlot, sc_extras = [],
       sc_sub = None\<rparr> = Inr sc" "sc_sub sc = Some (name # rest)" "map_of subs name = Some p"
    "parse_known p rest = Inr (ns1, extras1)"
    "ns = merge_ns ns1 (dict_set dest (TextV name) (sc_ns sc))"
    "extras = sc_extras sc @ extras1"
proof -
  let ?start = "\<lparr>sc_ns = opt_defaults os @ [(dest, NoneV)] @ sets, sc_slots = SubSlot,
    sc_extras = [], sc_sub = None\<rparr>"
  note run = assms [unfolded parse_known.simps]
  then obtain ts where ts: "tokens os args = Some ts" by (cases "tokens os args") auto
  with run obtain sc where sc: "scan os ts ?start = Inr sc" by (cases "scan os ts ?start") auto
  with run ts obtain name rest where sub: "sc_sub sc = Some (name # rest)"
    by (auto split: option.splits list.splits)
  with run ts sc obtain p where p: "map_of subs name = Some p" by (cases "map_of subs name") auto
  with run ts sc sub obtain ns1 extras1 where "parse_known p rest = Inr (ns1, extras1)"
    by (cases "parse_known p rest") auto
  with run ts sc sub p that show thesis by simp
qed

lemma merge_ns_up: "up k (merge_ns as d) \<Longrightarrow> up k d \<or> up k as"
  unfolding merge_ns_def by (induction as arbitrary: d) (auto simp: up_def dest!: up_dict_set [unfolded up_def])

lemma named_token:
  assumes "flag_named k names os sets" and "tokens os args = Some ts" and "p \<in> set ts" and "raising k p"
  shows "\<exists>s \<in> set args. s \<in> names"
proof -
  obtain s t where p: "p = (s, t)" by fastforce
  with assms(4) obtain a n where "t = Option (Some a) n None" "raises k a" by (auto simp: raising_def)
  with tokens_facts [OF assms(2)] assms(1,3) p show ?thesis
    by (force simp: flag_named_def is_option_def)
qed

theorem flag_needs_name:
  assumes "every_parser (flag_named k names) p" and "parse_known p args = Inr (ns, extras)" and "up k ns"
  shows "\<exists>s \<in> set args. s \<in> names"
  using assms
proof (induction p args arbitrary: ns extras rule: parse_known.induct)
  case (1 os ds sets args)
  from "1.prems"(1) have f: "flag_named k names os sets" by simp
  then have l: "long_named k os" and n: "\<not> up k (opt_defaults os @ map (\<lambda>d. (d, NoneV)) ds @ sets)"
    by (auto simp: flag_named_def up_def)
  from "1.prems"(2) show ?case
  proof (cases rule: parse_known_ParserE)
    case (1 ts sc)
    with scan_up [OF l tokens_named [OF 1(1)] 1(2), unfolded scan_fits_def] 1(4) \<open>up k ns\<close> n obtain p where "p \<in> set ts" "raising k p"
      by auto
    then show ?thesis by (rule named_token [OF f 1(1)])
  qed
next
  case (2 os dest subs sets args)
  from "2.prems"(1) have f: "flag_named k names os sets" by simp
  then have l: "long_named k os" and n: "\<not> up k (opt_defaults os @ [(dest, NoneV)] @ sets)"
    by (auto simp: flag_named_def up_def)
  from "2.prems"(2) show ?case
  proof (cases rule: parse_known_ParserOfE)
    case (1 ts sc name rest q ns1 extras1)
    note scan = scan_up [OF l tokens_named [OF 1(1)] 1(2), unfolded scan_fits_def]
    from 1(6) \<open>up k ns\<close> consider "up k ns1" | "up k (sc_ns sc)"
      by (auto dest!: merge_ns_up up_dict_set)
    then show ?thesis
    proof cases
      case sub: 1
      have q: "every_parser (flag_named k names) q"
        using "2.prems"(1) map_of_SomeD [OF 1(4)] by (auto simp: list_all_iff)
      have "set rest \<subseteq> set args" using scan 1(3) tokens_facts [OF 1(1)] by fastforce
      moreover have "\<exists>s \<in> set rest. s \<in> names" using "2.IH" 1 q sub by blast
      ultimately show ?thesis by blast
    next
      case 2
      with scan n obtain p where "p \<in> set ts" "raising k p" by auto
      then show ?thesis by (rule named_token [OF f 1(1)])
    qed
  qed
qed

end
