(* ===== verification/Argparse_Reading.thy ===== *)
theory Argparse_Reading
  imports Argparse
begin

text \<open>
  What \<open>argparse\<close> makes of well-formed arguments: rules that read options with their values,
  numbers, flags, positionals and subcommands from the left.
\<close>

section \<open>Reading well-formed arguments\<close>

text \<open>\<open>reads\<close> is the scan of the arguments themselves; an argument that starts with no dash is plain\<close>

definition reads :: "'f opt list \<Rightarrow> string list \<Rightarrow> 'f scanned \<Rightarrow> stop + 'f scanned" where
  "reads os args sc = (case tokens os args of None \<Rightarrow> Inl UsageError | Some ts \<Rightarrow> scan os ts sc)"

definition dashless :: "string \<Rightarrow> bool" where
  "dashless s \<longleftrightarrow> \<not> startswith s ''-''"

lemma classify_dashless: "dashless s \<Longrightarrow> classify os s = Some Plain \<and> s \<noteq> ''--''"
  by (auto simp: dashless_def classify_def)

text \<open>\<open>named_opt os name a\<close>: \<open>name\<close> is the full name of the option \<open>a\<close>\<close>

definition named_opt :: "'f opt list \<Rightarrow> string \<Rightarrow> 'f opt \<Rightarrow> bool" where
  "named_opt os name a \<longleftrightarrow> startswith name ''-'' \<and> name \<noteq> ''--'' \<and> find_opt os name = Some a"

lemma classify_named_opt: "named_opt os name a \<Longrightarrow> classify os name = Some (Option (Some a) name None) \<and> name \<noteq> ''--''"
  by (simp add: named_opt_def classify_def)

lemma reads_flag:
  assumes "named_opt os name a" and "opt_kind a = StoreTrue"
  shows "reads os (name # args) sc = reads os args (sc\<lparr>sc_ns := dict_set (opt_dest a) (BoolV True) (sc_ns sc)\<rparr>)"
  using classify_named_opt [OF assms(1)] assms(2)
  by (simp add: reads_def scan.simps [of os "_ # _"] is_option_def take_next_def takes_value_def take_opt_def
      split: option.split)

lemma reads_value:
  assumes "named_opt os name a" and "classify os v = Some Plain" and "v \<noteq> ''--''"
    and "takes_value a" and "take_opt a [v] (sc_ns sc) = Inr ns1"
  shows "reads os (name # v # args) sc = reads os args (sc\<lparr>sc_ns := ns1\<rparr>)"
  using classify_named_opt [OF assms(1)] assms(2-)
  by (simp add: reads_def scan.simps [of os "_ # _"] is_option_def take_next_def split: option.split)

lemma tokens_dashless: "list_all dashless vs \<Longrightarrow> tokens os vs = Some (map (\<lambda>v. (v, Plain)) vs)"
  by (induction vs) (simp_all add: classify_dashless)

lemma take_slots_dashless:
  "length ds = length vs \<Longrightarrow> list_all dashless vs \<Longrightarrow> take_slots ds (map (\<lambda>v. (v, Plain)) vs) ns =
     (fold (\<lambda>(d, v) ns. dict_set d (TextV v) ns) (zip ds vs) ns, [], [])"
proof (induction ds vs arbitrary: ns rule: list_induct2)
  case (Cons d ds v vs)
  have "dropWhile is_dashes (map (\<lambda>v. (v, Plain :: 'a token)) vs) = map (\<lambda>v. (v, Plain)) vs"
    "takeWhile is_dashes (map (\<lambda>v. (v, Plain :: 'a token)) vs) = []"
    by (cases vs; simp add: is_dashes_def)+
  with Cons show ?case
    by (auto simp: is_dashes_def slot_value_def dashless_def)
qed simp

lemma reads_positionals:
  assumes "length ds = length vs" and "list_all dashless vs" and "sc_slots sc = Dests ds"
  shows "reads os vs sc = Inr (sc\<lparr>sc_slots := Dests [],
    sc_ns := fold (\<lambda>(d, v) ns. dict_set d (TextV v) ns) (zip ds vs) (sc_ns sc)\<rparr>)"
proof -
  have "\<not> list_ex is_option (map (\<lambda>v. (v, Plain :: 'a token)) vs)"
    by (simp add: list_ex_iff is_option_def)
  with assms show ?thesis
    by (simp add: reads_def tokens_dashless scan.simps take_positionals_def take_slots_dashless)
qed

lemma reads_subcommand:
  assumes "dashless name" and "sc_slots sc = SubSlot" and "tokens os args \<noteq> None"
  shows "reads os (name # args) sc = Inr (sc\<lparr>sc_slots := Dests [], sc_sub := Some (name # args)\<rparr>)"
proof -
  obtain ts where ts: "tokens os args = Some ts" using assms(3) by blast
  have args: "map fst ts = args" using ts
    by (induction args arbitrary: ts) (auto split: if_splits option.splits simp: comp_def)
  from assms ts args show ?thesis
    by (simp add: reads_def classify_dashless scan.simps take_positionals_def is_dashes_def is_option_def)
qed

lemma parse_known_Parser:
  "parse_known (Parser os ds sets) args =
     (case reads os args \<lparr>sc_ns = opt_defaults os @ map (\<lambda>d. (d, NoneV)) ds @ sets,
        sc_slots = Dests ds, sc_extras = [], sc_sub = None\<rparr> of
        Inl st \<Rightarrow> Inl st
      | Inr sc \<Rightarrow> if sc_slots sc = Dests [] then Inr (sc_ns sc, sc_extras sc) else Inl UsageError)"
  by (simp add: parse_known.simps reads_def split: option.split)

lemma parse_known_subcommand:
  assumes "dashless name" and "tokens os args \<noteq> None" and "map_of subs name \<noteq> None"
  shows "parse_known (ParserOf os dest subs sets) (name # args) =
    (case parse_known (the (map_of subs name)) args of
       Inl st \<Rightarrow> Inl st
     | Inr (ns, extras) \<Rightarrow> Inr (merge_ns ns
         (dict_set dest (TextV name) (opt_defaults os @ [(dest, NoneV)] @ sets)), extras))"
proof -
  let ?sc = "\<lparr>sc_ns = opt_defaults os @ [(dest, NoneV)] @ sets, sc_slots = SubSlot, sc_extras = [],
    sc_sub = None\<rparr>"
  obtain ts where ts: "tokens os (name # args) = Some ts"
    using assms(1,2) by (auto simp: classify_dashless)
  with reads_subcommand [OF assms(1) _ assms(2), of ?sc]
  have "scan os ts ?sc = Inr (?sc\<lparr>sc_slots := Dests [], sc_sub := Some (name # args)\<rparr>)"
    by (simp add: reads_def)
  with ts assms(3) show ?thesis by (auto simp: parse_known.simps split: sum.split prod.split)
qed

text \<open>Arguments that are printed from a value, when there is one\<close>

definition value_arg :: "string \<Rightarrow> string option \<Rightarrow> string list" where
  "value_arg name x = (case x of None \<Rightarrow> [] | Some v \<Rightarrow> [name, v])"

definition flag_arg :: "string \<Rightarrow> bool \<Rightarrow> string list" where
  "flag_arg name b = (if b then [name] else [])"

definition set_text :: "string \<Rightarrow> string option \<Rightarrow> 'f namespace \<Rightarrow> 'f namespace" where
  "set_text d x ns = (case x of None \<Rightarrow> ns | Some v \<Rightarrow> dict_set d (TextV v) ns)"

definition set_flag :: "string \<Rightarrow> bool \<Rightarrow> 'f namespace \<Rightarrow> 'f namespace" where
  "set_flag d b ns = (if b then dict_set d (BoolV True) ns else ns)"

definition add_texts :: "string \<Rightarrow> string list \<Rightarrow> 'f namespace \<Rightarrow> 'f namespace" where
  "add_texts d vs ns = (if vs = [] then ns
     else dict_set d (ListV ((case dict_get ns d of Some (ListV xs) \<Rightarrow> xs | _ \<Rightarrow> []) @ vs)) ns)"

lemma reads_value_arg:
  assumes "named_opt os name a" and "opt_kind a = Store" and "\<forall>v. x = Some v \<longrightarrow> dashless v"
  shows "reads os (value_arg name x @ args) sc = reads os args (sc\<lparr>sc_ns := set_text (opt_dest a) x (sc_ns sc)\<rparr>)"
proof (cases x)
  case (Some v)
  with assms(3) have "classify os v = Some Plain" "v \<noteq> ''--''" by (simp_all add: classify_dashless)
  from reads_value [OF assms(1) this] Some assms(2) show ?thesis
    by (simp add: value_arg_def set_text_def takes_value_def take_opt_def)
qed (simp add: value_arg_def set_text_def)

lemma reads_flag_arg:
  assumes "named_opt os name a" and "opt_kind a = StoreTrue"
  shows "reads os (flag_arg name b @ args) sc = reads os args (sc\<lparr>sc_ns := set_flag (opt_dest a) b (sc_ns sc)\<rparr>)"
  using reads_flag [OF assms] by (simp add: flag_arg_def set_flag_def)

lemma dict_set_twice [simp]: "dict_set k v (dict_set k u d) = dict_set k v d"
proof (induction d)
  case (Cons p d)
  then show ?case by (cases p) simp
qed simp

lemma reads_value_args:
  assumes "named_opt os name a" and "opt_kind a = Append" and "list_all dashless vs"
  shows "reads os (concat (map (\<lambda>v. [name, v]) vs) @ args) sc =
    reads os args (sc\<lparr>sc_ns := add_texts (opt_dest a) vs (sc_ns sc)\<rparr>)"
  using assms(3)
proof (induction vs arbitrary: sc)
  case (Cons v vs)
  then have "classify os v = Some Plain" "v \<noteq> ''--''" by (simp_all add: classify_dashless)
  from reads_value [OF assms(1) this] Cons assms(2) show ?case
    by (simp add: takes_value_def take_opt_def add_texts_def)
qed (simp add: add_texts_def)

text \<open>Numbers as arguments\<close>

lemma digit_facts: "is_digit c \<Longrightarrow> c \<noteq> CHR ''_'' \<and> c \<noteq> minus_sign \<and> c \<noteq> CHR ''+'' \<and> c \<noteq> equals_sign \<and> \<not> is_space c"
  by (auto simp: is_digit_def digit_chars_def is_space_def)

lemma underscored_digits: "isdigit s \<Longrightarrow> underscored s"
  by (induction s rule: underscored.induct) (auto simp: isdigit_def dest: digit_facts)

lemma strip_solid: "s \<noteq> [] \<Longrightarrow> \<not> is_space (hd s) \<Longrightarrow> \<not> is_space (last s) \<Longrightarrow> strip s = s"
proof -
  assume s: "s \<noteq> []" "\<not> is_space (hd s)" "\<not> is_space (last s)"
  then have "lstrip_ws s = s" by (cases s) (simp_all add: lstrip_ws_def)
  moreover from s have "dropWhile is_space (rev s) = rev s" by (cases "rev s") (auto simp: last_rev hd_rev [symmetric] dest: arg_cong [where f = rev])
  ultimately show ?thesis by (simp add: strip_def rstrip_ws_def)
qed

lemma py_int_show_int:
  assumes "length (show_int i) \<le> 4300"
  shows "py_int (show_int i) = Some i"
proof -
  have filter: "filter (\<lambda>c. c \<noteq> CHR ''_'') s = s" if "isdigit s" for s
    using that by (auto simp: isdigit_def list_all_iff dest: digit_facts intro: filter_True)
  have ends: "s \<noteq> []" "is_digit (hd s)" "is_digit (last s)" if "isdigit s" for s
    using that by (auto simp: isdigit_def list_all_iff)
  show ?thesis
  proof (cases "i < 0")
    case True
    let ?s = "show_nat (nat (- i))"
    note d = isdigit_show_nat [of "nat (- i)"]
    have "strip (show_int i) = minus_sign # ?s"
      using True ends [OF d] digit_facts by (auto simp: show_int_def intro!: strip_solid) (simp add: is_space_def)
    with True assms d show ?thesis
      by (simp add: py_int_def filter [OF d] underscored_digits int_of_digits_show_nat show_int_def)
  next
    case False
    let ?s = "show_nat (nat i)"
    note d = isdigit_show_nat [of "nat i"]
    have s: "strip (show_int i) = ?s"
      using False ends [OF d] digit_facts by (auto simp: show_int_def intro!: strip_solid)
    obtain c r where cr: "?s = c # r" "is_digit c" using ends [OF d] by (cases ?s) auto
    with filter [OF d] digit_facts [OF cr(2)] have "filter (\<lambda>c. c \<noteq> CHR ''_'') r = r" by simp
    with cr digit_facts [OF cr(2)] s False assms d int_of_digits_show_nat [of "nat i"]
      underscored_digits [OF d] show ?thesis
      by (simp add: py_int_def show_int_def)
  qed
qed

text \<open>Option names that are no numbers: long ones, and \<open>-h\<close>\<close>

definition names_ok :: "'f opt list \<Rightarrow> bool" where
  "names_ok os \<longleftrightarrow> list_all (\<lambda>a. list_all (\<lambda>n. startswith n ''--'' \<or> n = ''-h'') (opt_strings a)) os"

lemma classify_int:
  assumes "names_ok os"
  shows "classify os (show_int i) = Some Plain \<and> show_int i \<noteq> ''--''"
proof (cases "i < 0")
  case True
  let ?s = "show_nat (nat (- i))"
  have d: "isdigit ?s" by (rule isdigit_show_nat)
  then obtain c r where s: "show_int i = minus_sign # c # r" and c: "is_digit c" and cr: "?s = c # r"
    using True by (cases ?s) (auto simp: isdigit_def show_int_def)
  from digit_facts [OF c] c have c2: "c \<noteq> minus_sign" "c \<noteq> CHR ''h''" by (auto simp: is_digit_def digit_chars_def)
  have no_opt: "\<not> startswith n (show_int i) \<and> n \<noteq> take 2 (show_int i) \<and> n \<noteq> show_int i"
    if "(n, a) \<in> set (opt_table os)" for n a
  proof -
    from that assms have "startswith n ''--'' \<or> n = ''-h''"
      by (auto simp: names_ok_def opt_table_def list_all_iff)
    with c2 show ?thesis by (auto simp: s startswith_iff)
  qed
  have "find_opt os (show_int i) = None"
  proof (rule ccontr)
    assume "\<not> ?thesis"
    then obtain a where "find_opt os (show_int i) = Some a" by blast
    from find_opt_Some [OF this] have "(show_int i, a) \<in> set (opt_table os)" by (auto simp: opt_table_def)
    with no_opt show False by blast
  qed
  moreover have "opt_matches os (show_int i) = []"
    using no_opt c2 by (auto simp: opt_matches_def map_filter_def filter_empty_conv s split: if_splits)
  moreover have "equals_sign \<notin> set (show_int i)"
    using d digit_facts by (auto simp: s isdigit_def list_all_iff cr)
  moreover have "looks_negative (show_int i)"
  proof -
    have "is_digit (last (c # r))" using d by (auto simp: isdigit_def list_all_iff cr)
    then have "\<not> endswith (c # r) newline"
      by (auto simp: endswith_def newline_def is_digit_def digit_chars_def startswith_iff hd_rev [symmetric])
    then show ?thesis using d by (auto simp: looks_negative_def s cr split: prod.split)
  qed
  moreover have "length (show_int i) \<noteq> 1" by (simp add: s)
  ultimately show ?thesis using c2 by (auto simp: classify_def s)
next
  case False
  then have "isdigit (show_int i)" by (simp add: show_int_def isdigit_show_nat)
  then have "dashless (show_int i)"
    using digit_facts by (cases "show_int i") (auto simp: isdigit_def dashless_def)
  then show ?thesis by (rule classify_dashless)
qed

lemma reads_int:
  assumes "named_opt os name a" and "opt_kind a = StoreInt" and "names_ok os" and "length (show_int i) \<le> 4300"
  shows "reads os (name # show_int i # args) sc =
    reads os args (sc\<lparr>sc_ns := dict_set (opt_dest a) (IntV i) (sc_ns sc)\<rparr>)"
  using reads_value [OF assms(1) classify_int [OF assms(3), THEN conjunct1]] classify_int [OF assms(3)]
    assms(2) py_int_show_int [OF assms(4)]
  by (simp add: takes_value_def take_opt_def)

section \<open>Attributes\<close>

text \<open>The namespaces that arise have every key once\<close>

definition keys_once :: "'f namespace \<Rightarrow> bool" where
  "keys_once ns \<longleftrightarrow> distinct (map fst ns)"

lemma keys_once_set [simp]:
  "keys_once ns \<Longrightarrow> keys_once (dict_set k v ns)" "keys_once ns \<Longrightarrow> keys_once (set_text k x ns)"
  "keys_once ns \<Longrightarrow> keys_once (set_flag k b ns)" "keys_once ns \<Longrightarrow> keys_once (add_texts k vs ns)"
  by (auto simp: keys_once_def set_text_def set_flag_def add_texts_def distinct_dict_set split: option.split)

lemma map_of_set [simp]:
  "map_of (set_text k x ns) j = (if j = k \<and> x \<noteq> None then map_option TextV x else map_of ns j)"
  "map_of (set_flag k b ns) j = (if j = k \<and> b then Some (BoolV True) else map_of ns j)"
  "map_of (add_texts k vs ns) j = (if j = k \<and> vs \<noteq> [] then
     Some (ListV ((case map_of ns k of Some (ListV xs) \<Rightarrow> xs | _ \<Rightarrow> []) @ vs)) else map_of ns j)"
  by (auto simp: set_text_def set_flag_def add_texts_def split: option.split)

lemma map_of_merge_ns:
  assumes "keys_once ns"
  shows "map_of (merge_ns ns d) = map_of d ++ map_of ns"
proof -
  have "distinct (map fst (rev ns))" using assms by (simp add: keys_once_def rev_map [symmetric])
  then have "map_of (rev ns) k = map_of ns k" for k
    using assms map_of_eq_None_iff [of "rev ns" k] map_of_eq_None_iff [of ns k]
    by (cases "map_of ns k") (auto simp: keys_once_def dest: map_of_SomeD)
  then have "map_of (rev ns) = map_of ns" by blast
  then show ?thesis by (simp add: merge_ns_def map_of_fold_dict_set)
qed

end
