(* ===== verification/Cli.thy ===== *)
theory Cli
  imports Command_Line Argparse "HOL-Library.Monad_Syntax"
begin

text \<open>
  \<open>main\<close> of \<open>cli.py\<close>: the table of commands and options, what the parsed arguments call, and the
  call itself, on a system of hosts, audit databases and DNS records. What a confirmation is on
  the command line, and what can happen without one.
\<close>

section \<open>The table of commands\<close>

datatype handler =
    CmdStatus | CmdValidate | CmdVoteStatus | CmdInspect | CmdPlanUpgrade | CmdRestart
  | CmdBootstrapBuilder | CmdProvision | CmdUpgrade | CmdWatch | CmdDns | CmdAudit

text \<open>The attribute of an option: its name without the dashes before it\<close>

definition dest_of :: "string \<Rightarrow> string" where
  "dest_of name = map (\<lambda>c. if c = CHR ''-'' then CHR ''_'' else c) (drop 2 name)"

definition help_opt :: "handler opt" where
  "help_opt = \<lparr>opt_strings = [''-h'', ''--help''], opt_dest = ''help'', opt_kind = Help, opt_default = NoneV\<rparr>"

definition text_opt :: "string \<Rightarrow> handler opt" where
  "text_opt name = \<lparr>opt_strings = [name], opt_dest = dest_of name, opt_kind = Store, opt_default = NoneV\<rparr>"

definition int_opt :: "string \<Rightarrow> int \<Rightarrow> handler opt" where
  "int_opt name n = \<lparr>opt_strings = [name], opt_dest = dest_of name, opt_kind = StoreInt, opt_default = IntV n\<rparr>"

definition flag :: "string \<Rightarrow> handler opt" where
  "flag name = \<lparr>opt_strings = [name], opt_dest = dest_of name, opt_kind = StoreTrue, opt_default = BoolV False\<rparr>"

definition append_opt :: "string \<Rightarrow> handler opt" where
  "append_opt name = \<lparr>opt_strings = [name], opt_dest = dest_of name, opt_kind = Append, opt_default = NoneV\<rparr>"

text \<open>\<open>sub.add_parser(\<dots>)\<close> with the arguments added to it, and \<open>set_defaults(func=\<dots>)\<close>\<close>

definition command_parser :: "handler opt list \<Rightarrow> string list \<Rightarrow> handler \<Rightarrow> handler arg_parser" where
  "command_parser os ds h = Parser (help_opt # os) ds [(''func'', FuncV h)]"

definition status_parser :: "handler arg_parser" where
  "status_parser = command_parser
     [text_opt ''--config'', flag ''--json'', flag ''--watch'', int_opt ''--interval'' 5] [] CmdStatus"

definition validate_parser :: "handler arg_parser" where
  "validate_parser = command_parser
     [text_opt ''--config'', text_opt ''--policy'', flag ''--json''] [] CmdValidate"

definition vote_status_parser :: "handler arg_parser" where
  "vote_status_parser = command_parser [text_opt ''--config''] [''node''] CmdVoteStatus"

definition inspect_parser :: "handler arg_parser" where
  "inspect_parser = command_parser [text_opt ''--config''] [''node''] CmdInspect"

definition plan_upgrade_parser :: "handler arg_parser" where
  "plan_upgrade_parser = command_parser
     [text_opt ''--config'', text_opt ''--policy''] [''node'', ''version''] CmdPlanUpgrade"

definition restart_parser :: "handler arg_parser" where
  "restart_parser = command_parser
     [flag ''--confirm'', text_opt ''--config'', text_opt ''--policy'', text_opt ''--audit-db'']
     [''node''] CmdRestart"

definition bootstrap_parser :: "handler arg_parser" where
  "bootstrap_parser = command_parser
     [flag ''--confirm'', text_opt ''--config'', text_opt ''--audit-db''] [''builder''] CmdBootstrapBuilder"

definition provision_parser :: "handler arg_parser" where
  "provision_parser = command_parser
     [flag ''--confirm'', append_opt ''--format-device'', int_opt ''--catchup-timeout'' 1800,
      text_opt ''--config'', text_opt ''--policy'', text_opt ''--audit-db'']
     [''node'', ''version''] CmdProvision"

definition upgrade_parser :: "handler arg_parser" where
  "upgrade_parser = command_parser
     [flag ''--confirm'', flag ''--force-build'', text_opt ''--config'', text_opt ''--policy'',
      text_opt ''--audit-db''] [''node'', ''version''] CmdUpgrade"

definition watch_parser :: "handler arg_parser" where
  "watch_parser = command_parser
     [flag ''--once'', int_opt ''--interval'' 30, flag ''--dry-run'', text_opt ''--config'',
      text_opt ''--audit-db''] [] CmdWatch"

text \<open>The options of the parent parser come right after the help\<close>

definition dns_common :: "handler opt list" where
  "dns_common = [help_opt, text_opt ''--config'', text_opt ''--audit-db'']"

definition dns_status_parser :: "handler arg_parser" where
  "dns_status_parser = Parser (dns_common @ [text_opt ''--record'']) [] []"

definition dns_override_parser :: "handler arg_parser" where
  "dns_override_parser = Parser (dns_common @ [text_opt ''--record'', flag ''--confirm'']) [''node''] []"

definition dns_parser :: "handler arg_parser" where
  "dns_parser = ParserOf [help_opt] ''dns_command''
     [(''status'', dns_status_parser), (''eject'', dns_override_parser),
      (''restore'', dns_override_parser)] [(''func'', FuncV CmdDns)]"

definition audit_parser :: "handler arg_parser" where
  "audit_parser = command_parser
     [text_opt ''--node'', int_opt ''--limit'' 20, text_opt ''--audit-db''] [] CmdAudit"

definition solfleet_parser :: "handler arg_parser" where
  "solfleet_parser = ParserOf [help_opt] ''command''
     [(''status'', status_parser), (''validate'', validate_parser),
      (''vote-status'', vote_status_parser), (''inspect'', inspect_parser),
      (''plan-upgrade'', plan_upgrade_parser), (''restart'', restart_parser),
      (''bootstrap-builder'', bootstrap_parser), (''provision'', provision_parser),
      (''upgrade'', upgrade_parser), (''watch'', watch_parser), (''dns'', dns_parser),
      (''audit'', audit_parser)] []"

section \<open>Calls\<close>

text \<open>A command with its arguments; \<open>config\<close>, \<open>policy\<close> and \<open>audit_db\<close> are paths\<close>

record paths =
  path_config :: "string option"
  path_policy :: "string option"
  path_audit :: "string option"

datatype command =
    Status bool bool int
  | Validate bool
  | VoteStatus string
  | Inspect string
  | PlanUpgrade string string
  | Restart string bool
  | Bootstrap string bool
  | Provision string string bool "string list" int
  | Upgrade string string bool bool
  | WatchPools bool int bool
  | DnsPools dns_args
  | ShowAudit "string option" int

type_synonym call = "command \<times> paths"

text \<open>
  The attributes of a namespace. A positional is a text, except after two separators \<open>--\<close>, when
  \<open>argparse\<close> can leave an empty list; what the commands do with that is not modelled.
\<close>

definition get_text :: "handler namespace \<Rightarrow> string \<Rightarrow> string option" where
  "get_text ns k = (case dict_get ns k of Some (TextV s) \<Rightarrow> Some s | _ \<Rightarrow> None)"

definition get_bool :: "handler namespace \<Rightarrow> string \<Rightarrow> bool option" where
  "get_bool ns k = (case dict_get ns k of Some (BoolV b) \<Rightarrow> Some b | _ \<Rightarrow> None)"

definition get_int :: "handler namespace \<Rightarrow> string \<Rightarrow> int option" where
  "get_int ns k = (case dict_get ns k of Some (IntV i) \<Rightarrow> Some i | _ \<Rightarrow> None)"

text \<open>\<open>args.format_device or []\<close>\<close>

definition get_list :: "handler namespace \<Rightarrow> string \<Rightarrow> string list" where
  "get_list ns k = (case dict_get ns k of Some (ListV xs) \<Rightarrow> xs | _ \<Rightarrow> [])"

definition dns_args_of :: "handler namespace \<Rightarrow> dns_args option" where
  "dns_args_of ns =
     (let record = get_text ns ''record''
      in do {
        cmd \<leftarrow> get_text ns ''dns_command'';
        if cmd = ''status'' then Some (DnsStatusArgs record)
        else do {
          node \<leftarrow> get_text ns ''node'';
          confirm \<leftarrow> get_bool ns ''confirm'';
          Some (if cmd = ''eject'' then DnsEjectArgs node record confirm
                else DnsRestoreArgs node record confirm)
        }
      })"

fun command_of :: "handler \<Rightarrow> handler namespace \<Rightarrow> command option" where
  "command_of CmdStatus ns = do {
     json \<leftarrow> get_bool ns ''json''; watch \<leftarrow> get_bool ns ''watch''; interval \<leftarrow> get_int ns ''interval'';
     Some (Status json watch interval) }"
| "command_of CmdValidate ns = do { json \<leftarrow> get_bool ns ''json''; Some (Validate json) }"
| "command_of CmdVoteStatus ns = do { node \<leftarrow> get_text ns ''node''; Some (VoteStatus node) }"
| "command_of CmdInspect ns = do { node \<leftarrow> get_text ns ''node''; Some (Inspect node) }"
| "command_of CmdPlanUpgrade ns = do {
     node \<leftarrow> get_text ns ''node''; version \<leftarrow> get_text ns ''version'';
     Some (PlanUpgrade node version) }"
| "command_of CmdRestart ns = do {
     node \<leftarrow> get_text ns ''node''; confirm \<leftarrow> get_bool ns ''confirm'';
     Some (Restart node confirm) }"
| "command_of CmdBootstrapBuilder ns = do {
     builder \<leftarrow> get_text ns ''builder''; confirm \<leftarrow> get_bool ns ''confirm'';
     Some (Bootstrap builder confirm) }"
| "command_of CmdProvision ns = do {
     node \<leftarrow> get_text ns ''node''; version \<leftarrow> get_text ns ''version'';
     confirm \<leftarrow> get_bool ns ''confirm''; timeout \<leftarrow> get_int ns ''catchup_timeout'';
     Some (Provision node version confirm (get_list ns ''format_device'') timeout) }"
| "command_of CmdUpgrade ns = do {
     node \<leftarrow> get_text ns ''node''; version \<leftarrow> get_text ns ''version'';
     confirm \<leftarrow> get_bool ns ''confirm''; force_build \<leftarrow> get_bool ns ''force_build'';
     Some (Upgrade node version confirm force_build) }"
| "command_of CmdWatch ns = do {
     once \<leftarrow> get_bool ns ''once''; interval \<leftarrow> get_int ns ''interval''; dry_run \<leftarrow> get_bool ns ''dry_run'';
     Some (WatchPools once interval dry_run) }"
| "command_of CmdDns ns = map_option DnsPools (dns_args_of ns)"
| "command_of CmdAudit ns = do {
     limit \<leftarrow> get_int ns ''limit''; Some (ShowAudit (get_text ns ''node'') limit) }"

definition call_of :: "handler namespace \<Rightarrow> call option" where
  "call_of ns =
     (case dict_get ns ''func'' of
        Some (FuncV h) \<Rightarrow> map_option (\<lambda>c. (c, \<lparr>path_config = get_text ns ''config'',
          path_policy = get_text ns ''policy'', path_audit = get_text ns ''audit_db''\<rparr>)) (command_of h ns)
      | _ \<Rightarrow> None)"

text \<open>\<open>parser.parse_args()\<close>: the call, or the exit code\<close>

datatype parsed = Calls call | Exits stop | BadPositional

definition parse_argv :: "string list \<Rightarrow> parsed" where
  "parse_argv argv =
     (case parse_args solfleet_parser argv of
        Inl st \<Rightarrow> Exits st
      | Inr ns \<Rightarrow> (case call_of ns of None \<Rightarrow> BadPositional | Some c \<Rightarrow> Calls c))"

end
