(* ===== verification/Cli_Parsing.thy ===== *)
theory Cli_Parsing
  imports Cli Argparse_Flags Argparse_Reading
begin

text \<open>
  How the command line is read: what confirms, and that every call has a command line that is
  read back as it.
\<close>

section \<open>What confirms\<close>

lemmas opt_defs = help_opt_def text_opt_def int_opt_def flag_def append_opt_def

lemma flag_named_absent:
  assumes "\<forall>a \<in> set os. \<not> raises k a" and "\<not> up k (opt_defaults os @ sets)"
  shows "flag_named k names os sets"
  using assms classify_named by (fastforce simp: flag_named_def long_named_def owned_def)

text \<open>The only abbreviation of \<open>--confirm\<close>: a shorter one could be \<open>--config\<close>\<close>

lemma confirm_prefix:
  assumes "startswith ''--confirm'' s" and "\<not> startswith ''--config'' s"
  shows "s \<in> {''--confirm'', ''--confir''}"
proof -
  obtain t where t: "''--confirm'' = s @ t" using assms(1) by (auto simp: startswith_iff)
  then have "s = take (length s) ''--confirm''" by simp
  moreover have "length s \<le> 9" using arg_cong [OF t, of length] by simp
  then have "length s = 0 \<or> length s = 1 \<or> length s = 2 \<or> length s = 3 \<or> length s = 4 \<or> length s = 5 \<or>
      length s = 6 \<or> length s = 7 \<or> length s = 8 \<or> length s = 9" by presburger
  ultimately show ?thesis using assms(2) by auto
qed

lemma split_value_none: "equals_sign \<notin> set s \<Longrightarrow> split_value s = (s, None)"
proof -
  assume "equals_sign \<notin> set s"
  then have "takeWhile (\<lambda>x. x \<noteq> equals_sign) s = s" by (auto simp: takeWhile_eq_all_conv)
  with \<open>equals_sign \<notin> set s\<close> show ?thesis by (simp add: split_value_def partition_char_def)
qed

lemma long_opt_matches:
  assumes "startswith s ''--''"
  shows "(a, n, None) \<in> set (opt_matches os s) \<longleftrightarrow>
    equals_sign \<notin> set s \<and> (n, a) \<in> set (opt_table os) \<and> startswith n s"
proof (cases "equals_sign \<in> set s")
  case True
  then obtain p e where "split_value s = (p, Some e)" by (simp add: split_value_def)
  with assms True show ?thesis by (auto simp: opt_matches_def)
next
  case False
  with assms show ?thesis by (auto simp: opt_matches_def split_value_none)
qed

lemma classify_confirm:
  assumes "text_opt ''--config'' \<in> set os" and "\<forall>a \<in> set os. raises ''confirm'' a \<longrightarrow> a = flag ''--confirm''"
    and "classify os s = Some (Option (Some a) n None)" and "raises ''confirm'' a"
  shows "s \<in> {''--confirm'', ''--confir''}"
proof -
  from classify_named [OF assms(3)] assms(2,4) have a: "a = flag ''--confirm''" "n = ''--confirm''"
    by (auto simp: named_def owned_def flag_def)
  from assms(3) have "find_opt os s = Some a \<or>
      (startswith s ''-'' \<and> length s \<noteq> 1 \<and> opt_matches os s = [(a, n, None)])"
    by (auto simp: classify_def split_value_def split: if_splits option.splits list.splits)
  then consider "find_opt os s = Some a"
    | "\<not> startswith s ''--''" "startswith s ''-''" "length s \<noteq> 1" "opt_matches os s = [(a, n, None)]"
    | "startswith s ''--''" "opt_matches os s = [(a, n, None)]" by blast
  then show ?thesis
  proof cases
    case 1
    with a show ?thesis by (auto dest!: find_opt_Some simp: flag_def)
  next
    case 2
    then have "(a, n, None) \<in> set (opt_matches os s)" by simp
    with 2(1) a(2) have "startswith ''--confirm'' s"
      by (auto simp: opt_matches_def map_filter_def split: if_splits)
    with 2 confirm_prefix [of s] show ?thesis by (cases s; cases "tl s") (auto split: if_splits)
  next
    case 3
    then have "(a, n, None) \<in> set (opt_matches os s)" by simp
    with a(2) have no: "equals_sign \<notin> set s" and p: "startswith ''--confirm'' s"
      by (simp_all add: long_opt_matches [OF 3(1)])
    have "(''--config'', text_opt ''--config'') \<in> set (opt_table os)"
      using assms(1) by (force simp: opt_table_def text_opt_def)
    then have "(text_opt ''--config'', ''--config'', None) \<in> set (opt_matches os s)"
      if "startswith ''--config'' s"
      using no that by (simp add: long_opt_matches [OF 3(1)])
    with 3 a(2) have "\<not> startswith ''--config'' s" by auto
    with p show ?thesis by (rule confirm_prefix)
  qed
qed

lemma flag_named_confirm:
  assumes "text_opt ''--config'' \<in> set os" and "\<forall>a \<in> set os. raises ''confirm'' a \<longrightarrow> a = flag ''--confirm''"
    and "\<not> up ''confirm'' (opt_defaults os @ sets)"
  shows "flag_named ''confirm'' {''--confirm'', ''--confir''} os sets"
  using assms classify_confirm [OF assms(1,2)]
  by (auto simp: flag_named_def long_named_def flag_def)

lemmas parser_defs = status_parser_def validate_parser_def vote_status_parser_def inspect_parser_def
  plan_upgrade_parser_def restart_parser_def bootstrap_parser_def provision_parser_def
  upgrade_parser_def watch_parser_def dns_status_parser_def dns_override_parser_def dns_common_def
  audit_parser_def command_parser_def

text \<open>A condition on a parser that can be computed, and that every parser of the table satisfies\<close>

definition confirm_check :: "handler opt list \<Rightarrow> handler namespace \<Rightarrow> bool" where
  "confirm_check os sets \<longleftrightarrow> list_all (\<lambda>(k, v). k \<noteq> ''confirm'') sets \<and>
     (list_all (\<lambda>a. opt_dest a \<noteq> ''confirm'') os \<or>
      (list_ex (\<lambda>a. a = text_opt ''--config'') os \<and>
       list_all (\<lambda>a. opt_dest a = ''confirm'' \<longrightarrow> a = flag ''--confirm'') os))"

lemma confirm_check_named:
  "confirm_check os sets \<Longrightarrow> flag_named ''confirm'' {''--confirm'', ''--confir''} os sets"
proof -
  assume c: "confirm_check os sets"
  have "\<not> up ''confirm'' (opt_defaults os @ sets)"
    using c by (auto simp: confirm_check_def list_all_iff up_def opt_defaults_def flag_def)
  with flag_named_absent [OF _ this] flag_named_confirm [OF _ _ this] c show ?thesis
    by (auto simp: confirm_check_def list_all_iff list_ex_iff raises_def)
qed

lemma every_parser_mono: "(\<And>os sets. P os sets \<Longrightarrow> Q os sets) \<Longrightarrow> every_parser P p \<Longrightarrow> every_parser Q p"
  by (induction P p rule: every_parser.induct) (auto simp: list_all_iff)

lemma solfleet_confirm_check: "every_parser confirm_check solfleet_parser"
  by (simp add: solfleet_parser_def dns_parser_def parser_defs confirm_check_def opt_defs dest_of_def)

lemmas solfleet_flag_named = every_parser_mono [OF confirm_check_named solfleet_confirm_check]

text \<open>Which commands the confirmation is for, and whether it is given\<close>

fun confirmed :: "command \<Rightarrow> bool" where
  "confirmed (Restart node c) = c"
| "confirmed (Bootstrap builder c) = c"
| "confirmed (Provision node version c devices timeout) = c"
| "confirmed (Upgrade node version c force_build) = c"
| "confirmed (DnsPools (DnsEjectArgs node record c)) = c"
| "confirmed (DnsPools (DnsRestoreArgs node record c)) = c"
| "confirmed _ = False"

lemma get_bool_up: "get_bool ns k = Some True \<Longrightarrow> up k ns"
  by (auto simp: get_bool_def up_def split: option.splits arg_value.splits dest: map_of_SomeD)

lemma confirmed_up: "command_of h ns = Some c \<Longrightarrow> confirmed c \<Longrightarrow> up ''confirm'' ns"
proof (rule get_bool_up)
  assume c: "command_of h ns = Some c" "confirmed c"
  show "get_bool ns ''confirm'' = Some True"
  proof (cases h)
    case CmdDns
    with c obtain args where "dns_args_of ns = Some args" "c = DnsPools args" by auto
    with c(2) show ?thesis
      by (cases "get_text ns ''dns_command''"; cases "get_text ns ''node''"; cases "get_bool ns ''confirm''")
        (auto simp: dns_args_of_def Let_def split: if_splits)
  qed (use c in \<open>clarsimp simp: bind_eq_Some_conv\<close>)+
qed

lemma parse_argv_Calls:
  "parse_argv argv = Calls c \<Longrightarrow> \<exists>ns. parse_known solfleet_parser argv = Inr (ns, []) \<and> call_of ns = Some c"
  by (auto simp: parse_argv_def parse_args_def split: sum.splits option.splits if_splits prod.splits)

lemma call_of_Some: "call_of ns = Some (c, p) \<Longrightarrow> \<exists>h. command_of h ns = Some c"
  by (auto simp: call_of_def split: option.splits arg_value.splits)

lemma confirmation_named:
  assumes "parse_argv argv = Calls (c, paths)" and "confirmed c"
  shows "''--confirm'' \<in> set argv \<or> ''--confir'' \<in> set argv"
proof -
  from parse_argv_Calls [OF assms(1)] obtain ns where p: "parse_known solfleet_parser argv = Inr (ns, [])"
    and "call_of ns = Some (c, paths)" by blast
  then obtain h where c: "command_of h ns = Some c" using call_of_Some by blast
  from flag_needs_name [OF solfleet_flag_named p confirmed_up [OF c assms(2)]] show ?thesis by auto
qed

text \<open>
  C20. Only the words \<open>--confirm\<close> and \<open>--confir\<close> confirm: whatever abbreviations \<open>argparse\<close> accepts,
  when the command line calls a restart, an upgrade, a provisioning, a bootstrap or a DNS override
  that is confirmed, one of its arguments is one of the two; every shorter one is ambiguous with
  \<open>--config\<close>.
\<close>

theorem confirmation_is_explicit:
  assumes "parse_argv argv = Calls (c, paths)" and "confirmed c"
  shows "''--confirm'' \<in> set argv \<or> ''--confir'' \<in> set argv"
  by (rule confirmation_named [OF assms])

section \<open>Every call has a command line\<close>

text \<open>The words of a command, its own options, and its positionals\<close>

fun words_of :: "command \<Rightarrow> string list" where
  "words_of (Status _ _ _) = [''status'']"
| "words_of (Validate _) = [''validate'']"
| "words_of (VoteStatus _) = [''vote-status'']"
| "words_of (Inspect _) = [''inspect'']"
| "words_of (PlanUpgrade _ _) = [''plan-upgrade'']"
| "words_of (Restart _ _) = [''restart'']"
| "words_of (Bootstrap _ _) = [''bootstrap-builder'']"
| "words_of (Provision _ _ _ _ _) = [''provision'']"
| "words_of (Upgrade _ _ _ _) = [''upgrade'']"
| "words_of (WatchPools _ _ _) = [''watch'']"
| "words_of (DnsPools (DnsStatusArgs _)) = [''dns'', ''status'']"
| "words_of (DnsPools (DnsEjectArgs _ _ _)) = [''dns'', ''eject'']"
| "words_of (DnsPools (DnsRestoreArgs _ _ _)) = [''dns'', ''restore'']"
| "words_of (ShowAudit _ _) = [''audit'']"

fun options_of :: "command \<Rightarrow> string list" where
  "options_of (Status json watch interval) =
     flag_arg ''--json'' json @ flag_arg ''--watch'' watch @ [''--interval'', show_int interval]"
| "options_of (Validate json) = flag_arg ''--json'' json"
| "options_of (Restart node confirm) = flag_arg ''--confirm'' confirm"
| "options_of (Bootstrap builder confirm) = flag_arg ''--confirm'' confirm"
| "options_of (Provision node version confirm devices timeout) =
     flag_arg ''--confirm'' confirm @ concat (map (\<lambda>d. [''--format-device'', d]) devices) @
     [''--catchup-timeout'', show_int timeout]"
| "options_of (Upgrade node version confirm force_build) =
     flag_arg ''--confirm'' confirm @ flag_arg ''--force-build'' force_build"
| "options_of (WatchPools once interval dry_run) =
     flag_arg ''--once'' once @ [''--interval'', show_int interval] @ flag_arg ''--dry-run'' dry_run"
| "options_of (DnsPools (DnsStatusArgs record)) = value_arg ''--record'' record"
| "options_of (DnsPools (DnsEjectArgs node record confirm)) =
     value_arg ''--record'' record @ flag_arg ''--confirm'' confirm"
| "options_of (DnsPools (DnsRestoreArgs node record confirm)) =
     value_arg ''--record'' record @ flag_arg ''--confirm'' confirm"
| "options_of (ShowAudit node limit) = value_arg ''--node'' node @ [''--limit'', show_int limit]"
| "options_of _ = []"

fun operands_of :: "command \<Rightarrow> string list" where
  "operands_of (VoteStatus node) = [node]"
| "operands_of (Inspect node) = [node]"
| "operands_of (PlanUpgrade node version) = [node, version]"
| "operands_of (Restart node confirm) = [node]"
| "operands_of (Bootstrap builder confirm) = [builder]"
| "operands_of (Provision node version confirm devices timeout) = [node, version]"
| "operands_of (Upgrade node version confirm force_build) = [node, version]"
| "operands_of (DnsPools (DnsEjectArgs node record confirm)) = [node]"
| "operands_of (DnsPools (DnsRestoreArgs node record confirm)) = [node]"
| "operands_of _ = []"

definition paths_of :: "paths \<Rightarrow> string list" where
  "paths_of p = value_arg ''--config'' (path_config p) @ value_arg ''--policy'' (path_policy p) @
     value_arg ''--audit-db'' (path_audit p)"

definition argv_of :: "call \<Rightarrow> string list" where
  "argv_of c = words_of (fst c) @ options_of (fst c) @ paths_of (snd c) @ operands_of (fst c)"

text \<open>
  A call that can be written so: its texts start with no dash, its numbers have at most 4300
  characters, and only the paths its command has are given.
\<close>

definition texts_ok :: "string option \<Rightarrow> bool" where
  "texts_ok x \<longleftrightarrow> (case x of None \<Rightarrow> True | Some v \<Rightarrow> dashless v)"

definition int_ok :: "int \<Rightarrow> bool" where
  "int_ok i \<longleftrightarrow> length (show_int i) \<le> 4300"

fun command_ok :: "command \<Rightarrow> bool" where
  "command_ok (Status json watch interval) = int_ok interval"
| "command_ok (Provision node version confirm devices timeout) =
     (dashless node \<and> dashless version \<and> list_all dashless devices \<and> int_ok timeout)"
| "command_ok (WatchPools once interval dry_run) = int_ok interval"
| "command_ok (DnsPools (DnsStatusArgs record)) = texts_ok record"
| "command_ok (DnsPools (DnsEjectArgs node record confirm)) = (dashless node \<and> texts_ok record)"
| "command_ok (DnsPools (DnsRestoreArgs node record confirm)) = (dashless node \<and> texts_ok record)"
| "command_ok (ShowAudit node limit) = (texts_ok node \<and> int_ok limit)"
| "command_ok c = list_all dashless (operands_of c)"

fun has_config :: "command \<Rightarrow> bool" where
  "has_config (ShowAudit _ _) = False"
| "has_config _ = True"

fun has_policy :: "command \<Rightarrow> bool" where
  "has_policy (Validate _) = True"
| "has_policy (PlanUpgrade _ _) = True"
| "has_policy (Restart _ _) = True"
| "has_policy (Provision _ _ _ _ _) = True"
| "has_policy (Upgrade _ _ _ _) = True"
| "has_policy _ = False"

fun has_audit :: "command \<Rightarrow> bool" where
  "has_audit (Status _ _ _) = False"
| "has_audit (Validate _) = False"
| "has_audit (VoteStatus _) = False"
| "has_audit (Inspect _) = False"
| "has_audit (PlanUpgrade _ _) = False"
| "has_audit _ = True"

definition call_ok :: "call \<Rightarrow> bool" where
  "call_ok c \<longleftrightarrow> command_ok (fst c) \<and>
     texts_ok (path_config (snd c)) \<and> texts_ok (path_policy (snd c)) \<and> texts_ok (path_audit (snd c)) \<and>
     (path_config (snd c) \<noteq> None \<longrightarrow> has_config (fst c)) \<and>
     (path_policy (snd c) \<noteq> None \<longrightarrow> has_policy (fst c)) \<and>
     (path_audit (snd c) \<noteq> None \<longrightarrow> has_audit (fst c))"

lemma classify_help_only: "classify [help_opt] s \<noteq> None"
proof (cases "length s = 1 \<or> \<not> startswith s ''-''")
  case True
  then show ?thesis by (auto simp: classify_def split: option.split)
next
  case False
  have table: "opt_table [help_opt] = [(''-h'', help_opt), (''--help'', help_opt)]"
    by (simp add: opt_table_def help_opt_def)
  from False obtain c r where s: "s = CHR ''-'' # c # r" by (cases s; cases "tl s") auto
  have "length (opt_matches [help_opt] s) \<le> 1"
  proof (cases "c = CHR ''-''")
    case True
    then have "\<exists>p. fst (split_value s) = ''--'' @ p" by (simp add: s split_value_def partition_char_def)
    with True show ?thesis by (auto simp: opt_matches_def table s split: prod.split)
  next
    case False
    then show ?thesis by (auto simp: opt_matches_def table s map_filter_def)
  qed
  then obtain x where "opt_matches [help_opt] s = [] \<or> opt_matches [help_opt] s = [x]"
    by (cases "opt_matches [help_opt] s") auto
  then show ?thesis by (cases x) (auto simp: classify_def split: option.split)
qed

lemma tokens_help_only: "tokens [help_opt] args \<noteq> None"
proof (induction args)
  case (Cons s args)
  with classify_help_only [of s] show ?case by auto
qed simp

section \<open>Reading the attributes\<close>

definition has_attr :: "handler namespace \<Rightarrow> string \<Rightarrow> bool" where
  "has_attr ns j \<longleftrightarrow> dict_get ns j \<noteq> None"

named_theorems attr_simps \<open>attributes of a namespace after parsing\<close>

lemma has_attr_simps [attr_simps]:
  "has_attr [] j \<longleftrightarrow> False" "has_attr ((k, v) # ns) j \<longleftrightarrow> j = k \<or> has_attr ns j"
  "has_attr (set_text k x ns) j \<longleftrightarrow> (j = k \<and> x \<noteq> None) \<or> has_attr ns j"
  "has_attr (set_flag k b ns) j \<longleftrightarrow> (j = k \<and> b) \<or> has_attr ns j"
  "has_attr (add_texts k vs ns) j \<longleftrightarrow> (j = k \<and> vs \<noteq> []) \<or> has_attr ns j"
  "has_attr (dict_set k v ns) j \<longleftrightarrow> j = k \<or> has_attr ns j"
  by (auto simp: has_attr_def)

lemma get_text_simps [attr_simps]:
  "get_text [] j = None" "get_text ((k, v) # ns) j = (if j = k then (case v of TextV s \<Rightarrow> Some s | _ \<Rightarrow> None) else get_text ns j)"
  "get_text (set_text k x ns) j = (if j = k \<and> x \<noteq> None then x else get_text ns j)"
  "get_text (set_flag k b ns) j = (if j = k \<and> b then None else get_text ns j)"
  "get_text (add_texts k vs ns) j = (if j = k \<and> vs \<noteq> [] then None else get_text ns j)"
  "get_text (dict_set k v ns) j = (if j = k then (case v of TextV s \<Rightarrow> Some s | _ \<Rightarrow> None) else get_text ns j)"
  by (auto simp: get_text_def split: arg_value.split option.split)

lemma get_bool_simps [attr_simps]:
  "get_bool [] j = None" "get_bool ((k, v) # ns) j = (if j = k then (case v of BoolV b \<Rightarrow> Some b | _ \<Rightarrow> None) else get_bool ns j)"
  "j \<noteq> k \<Longrightarrow> get_bool (set_text k x ns) j = get_bool ns j"
  "get_bool (set_flag k b ns) j = (if j = k \<and> b then Some True else get_bool ns j)"
  "j \<noteq> k \<Longrightarrow> get_bool (add_texts k vs ns) j = get_bool ns j"
  "get_bool (dict_set k v ns) j = (if j = k then (case v of BoolV b \<Rightarrow> Some b | _ \<Rightarrow> None) else get_bool ns j)"
  by (auto simp: get_bool_def split: arg_value.split option.split)

lemma get_int_simps [attr_simps]:
  "get_int [] j = None" "get_int ((k, v) # ns) j = (if j = k then (case v of IntV i \<Rightarrow> Some i | _ \<Rightarrow> None) else get_int ns j)"
  "j \<noteq> k \<Longrightarrow> get_int (set_text k x ns) j = get_int ns j"
  "j \<noteq> k \<Longrightarrow> get_int (set_flag k b ns) j = get_int ns j"
  "j \<noteq> k \<Longrightarrow> get_int (add_texts k vs ns) j = get_int ns j"
  "get_int (dict_set k v ns) j = (if j = k then (case v of IntV i \<Rightarrow> Some i | _ \<Rightarrow> None) else get_int ns j)"
  by (auto simp: get_int_def split: arg_value.split option.split)

lemma get_list_simps [attr_simps]:
  "get_list [] j = []" "get_list ((k, v) # ns) j = (if j = k then (case v of ListV xs \<Rightarrow> xs | _ \<Rightarrow> []) else get_list ns j)"
  "j \<noteq> k \<Longrightarrow> get_list (set_text k x ns) j = get_list ns j"
  "j \<noteq> k \<Longrightarrow> get_list (set_flag k b ns) j = get_list ns j"
  "get_list (add_texts k vs ns) j = (if j = k then get_list ns j @ vs else get_list ns j)"
  "get_list (dict_set k v ns) j = (if j = k then (case v of ListV xs \<Rightarrow> xs | _ \<Rightarrow> []) else get_list ns j)"
  by (auto simp: get_list_def split: arg_value.split option.split)

text \<open>A subcommand's attributes hide those of its parent\<close>

lemma merge_simps [attr_simps]:
  assumes "keys_once ns"
  shows "has_attr (merge_ns ns d) j \<longleftrightarrow> has_attr ns j \<or> has_attr d j"
    "get_text (merge_ns ns d) j = (if has_attr ns j then get_text ns j else get_text d j)"
    "get_bool (merge_ns ns d) j = (if has_attr ns j then get_bool ns j else get_bool d j)"
    "get_int (merge_ns ns d) j = (if has_attr ns j then get_int ns j else get_int d j)"
    "get_list (merge_ns ns d) j = (if has_attr ns j then get_list ns j else get_list d j)"
  by (auto simp: has_attr_def get_text_def get_bool_def get_int_def get_list_def map_of_merge_ns [OF assms]
      map_add_def split: option.split)

text \<open>The function of a command\<close>

definition get_func :: "handler namespace \<Rightarrow> handler option" where
  "get_func ns = (case dict_get ns ''func'' of Some (FuncV h) \<Rightarrow> Some h | _ \<Rightarrow> None)"

lemma get_func_simps [attr_simps]:
  "get_func [] = None" "get_func ((k, v) # ns) = (if k = ''func'' then (case v of FuncV h \<Rightarrow> Some h | _ \<Rightarrow> None) else get_func ns)"
  "k \<noteq> ''func'' \<Longrightarrow> get_func (set_text k x ns) = get_func ns"
  "k \<noteq> ''func'' \<Longrightarrow> get_func (set_flag k b ns) = get_func ns"
  "k \<noteq> ''func'' \<Longrightarrow> get_func (add_texts k vs ns) = get_func ns"
  "k \<noteq> ''func'' \<Longrightarrow> get_func (dict_set k v ns) = get_func ns"
  "keys_once ns \<Longrightarrow> get_func (merge_ns ns d) = (if has_attr ns ''func'' then get_func ns else get_func d)"
  by (auto simp: get_func_def has_attr_def map_of_merge_ns map_add_def split: arg_value.split option.split)

lemma call_of_eq:
  "call_of ns = (case get_func ns of None \<Rightarrow> None
     | Some h \<Rightarrow> map_option (\<lambda>c. (c, \<lparr>path_config = get_text ns ''config'',
         path_policy = get_text ns ''policy'', path_audit = get_text ns ''audit_db''\<rparr>)) (command_of h ns))"
  by (simp add: call_of_def get_func_def split: option.split arg_value.split)

lemma none_or [attr_simps]: "(if x \<noteq> None then x else None) = x" "(if b then Some True else Some False) = Some b"
  "(if b then Some True else Some False) \<bind> f = f b"
  by auto

section \<open>Reading the options of a parser\<close>

text \<open>The rules with the option looked up in the parser\<close>

definition opt_of :: "handler opt list \<Rightarrow> string \<Rightarrow> handler opt" where
  "opt_of os name = the (find_opt os name)"

definition offers :: "handler opt list \<Rightarrow> string \<Rightarrow> opt_kind \<Rightarrow> bool" where
  "offers os name k \<longleftrightarrow> startswith name ''-'' \<and> name \<noteq> ''--'' \<and> find_opt os name \<noteq> None \<and> opt_kind (opt_of os name) = k"

lemma offers_named: "offers os name k \<Longrightarrow> named_opt os name (opt_of os name) \<and> opt_kind (opt_of os name) = k"
  by (auto simp: offers_def named_opt_def opt_of_def)

lemma reads_rules:
  "offers os name Store \<Longrightarrow> texts_ok x \<Longrightarrow> reads os (value_arg name x @ args) sc =
     reads os args (sc\<lparr>sc_ns := set_text (opt_dest (opt_of os name)) x (sc_ns sc)\<rparr>)"
  "offers os name StoreTrue \<Longrightarrow> reads os (flag_arg name b @ args) sc =
     reads os args (sc\<lparr>sc_ns := set_flag (opt_dest (opt_of os name)) b (sc_ns sc)\<rparr>)"
  "offers os name Append \<Longrightarrow> list_all dashless vs \<Longrightarrow> reads os (concat (map (\<lambda>v. [name, v]) vs) @ args) sc =
     reads os args (sc\<lparr>sc_ns := add_texts (opt_dest (opt_of os name)) vs (sc_ns sc)\<rparr>)"
  "offers os name StoreInt \<Longrightarrow> names_ok os \<Longrightarrow> int_ok i \<Longrightarrow> reads os (name # show_int i # args) sc =
     reads os args (sc\<lparr>sc_ns := dict_set (opt_dest (opt_of os name)) (IntV i) (sc_ns sc)\<rparr>)"
  using reads_value_arg [of os name "opt_of os name" x] reads_flag_arg [of os name "opt_of os name" b]
    reads_value_args [of os name "opt_of os name" vs] reads_int [of os name "opt_of os name" i]
  by (auto simp: texts_ok_def int_ok_def dest: offers_named split: option.splits)

lemma opt_fields [simp]:
  "opt_strings (text_opt n) = [n]" "opt_dest (text_opt n) = dest_of n" "opt_kind (text_opt n) = Store"
  "opt_default (text_opt n) = NoneV"
  "opt_strings (flag n) = [n]" "opt_dest (flag n) = dest_of n" "opt_kind (flag n) = StoreTrue"
  "opt_default (flag n) = BoolV False"
  "opt_strings (int_opt n i) = [n]" "opt_dest (int_opt n i) = dest_of n" "opt_kind (int_opt n i) = StoreInt"
  "opt_default (int_opt n i) = IntV i"
  "opt_strings (append_opt n) = [n]" "opt_dest (append_opt n) = dest_of n" "opt_kind (append_opt n) = Append"
  "opt_default (append_opt n) = NoneV"
  "opt_strings help_opt = [''-h'', ''--help'']" "opt_dest help_opt = ''help''" "opt_kind help_opt = Help"
  by (simp_all add: opt_defs)

lemma reads_operands:
  "reads os [] \<lparr>sc_ns = ns, sc_slots = Dests [], sc_extras = ex, sc_sub = sub\<rparr> =
     Inr \<lparr>sc_ns = ns, sc_slots = Dests [], sc_extras = ex, sc_sub = sub\<rparr>"
  "dashless v \<Longrightarrow> reads os [v] \<lparr>sc_ns = ns, sc_slots = Dests [d], sc_extras = ex, sc_sub = sub\<rparr> =
     Inr \<lparr>sc_ns = dict_set d (TextV v) ns, sc_slots = Dests [], sc_extras = ex, sc_sub = sub\<rparr>"
  "dashless v \<Longrightarrow> dashless v' \<Longrightarrow> reads os [v, v'] \<lparr>sc_ns = ns, sc_slots = Dests [d, d'], sc_extras = ex, sc_sub = sub\<rparr> =
     Inr \<lparr>sc_ns = dict_set d' (TextV v') (dict_set d (TextV v) ns), sc_slots = Dests [], sc_extras = ex, sc_sub = sub\<rparr>"
  by (simp_all add: reads_positionals [where ds = "[]"] reads_positionals [where ds = "[d]"]
      reads_positionals [where ds = "[d, d']"])

text \<open>The arguments that were not given do not count\<close>

lemma absent_args: "value_arg name None = []" "texts_ok None"
  by (simp_all add: value_arg_def texts_ok_def)

lemmas leaf_simps = parse_known_Parser opt_defaults_def offers_def opt_of_def find_opt_def names_ok_def
  dest_of_def reads_rules reads_rules [where args = "[]", simplified] reads_operands absent_args

lemmas call_simps = parse_argv_def parse_args_def argv_of_def call_ok_def paths_of_def solfleet_parser_def
  parse_known_subcommand tokens_help_only dashless_def [of "_ # _"] dashless_def [of "[]"]

lemma keys_once_list [simp]: "keys_once [] = True" "keys_once ((k, v) # ns) = (k \<notin> fst ` set ns \<and> keys_once ns)"
  by (auto simp: keys_once_def)

lemma keys_once_merge [simp]: "keys_once d \<Longrightarrow> keys_once (merge_ns ns d)"
  unfolding merge_ns_def by (induction ns arbitrary: d) auto

text \<open>Each command, read from its own line\<close>

definition read_back :: "command \<Rightarrow> paths \<Rightarrow> bool" where
  "read_back c p \<longleftrightarrow> (call_ok (c, p) \<longrightarrow> parse_argv (argv_of (c, p)) = Calls (c, p))"

lemmas read_back_simps = read_back_def call_simps command_parser_def leaf_simps call_of_eq attr_simps

lemma status_read_back: "read_back (Status json watch interval) p"
  by (simp add: read_back_simps status_parser_def)

lemma validate_read_back: "read_back (Validate json) p"
  by (simp add: read_back_simps validate_parser_def)

lemma vote_status_read_back: "read_back (VoteStatus node) p"
  by (simp add: read_back_simps vote_status_parser_def)

lemma inspect_read_back: "read_back (Inspect node) p"
  by (simp add: read_back_simps inspect_parser_def)

lemma plan_upgrade_read_back: "read_back (PlanUpgrade node version) p"
  by (simp add: read_back_simps plan_upgrade_parser_def)

lemma restart_read_back: "read_back (Restart node confirm) p"
  by (simp add: read_back_simps restart_parser_def)

lemma bootstrap_read_back: "read_back (Bootstrap builder confirm) p"
  by (simp add: read_back_simps bootstrap_parser_def)

lemma provision_read_back: "read_back (Provision node version confirm devices timeout) p"
  by (simp add: read_back_simps provision_parser_def)

lemma upgrade_read_back: "read_back (Upgrade node version confirm force_build) p"
  by (simp add: read_back_simps upgrade_parser_def)

lemma watch_read_back: "read_back (WatchPools once interval dry_run) p"
  by (simp add: read_back_simps watch_parser_def)

lemma dns_status_read_back: "read_back (DnsPools (DnsStatusArgs rec)) p"
  by (simp del: tokens.simps add: read_back_simps dns_parser_def dns_common_def dns_status_parser_def dns_args_of_def)

lemma dns_eject_read_back: "read_back (DnsPools (DnsEjectArgs node rec confirm)) p"
  by (simp del: tokens.simps add: read_back_simps dns_parser_def dns_common_def dns_override_parser_def dns_args_of_def)

lemma dns_restore_read_back: "read_back (DnsPools (DnsRestoreArgs node rec confirm)) p"
  by (simp del: tokens.simps add: read_back_simps dns_parser_def dns_common_def dns_override_parser_def dns_args_of_def)

lemma audit_read_back: "read_back (ShowAudit node limit) p"
  by (simp add: read_back_simps audit_parser_def)

lemmas all_read_back = status_read_back validate_read_back vote_status_read_back inspect_read_back plan_upgrade_read_back restart_read_back bootstrap_read_back provision_read_back upgrade_read_back watch_read_back dns_status_read_back dns_eject_read_back dns_restore_read_back audit_read_back

text \<open>
  C21. Every call has a command line: for each command with its arguments, whose texts start with no
  dash, whose numbers have at most 4300 characters, and with only the paths the command has, the
  line \<open>argv_of\<close> writes is read back as exactly that call. So the table of options, their kinds,
  defaults and attributes, and what each command takes from them, fit together.
\<close>

theorem argv_round_trip:
  assumes "call_ok c"
  shows "parse_argv (argv_of c) = Calls c"
proof -
  obtain cmd p where c: "c = (cmd, p)" by fastforce
  have "read_back cmd p"
  proof (cases cmd)
    case (DnsPools args)
    then show ?thesis by (cases args) (simp_all add: all_read_back)
  qed (simp_all add: all_read_back)
  with assms c show ?thesis by (simp add: read_back_def)
qed

theorem argv_round_trip_witness:
  "parse_argv [''upgrade'', ''--confirm'', ''--config'', ''f.yaml'', ''rpc1'', ''4.1.0''] =
     Calls (Upgrade ''rpc1'' ''4.1.0'' True False,
       \<lparr>path_config = Some ''f.yaml'', path_policy = None, path_audit = None\<rparr>)"
  using argv_round_trip [of "(Upgrade ''rpc1'' ''4.1.0'' True False,
      \<lparr>path_config = Some ''f.yaml'', path_policy = None, path_audit = None\<rparr>)"]
  by (simp add: call_ok_def texts_ok_def dashless_def argv_of_def paths_of_def value_arg_def flag_arg_def)

theorem confirmation_is_explicit_witness:
  "\<exists>c. parse_argv [''restart'', ''--confirm'', ''rpc1''] = Calls c \<and> confirmed (fst c) \<and>
     (''--confirm'' \<in> set [''restart'', ''--confirm'', ''rpc1''] \<or> ''--confir'' \<in> set [''restart'', ''--confirm'', ''rpc1''])"
proof -
  let ?p = "\<lparr>path_config = None, path_policy = None, path_audit = None\<rparr>"
  have c: "parse_argv [''restart'', ''--confirm'', ''rpc1''] = Calls (Restart ''rpc1'' True, ?p)"
    using restart_read_back [of "''rpc1''" True ?p]
    by (simp add: read_back_def call_ok_def texts_ok_def dashless_def argv_of_def paths_of_def
        value_arg_def flag_arg_def)
  from confirmation_is_explicit [OF c] c show ?thesis by simp
qed

end
