(* ===== verification/Harmless.thy ===== *)
theory Harmless
  imports Restart Upgrade Provision Validate Dns_Steps
begin

text \<open>
  What an operation does without a confirmation: on the hosts it only looks, it only records dry
  runs, and it leaves the DNS records alone. Both fronts of the program rest on these lemmas.
\<close>

section \<open>Looking only\<close>

text \<open>The commands that only look: on the nodes and on the builders of a fleet\<close>

definition fleet_nodes :: "fleet \<Rightarrow> node set" where
  "fleet_nodes f = {n. \<exists>(cn, c) \<in> set (fl_clusters f). n \<in> set (cl_nodes c)}"

definition looking :: "fleet \<Rightarrow> string list set" where
  "looking f = {argv. (\<exists>n \<in> fleet_nodes f. argv \<in> set (host_argvs n (preflight_command # inspect_commands n)))
     \<or> (\<exists>(nm, b) \<in> set (fl_builders f). argv \<in> set (host_argvs b [''true'', specs_command]))}"

text \<open>Only dry runs are added to an audit log\<close>

definition dry_records :: "audit_log \<Rightarrow> audit_log \<Rightarrow> bool" where
  "dry_records al al' \<longleftrightarrow> (\<exists>new. audit_entries al' = audit_entries al @ new \<and>
     list_all (\<lambda>e. en_mode e = ''dry-run'') new)"

text \<open>A computation that runs only commands of a set, and records only dry runs\<close>

definition harmless :: "string list set \<Rightarrow> 'a io \<Rightarrow> bool" where
  "harmless A m \<longleftrightarrow> (\<forall>w res w'. m w = (res, w') \<longrightarrow>
     (\<exists>es. trace w' = trace w @ es \<and> set (commands es) \<subseteq> A) \<and>
     rel_option dry_records (audit w) (audit w'))"

lemma dry_records_refl: "dry_records al al"
  by (auto simp: dry_records_def)

lemma dry_records_trans: "dry_records al al1 \<Longrightarrow> dry_records al1 al2 \<Longrightarrow> dry_records al al2"
  by (auto simp: dry_records_def)

lemma dry_records_put: "en_mode e = ''dry-run'' \<Longrightarrow> dry_records al (audit_put e al)"
  by (auto simp: dry_records_def audit_entries_put)

lemma rel_dry_refl: "rel_option dry_records a a"
  by (cases a) (simp_all add: dry_records_refl)

lemma rel_dry_trans:
  "rel_option dry_records a b \<Longrightarrow> rel_option dry_records b c \<Longrightarrow> rel_option dry_records a c"
  by (cases a; cases b; cases c) (auto intro: dry_records_trans)

lemma harmless_doing: "doing cs m \<Longrightarrow> set cs \<subseteq> A \<Longrightarrow> harmless A m"
  unfolding harmless_def by (metis doingE rel_dry_refl set_mono_prefix subset_trans)

lemma harmless_adds: "adds is_quiet m \<Longrightarrow> harmless A m"
  by (rule harmless_doing [OF adds_doing]) simp_all

lemma harmless_quiet: "adds is_rpc_event m \<Longrightarrow> harmless A m"
  by (rule harmless_adds, erule adds_mono) (auto simp: is_quiet_def is_rpc_event_def split: event.splits)

lemma harmless_bind:
  assumes "harmless A m" and "\<And>x. harmless A (k x)"
  shows "harmless A (bind_io m k)"
  unfolding harmless_def
proof (intro allI impI)
  fix w res w' assume run: "bind_io m k w = (res, w')"
  obtain r w1 where m: "m w = (r, w1)" by fastforce
  with assms(1) obtain es where es: "trace w1 = trace w @ es" "set (commands es) \<subseteq> A"
    "rel_option dry_records (audit w) (audit w1)" unfolding harmless_def by blast
  show "(\<exists>es. trace w' = trace w @ es \<and> set (commands es) \<subseteq> A) \<and>
      rel_option dry_records (audit w) (audit w')"
  proof (cases r)
    case (Inl e)
    with m run es show ?thesis by (auto simp: bind_io_def)
  next
    case (Inr x)
    with m run have k: "k x w1 = (res, w')" by (simp add: bind_io_def)
    with assms(2) obtain es2 where "trace w' = trace w1 @ es2" "set (commands es2) \<subseteq> A"
      "rel_option dry_records (audit w1) (audit w')" unfolding harmless_def by blast
    with es show ?thesis by (intro conjI exI [of _ "es @ es2"]) (auto intro: rel_dry_trans)
  qed
qed

lemma harmless_ret: "harmless A (ret x)"
  by (rule harmless_adds) (rule adds_ret)

lemma harmless_throw: "harmless A (throw e)"
  by (rule harmless_adds) (rule adds_throw)

lemma harmless_lift: "harmless A (lift r)"
  by (rule harmless_adds) (rule adds_lift)

lemma harmless_outcome:
  assumes "\<And>w res w'. m w = (res, w') \<Longrightarrow> \<exists>cs. set cs \<subseteq> A \<and> outcome cs entry w res w'"
    and "yields (\<lambda>x. en_mode (entry x) = ''dry-run'') m"
  shows "harmless A m"
  unfolding harmless_def
proof (intro allI impI)
  fix w res w' assume run: "m w = (res, w')"
  from assms(1) [OF this] obtain cs where cs: "set cs \<subseteq> A" "outcome cs entry w res w'" by blast
  then obtain es where es: "trace w' = trace w @ es" "case res of
        Inl _ \<Rightarrow> prefix (commands es) cs \<and> audit w' = audit w
      | Inr x \<Rightarrow> commands es = cs \<and> audit w' = map_option (audit_put (entry x)) (audit w)"
    unfolding outcome_def by blast
  then have "prefix (commands es) cs" by (cases res) auto
  then have "set (commands es) \<subseteq> A" using cs(1) by (metis set_mono_prefix subset_trans)
  moreover have "rel_option dry_records (audit w) (audit w')"
    using es(2) yieldsD [OF assms(2), of w] run
    by (cases res; cases "audit w") (auto intro: dry_records_put dry_records_refl)
  ultimately show "(\<exists>es. trace w' = trace w @ es \<and> set (commands es) \<subseteq> A) \<and>
      rel_option dry_records (audit w) (audit w')" using es(1) by blast
qed

lemma find_node_fleet: "find_node f name = Some (cn, c, n) \<Longrightarrow> n \<in> fleet_nodes f"
  using find_node_in_Some [of "fl_clusters f" name cn c n]
  by (auto simp: find_node_def fleet_nodes_def)

lemma inspect_looking: "n \<in> fleet_nodes f \<Longrightarrow> set (host_argvs n (inspect_commands n)) \<subseteq> looking f"
  by (auto simp: looking_def host_argvs_def)

lemma preflight_looking: "n \<in> fleet_nodes f \<Longrightarrow> set (host_argvs n [preflight_command]) \<subseteq> looking f"
  by (auto simp: looking_def host_argvs_def)

section \<open>The operations as dry runs\<close>

lemma restart_dry_entry:
  "find_node f name = Some (cn, c, n) \<Longrightarrow>
   yields (\<lambda>r. en_mode (restart_entry cn name r) = ''dry-run'')
     (restart_node E pol sampler leader_fn f name False max_lag)"
  unfolding restart_node_def restart_decided_def Let_def
  by (auto simp: restart_entry_def entry_of_def intro!: yield_rules yields_recorded)

lemma upgrade_dry_entry:
  "find_node f name = Some (cn, c, n) \<Longrightarrow>
   yields (\<lambda>r. en_mode (upgrade_entry cn name r) = ''dry-run'')
     (execute_upgrade E pol sampler f name v False max_lag force)"
  unfolding execute_upgrade_def upgrade_decided_def upgrade_decision_def Let_def
  by (auto simp: upgrade_entry_def entry_of_def intro!: yield_rules yields_recorded)

lemma provision_dry_entry:
  "find_node f name = Some (cn, c, n) \<Longrightarrow>
   yields (\<lambda>r. en_mode (provision_entry cn name r) = ''dry-run'')
     (provision_node E sampler f name v False devices max_lag timeout)"
  unfolding provision_node_def provision_decided_def Let_def
  by (auto simp: provision_entry_def entry_of_def intro!: yield_rules yields_recorded)

lemma harmless_restart:
  assumes "observers sampler leader_fn"
  shows "harmless (looking f) (restart_node E pol sampler leader_fn f name False max_lag)"
proof (cases "find_node f name")
  case None
  then show ?thesis by (simp add: restart_node_def harmless_ret)
next
  case (Some x)
  obtain cn c n where n: "find_node f name = Some (cn, c, n)" using Some by (cases x) auto
  show ?thesis
  proof (rule harmless_outcome [OF _ restart_dry_entry [OF n]])
    fix w res w' assume "restart_node E pol sampler leader_fn f name False max_lag w = (res, w')"
    from observers.restart_node_outcome [OF assms n this]
    have "outcome (host_argvs n (inspect_commands n)) (restart_entry cn name) w res w'"
      by (auto simp: restart_goes_def)
    with inspect_looking [OF find_node_fleet [OF n]]
    show "\<exists>cs. set cs \<subseteq> looking f \<and> outcome cs (restart_entry cn name) w res w'" by blast
  qed
qed

lemma harmless_upgrade:
  assumes "quiet_sampler sampler"
  shows "harmless (looking f) (execute_upgrade E pol sampler f name v False max_lag force)"
proof (cases "find_node f name")
  case None
  then show ?thesis by (simp add: execute_upgrade_def harmless_ret)
next
  case (Some x)
  obtain cn c n where n: "find_node f name = Some (cn, c, n)" using Some by (cases x) auto
  show ?thesis
  proof (rule harmless_outcome [OF _ upgrade_dry_entry [OF n]])
    fix w res w' assume "execute_upgrade E pol sampler f name v False max_lag force w = (res, w')"
    then have "outcome (host_argvs n (inspect_commands n)) (upgrade_entry cn name) w res w'"
      by (cases rule: quiet_sampler.execute_upgrade_outcome [OF assms n]) (auto simp: upgrade_goes_def)
    with inspect_looking [OF find_node_fleet [OF n]]
    show "\<exists>cs. set cs \<subseteq> looking f \<and> outcome cs (upgrade_entry cn name) w res w'" by blast
  qed
qed

lemma harmless_provision:
  assumes "quiet_sampler sampler"
  shows "harmless (looking f) (provision_node E sampler f name v False devices max_lag timeout)"
proof (cases "find_node f name")
  case None
  then show ?thesis by (simp add: provision_node_def harmless_ret)
next
  case (Some x)
  obtain cn c n where n: "find_node f name = Some (cn, c, n)" using Some by (cases x) auto
  show ?thesis
  proof (rule harmless_outcome [OF _ provision_dry_entry [OF n]])
    fix w res w' assume "provision_node E sampler f name v False devices max_lag timeout w = (res, w')"
    then have "outcome (host_argvs n [preflight_command]) (provision_entry cn name) w res w'"
      by (cases rule: quiet_sampler.provision_node_outcome [OF assms n]) (auto simp: provision_goes_def)
    with preflight_looking [OF find_node_fleet [OF n]]
    show "\<exists>cs. set cs \<subseteq> looking f \<and> outcome cs (provision_entry cn name) w res w'" by blast
  qed
qed

lemma harmless_bootstrap: "harmless (looking f) (bootstrap_builder E f name False)"
proof (cases "find_builder f (Some name)")
  case None
  then show ?thesis by (simp add: bootstrap_builder_def harmless_ret)
next
  case (Some b)
  then have "(name, b) \<in> set (fl_builders f)"
    by (auto simp: find_builder_def split: if_splits dest: map_of_SomeD)
  then have l: "set (host_argvs b [''true'']) \<subseteq> looking f"
    by (auto simp: looking_def host_argvs_def)
  have d: "doing (host_argvs b [''true'']) (run E b ''true'')"
    using emits_doing [OF emits_run_argv] by (simp add: run_def host_argvs_def)
  let ?m = "\<lambda>r. recorded (bootstrap_entry name) (bootstrap_decided E b False
      (gate ''bootstrap_builder'' ''builders'' name False bootstrap_plan
        [(cr_ok r, ''builder not reachable over SSH'')]))"
  have m: "harmless (looking f) (?m r)" for r
  proof (rule harmless_outcome)
    show "\<exists>cs. set cs \<subseteq> looking f \<and> outcome cs (bootstrap_entry name) w res w'"
      if "?m r w = (res, w')" for w res w'
      using that by (intro exI [of _ "[]"]) (auto simp: bootstrap_decided_def intro: recorded_ret_outcome)
    show "yields (\<lambda>x. en_mode (bootstrap_entry name x) = ''dry-run'') (?m r)"
      by (auto simp: bootstrap_decided_def bootstrap_entry_def entry_of_def intro!: yields_recorded yields_ret)
  qed
  show ?thesis
    unfolding bootstrap_builder_def Some option.case by (rule harmless_bind [OF harmless_doing [OF d l] m])
qed

lemma harmless_validate: "harmless (looking f) (validate_fleet E getenv pol (probe_fleet E) f)"
proof (rule harmless_doing [OF doing_validate_fleet])
  show "adds is_quiet (probe_fleet E f)"
    by (rule adds_mono [OF adds_probe_fleet]) (auto simp: is_quiet_def is_rpc_event_def split: event.splits)
  show "set (validate_argvs f) \<subseteq> looking f"
    by (fastforce simp: validate_argvs_def looking_def fleet_nodes_def host_argvs_def)
qed

section \<open>DNS commands as dry runs\<close>

context dns_driver begin

text \<open>The records and markers stay, and only dry runs are recorded\<close>

definition untouched :: "'d watch_state \<Rightarrow> 'd watch_state \<Rightarrow> bool" where
  "untouched s s' \<longleftrightarrow> ok (fst s') \<and> members (fst s') = members (fst s) \<and> marked (fst s') = marked (fst s) \<and>
     rel_option dry_records (snd s) (snd s')"

lemma untouched_refl: "ok d \<Longrightarrow> untouched (d, al) (d, al)"
  by (simp add: untouched_def rel_dry_refl)

lemma untouched_trans: "untouched s s1 \<Longrightarrow> untouched s1 s2 \<Longrightarrow> untouched s s2"
  by (auto simp: untouched_def intro: rel_dry_trans)

lemma untouched_put: "ok d' \<Longrightarrow> members d' = members d \<Longrightarrow> marked d' = marked d \<Longrightarrow>
    en_mode e = ''dry-run'' \<Longrightarrow> untouched (d, al) (d', map_option (audit_put e) al)"
  by (cases al) (auto simp: untouched_def intro: dry_records_put)

lemma untouched_same: "ok d' \<Longrightarrow> members d' = members d \<Longrightarrow> marked d' = marked d \<Longrightarrow> untouched (d, al) (d', al)"
  by (simp add: untouched_def rel_dry_refl)

lemma untouched_override_pool:
  assumes "ok d" and "override_pool ops a ip nm False p (d, al) = (res, s')"
  shows "untouched (d, al) s'"
proof -
  obtain r d1 where l: "list_members ops (pl_record p) d = (r, d1)" by fastforce
  have "gd_mode (gate op c n False plan checks) = ''dry-run''" for op c n plan checks
    by (simp add: gate_def Let_def)
  with assms(2) l list_keeps [OF assms(1) l] show ?thesis
    by (cases r) (auto simp: override_pool_def Let_def override_audit_def entry_of_def
        intro!: untouched_put untouched_same)
qed

lemma untouched_override_pools:
  "ok (fst s) \<Longrightarrow> override_pools ops a ip nm False ps s = (res, s') \<Longrightarrow> untouched s s'"
proof (induction ps arbitrary: s res s')
  case Nil
  then show ?case using untouched_refl [of "fst s" "snd s"] by simp
next
  case (Cons p ps)
  obtain r s1 where p: "override_pool ops a ip nm False p s = (r, s1)" by (meson surj_pair)
  have u: "untouched s s1"
    using untouched_override_pool [of "fst s" a ip nm p "snd s" r s1] Cons.prems(1) p by simp
  then have ok: "ok (fst s1)" by (simp add: untouched_def)
  show ?case
  proof (cases r)
    case (Inl e)
    with Cons.prems(2) p u show ?thesis by simp
  next
    case (Inr x)
    obtain r2 s2 where ps: "override_pools ops a ip nm False ps s1 = (r2, s2)" by (meson surj_pair)
    with Cons.prems(2) p Inr have "s' = s2" by (cases r2) auto
    with untouched_trans [OF u Cons.IH [OF ok ps]] show ?thesis by simp
  qed
qed

lemma untouched_override:
  assumes "ok (fst s)" and "dns_override f ops nm a rec False s = (res, s')"
  shows "untouched s s'"
proof -
  obtain ip r s1 where "override_pools ops a ip nm False (pools_for_node f nm rec) s = (r, s1)"
    "s' = s \<or> s' = s1"
  proof (cases "find_node f nm")
    case None
    with assms(2) that [of undefined] show thesis by (simp add: dns_override_def) (metis prod.exhaust)
  next
    case (Some x)
    obtain cn c n where x: "x = (cn, c, n)" by (cases x)
    obtain r s1 where "override_pools ops a (host n) nm False (pools_for_node f nm rec) s = (r, s1)"
      by (meson surj_pair)
    with assms(2) Some x that show thesis by (cases r) (auto simp: dns_override_def Let_def split: if_splits)
  qed
  with untouched_override_pools [OF assms(1)] untouched_refl [OF assms(1), of "snd s"] show ?thesis
    by (metis prod.collapse)
qed

lemma untouched_status:
  assumes "ok d" and "dns_status f ops rec d = (res, d')"
  shows "untouched (d, al) (d', al)"
  using assms by (intro untouched_same)
    (auto simp: dns_status_def dest: pool_statuses_same split: option.splits if_splits prod.splits sum.splits)

lemma untouched_watch_pool:
  assumes "ok d" and "watch_pool ops True ips st p (d, al) = (res, s')"
  shows "untouched (d, al) s'"
proof (cases "find (\<lambda>m. dict_get ips m = None) (pl_members p)")
  case (Some m)
  with assms show ?thesis by (auto simp: watch_pool_def intro: untouched_refl)
next
  case None
  obtain r d1 where l: "list_members ops (pl_record p) d = (r, d1)" by fastforce
  with assms(2) None list_keeps [OF assms(1) l] show ?thesis
    by (cases r) (auto simp: watch_pool_def Let_def protect_pool_def reconcile_pool_def watch_entry_def
        split: if_splits intro!: untouched_put untouched_same)
qed

lemma untouched_watch_pools:
  "ok (fst s) \<Longrightarrow> watch_pools ops True ips st ps s = (res, s') \<Longrightarrow> untouched s s'"
proof (induction ps arbitrary: s res s')
  case Nil
  then show ?case using untouched_refl [of "fst s" "snd s"] by simp
next
  case (Cons p ps)
  obtain r s1 where p: "watch_pool ops True ips st p s = (r, s1)" by (meson surj_pair)
  have u: "untouched s s1"
    using untouched_watch_pool [of "fst s" ips st p "snd s" r s1] Cons.prems(1) p by simp
  then have ok: "ok (fst s1)" by (simp add: untouched_def)
  show ?case
  proof (cases r)
    case (Inl e)
    with Cons.prems(2) p u show ?thesis by simp
  next
    case (Inr x)
    obtain r2 s2 where ps: "watch_pools ops True ips st ps s1 = (r2, s2)" by (meson surj_pair)
    with Cons.prems(2) p Inr have "s' = s2" by (cases r2) auto
    with untouched_trans [OF u Cons.IH [OF ok ps]] show ?thesis by simp
  qed
qed

lemma untouched_round:
  assumes "ok (fst s)" and "watch_once f ops True probed s = (res, s')"
  shows "untouched s s'"
proof -
  obtain ips st ps r s1 where "watch_pools ops True ips st ps s = (r, s1)" "s' = s \<or> s' = s1"
  proof (cases "fl_dns f = None \<or> isl probed \<or> dn_pools (the (fl_dns f)) = []")
    case True
    with assms(2) that [of "[]" "[]" "[]"] show thesis
      by (auto simp: watch_once_def split: option.splits sum.splits if_splits)
  next
    case False
    then obtain dns clusters where c: "fl_dns f = Some dns" "probed = Inr clusters" "dn_pools dns \<noteq> []"
      by (cases probed) auto
    obtain r s1 where "watch_pools ops True (node_ips f) (status_by_name clusters) (dn_pools dns) s = (r, s1)"
      by (meson surj_pair)
    with assms(2) c that show thesis by (cases r) (auto simp: watch_once_def)
  qed
  with untouched_watch_pools [OF assms(1)] untouched_refl [OF assms(1), of "snd s"] show ?thesis
    by (metis prod.collapse)
qed

lemma untouched_loop_raw:
  "watch_loop f ops' prober interval iterations dry n out s = Some y \<Longrightarrow>
   ops' = ops \<longrightarrow> dry \<longrightarrow> ok (fst s) \<longrightarrow> untouched s (snd (snd y))"
proof (induction rule: watch_loop.raw_induct [rotated, consumes 1, case_names step])
  case (step loop f ops' prober interval iterations dry n out s y)
  show ?case
  proof (intro impI)
    assume a: "ops' = ops" "dry" "ok (fst s)"
    obtain res s1 where w: "watch_once f ops' dry (prober n) s = (res, s1)" by (meson surj_pair)
    with a have u: "untouched s s1" using untouched_round by simp
    then have ok: "ok (fst s1)" by (simp add: untouched_def)
    show "untouched s (snd (snd y))"
    proof (cases res)
      case (Inl e)
      with step(2) w u untouched_refl [OF a(3), of "snd s"] show ?thesis by (auto split: if_splits)
    next
      case (Inr report)
      note IH = step(1) [of f ops' prober interval iterations dry "n + 1"
          "(out @ [Round report]) @ [Pause interval]" s1 y]
      from IH a ok step(2) w Inr u untouched_refl [OF a(3), of "snd s"] untouched_trans [OF u]
      show ?thesis by (auto simp: Let_def split: if_splits)
    qed
  qed
qed

lemmas untouched_loop = untouched_loop_raw [rule_format, OF _ refl TrueI]

end

section \<open>On a configuration that is, or is not, read\<close>

text \<open>What may be run when the configuration is, or is not, read\<close>

definition looking_in :: "exn + fleet \<Rightarrow> string list set" where
  "looking_in config = (case config of Inl _ \<Rightarrow> {} | Inr f \<Rightarrow> looking f)"

lemma harmless_config:
  "(\<And>f. config = Inr f \<Longrightarrow> harmless (looking f) (k f)) \<Longrightarrow>
   harmless (looking_in config) (bind_io (lift config) k)"
  by (cases config) (simp_all add: looking_in_def lift_Inr_bind harmless_throw lift_Inl_bind)

lemma harmless_then_ret: "harmless A m \<Longrightarrow> harmless A (bind_io m (\<lambda>x. ret (g x)))"
  by (rule harmless_bind) (simp_all add: harmless_ret)

end
