(* ===== verification/Loading.thy ===== *)
theory Loading
  imports Config Safety Effects
begin

text \<open>
  Reading the configuration and the policy: \<open>load_fleet\<close> of \<open>config.py\<close> and \<open>load_policy\<close> of
  \<open>safety.py\<close>. What is not under \<open>src\<close> is a parameter: \<open>exists\<close> is \<open>Path.exists\<close>, \<open>read\<close> opens a file and
  parses it with \<open>yaml.safe_load\<close> (an empty file gives \<open>JNull\<close>), \<open>model\<close> is pydantic's parsing of the
  fields of a mapping, an error text or the model, and \<open>render\<close> its text for the errors of the
  validators.
\<close>

section \<open>The configuration\<close>

definition default_config_paths :: "string list" where
  "default_config_paths = [''fleet.yaml'', ''fleet.yml'']"

text \<open>An explicit path, then the environment variable, then the first default file that exists\<close>

definition resolve_config_path ::
  "(string \<Rightarrow> bool) \<Rightarrow> string option \<Rightarrow> string option \<Rightarrow> exn + string" where
  "resolve_config_path exists env explicit =
     (if truthy explicit then Inr (the explicit)
      else if truthy env then Inr (the env)
      else case find exists default_config_paths of
             Some p \<Rightarrow> Inr p
           | None \<Rightarrow> Inl (OsError (''no fleet config found; pass --config, set SOLFLEET_CONFIG, ''
                          @ ''or create fleet.yaml in the working directory'')))"

text \<open>\<open>Fleet.model_validate\<close>: the fields, then the validators of the model\<close>

definition model_validate ::
  "((string \<times> json) list \<Rightarrow> string + fleet) \<Rightarrow> (string list \<Rightarrow> string) \<Rightarrow> (string \<times> json) list \<Rightarrow> exn + fleet" where
  "model_validate model render raw =
     (case model raw of
        Inl e \<Rightarrow> Inl (ValueError e)
      | Inr f \<Rightarrow>
          (case validate_model f of
             Inl errs \<Rightarrow> Inl (ValueError (render errs))
           | Inr f1 \<Rightarrow> Inr f1))"

definition load_fleet ::
  "(string \<Rightarrow> exn + json) \<Rightarrow> ((string \<times> json) list \<Rightarrow> string + fleet) \<Rightarrow> (string list \<Rightarrow> string) \<Rightarrow>
   (string \<Rightarrow> bool) \<Rightarrow> string option \<Rightarrow> string option \<Rightarrow> exn + fleet" where
  "load_fleet read model render exists env path =
     (case resolve_config_path exists env (if truthy path then path else None) of
        Inl e \<Rightarrow> Inl e
      | Inr resolved \<Rightarrow>
          (case read resolved of
             Inl e \<Rightarrow> Inl e
           | Inr (JObj raw) \<Rightarrow> model_validate model render raw
           | Inr _ \<Rightarrow> Inl (ValueError (resolved @ '': expected a mapping at the top level''))))"

section \<open>The policy\<close>

definition default_policy_paths :: "string list" where
  "default_policy_paths = [''policy.yaml'', ''policy.yml'']"

text \<open>\<open>or {}\<close>: an empty document, whatever it is, counts as the empty mapping\<close>

definition or_empty :: "json \<Rightarrow> json" where
  "or_empty raw = (if json_truthy raw then raw else JObj [])"

definition load_policy ::
  "(string \<Rightarrow> exn + json) \<Rightarrow> (json \<Rightarrow> string + policy) \<Rightarrow> (string \<Rightarrow> bool) \<Rightarrow> string option \<Rightarrow> exn + policy" where
  "load_policy read model exists path =
     (case (if truthy path then path else find exists default_policy_paths) of
        None \<Rightarrow> Inr default_policy
      | Some resolved \<Rightarrow>
          (case read resolved of
             Inl e \<Rightarrow> Inl e
           | Inr raw \<Rightarrow> (case model (or_empty raw) of Inl e \<Rightarrow> Inl (ValueError e) | Inr p \<Rightarrow> Inr p)))"

section \<open>What is loaded\<close>

text \<open>The file the configuration is read from\<close>

definition config_file :: "(string \<Rightarrow> bool) \<Rightarrow> string option \<Rightarrow> string option \<Rightarrow> string option" where
  "config_file exists env path =
     (if truthy path then path else if truthy env then env
      else if exists ''fleet.yaml'' then Some ''fleet.yaml''
      else if exists ''fleet.yml'' then Some ''fleet.yml'' else None)"

lemma resolve_config_file:
  "resolve_config_path exists env (if truthy path then path else None) = Inr r \<longleftrightarrow>
   config_file exists env path = Some r"
  by (cases path; cases env)
    (auto simp: resolve_config_path_def config_file_def default_config_paths_def split: if_splits)

lemma model_validate_iff:
  "model_validate model render raw = Inr f \<longleftrightarrow> model raw = Inr f \<and> fleet_wf f"
proof (cases "model raw")
  case (Inr g)
  then show ?thesis
    using validate_model_wf [of g f] by (cases "validate_model g") (auto simp: model_validate_def)
qed (simp add: model_validate_def)

text \<open>
  C15. Loading succeeds exactly on a well-formed fleet: the file is the one named on the command
  line, or else by the environment variable, or else the first default file that exists; it can be
  read and holds a mapping whose fields parse to the fleet, unchanged; and the fleet is well-formed:
  node names are unique in their cluster, an RPC node has an RPC URL and a validator an identity, a
  cluster that builds names a defined builder, and every pool names a known cluster and only nodes
  of it.
\<close>

theorem load_fleet_exact:
  "load_fleet read model render exists env path = Inr f \<longleftrightarrow>
     (\<exists>file raw. config_file exists env path = Some file \<and> read file = Inr (JObj raw) \<and>
        model raw = Inr f) \<and> fleet_wf f"
proof (cases "resolve_config_path exists env (if truthy path then path else None)")
  case (Inl e)
  then have "config_file exists env path \<noteq> Some r" for r
    using resolve_config_file [of exists env path r] by simp
  with Inl show ?thesis by (simp add: load_fleet_def)
next
  case (Inr r)
  then have "config_file exists env path = Some r" by (simp add: resolve_config_file)
  with Inr show ?thesis
    by (auto simp: load_fleet_def model_validate_iff split: sum.split json.split)
qed

text \<open>
  A policy that is named is never replaced by the defaults: a file that cannot be read, or does
  not parse, ends the command. Without a path and without a default file the defaults hold.
\<close>

lemma load_policy_named:
  "truthy path \<Longrightarrow> load_policy read model exists path = Inr p \<Longrightarrow>
   \<exists>raw. read (the path) = Inr raw \<and> model (or_empty raw) = Inr p"
  by (cases path) (auto simp: load_policy_def split: sum.splits)

lemma load_policy_absent:
  "\<not> truthy path \<Longrightarrow> \<not> exists ''policy.yaml'' \<Longrightarrow> \<not> exists ''policy.yml'' \<Longrightarrow>
   load_policy read model exists path = Inr default_policy"
  by (simp add: load_policy_def default_policy_paths_def)

text \<open>
  In a loaded fleet the builder of every cluster that builds is found by \<open>find_builder\<close>, so no
  operation is refused for a missing builder.
\<close>

lemma loaded_fleet_has_builder:
  assumes "load_fleet read model render exists env path = Inr f" and "find_node f name = Some (cn, c, n)"
    and "cl_install c = Some i" and "in_strategy i = Build"
  shows "\<exists>b. find_builder f (in_builder i) = Some b"
proof -
  have "fleet_wf f"
    using assms(1) by (auto simp: load_fleet_def model_validate_iff split: sum.splits json.splits)
  moreover from find_node_Some [OF assms(2)] have "c \<in> snd ` set (fl_clusters f)" by force
  ultimately show ?thesis using assms(3,4) by (auto simp: fleet_wf_def builder_known_def)
qed

end
