(* ===== verification/System.thy ===== *)
theory System
  imports Harmless Loading Route53
begin

text \<open>
  The system the two fronts of the program work on: the hosts, the audit databases and the DNS
  records, and what a process finds around it. How an operation runs on the system, and what
  stays as it was when the operation only looks.
\<close>

section \<open>The system\<close>

text \<open>\<open>sys_dbs path\<close> is the audit database at a path, empty when there was none\<close>

record 'd system =
  sys_trace :: "event list"
  sys_dbs :: "string \<Rightarrow> audit_log"
  sys_dns :: 'd

text \<open>
  What the process finds around it: the hosts and RPCs, the environment variables, the files at a
  moment and how pydantic parses their contents, the drivers for the zones, what the prober of the
  failover loop reports in each round, the clock, and whether Ctrl-C was pressed.
\<close>

record 'd setting =
  st_env :: env
  st_getenv :: "string \<Rightarrow> string option"
  st_exists :: "event list \<Rightarrow> string \<Rightarrow> bool"
  st_read :: "event list \<Rightarrow> string \<Rightarrow> exn + json"
  st_fleet_model :: "(string \<times> json) list \<Rightarrow> string + fleet"
  st_fleet_errors :: "string list \<Rightarrow> string"
  st_policy_model :: "json \<Rightarrow> string + policy"
  st_construct :: "driver_choice \<Rightarrow> exn + 'd dns_ops"
  st_prober :: "int \<Rightarrow> exn + cluster_status list"
  st_now :: "event list \<Rightarrow> string"
  st_interrupted :: "event list \<Rightarrow> bool"

text \<open>\<open>load_fleet(path)\<close> and \<open>load_policy(path)\<close> at a moment, and \<open>make_driver(dns)\<close>\<close>

definition st_fleet :: "'d setting \<Rightarrow> event list \<Rightarrow> string option \<Rightarrow> exn + fleet" where
  "st_fleet S es path = load_fleet (st_read S es) (st_fleet_model S) (st_fleet_errors S)
     (st_exists S es) (st_getenv S ''SOLFLEET_CONFIG'') path"

definition st_policy :: "'d setting \<Rightarrow> event list \<Rightarrow> string option \<Rightarrow> exn + policy" where
  "st_policy S es path = load_policy (st_read S es) (st_policy_model S) (st_exists S es) path"

definition st_driver :: "'d setting \<Rightarrow> dns_config \<Rightarrow> exn + 'd dns_ops" where
  "st_driver S dns =
     (case make_driver (st_getenv S ''CLOUDFLARE_API_TOKEN'') None dns of
        Inl e \<Rightarrow> Inl e
      | Inr choice \<Rightarrow> st_construct S choice)"

text \<open>The file of \<open>AuditLog()\<close>\<close>

definition default_db :: string where
  "default_db = ''solfleet.sqlite''"

section \<open>Running an operation\<close>

type_synonym ('a, 'd) ending = "((exn + 'a) \<times> 'd system) option"

text \<open>Commands on the hosts, without an audit log or with the one they open\<close>

definition on_hosts :: "(world \<Rightarrow> ((exn + 'a) \<times> world) option) \<Rightarrow> 'd system \<Rightarrow> ('a, 'd) ending" where
  "on_hosts m s = map_option (\<lambda>(res, w). (res, s\<lparr>sys_trace := trace w\<rparr>))
     (m \<lparr>trace = sys_trace s, audit = None\<rparr>)"

definition audited_on_hosts :: "string \<Rightarrow> 'a io \<Rightarrow> 'd system \<Rightarrow> ('a, 'd) ending" where
  "audited_on_hosts path m s =
     (case m \<lparr>trace = sys_trace s, audit = Some (sys_dbs s path)\<rparr> of
        (res, w) \<Rightarrow> Some (res, s\<lparr>sys_trace := trace w,
          sys_dbs := (case audit w of None \<Rightarrow> sys_dbs s | Some al \<Rightarrow> (sys_dbs s)(path := al))\<rparr>))"

text \<open>Commands on the DNS records\<close>

definition on_dns ::
  "string \<Rightarrow> ('d watch_state \<Rightarrow> ((exn + 'a) \<times> 'd watch_state) option) \<Rightarrow> 'd system \<Rightarrow> ('a, 'd) ending" where
  "on_dns path m s =
     (case m (sys_dns s, Some (sys_dbs s path)) of
        None \<Rightarrow> None
      | Some (res, d, al) \<Rightarrow> Some (res, s\<lparr>sys_dns := d,
          sys_dbs := (case al of None \<Rightarrow> sys_dbs s | Some al \<Rightarrow> (sys_dbs s)(path := al))\<rparr>))"

text \<open>\<open>load_policy(args.policy)\<close> is evaluated after the configuration was read\<close>

definition with_policy :: "exn + fleet \<Rightarrow> exn + policy \<Rightarrow> (policy \<Rightarrow> 'a io) \<Rightarrow> 'a io" where
  "with_policy config pol m =
     (case (config, pol) of (Inr _, Inl e) \<Rightarrow> throw e | (Inr _, Inr p) \<Rightarrow> m p
      | (Inl e, _) \<Rightarrow> throw e)"

section \<open>Operations that only look\<close>

lemma harmless_with_policy: "(\<And>p. harmless A (m p)) \<Longrightarrow> harmless A (with_policy config pol m)"
  by (auto simp: with_policy_def harmless_throw split: sum.split)

text \<open>The hosts and databases after a call that only looked, with the configuration it read\<close>

definition only_looked :: "exn + fleet \<Rightarrow> 'd system \<Rightarrow> 'd system \<Rightarrow> bool" where
  "only_looked config s s' \<longleftrightarrow>
     (\<exists>es. sys_trace s' = sys_trace s @ es \<and> set (commands es) \<subseteq> looking_in config) \<and>
     (\<forall>path. dry_records (sys_dbs s path) (sys_dbs s' path))"

lemma harmlessD:
  assumes "harmless A m" and "m w = (res, w')"
  obtains es where "trace w' = trace w @ es" "set (commands es) \<subseteq> A" "rel_option dry_records (audit w) (audit w')"
  using assms unfolding harmless_def by blast

lemma on_hosts_only_looked:
  assumes "on_hosts (\<lambda>w. Some (m w)) s = Some (res, s')"
    and "harmless (looking_in config) m"
  shows "sys_dns s' = sys_dns s \<and> only_looked config s s'"
proof -
  obtain r w' where m: "m \<lparr>trace = sys_trace s, audit = None\<rparr> = (r, w')" by fastforce
  from harmlessD [OF assms(2) m] obtain es where "trace w' = sys_trace s @ es"
    "set (commands es) \<subseteq> looking_in config" by auto
  with assms(1) m show ?thesis
    by (auto simp: on_hosts_def only_looked_def dry_records_refl)
qed

lemma audited_only_looked:
  assumes "audited_on_hosts path m s = Some (res, s')"
    and "harmless (looking_in config) m"
  shows "sys_dns s' = sys_dns s \<and> only_looked config s s'"
proof -
  obtain r w' where m: "m \<lparr>trace = sys_trace s, audit = Some (sys_dbs s path)\<rparr> = (r, w')" by fastforce
  from harmlessD [OF assms(2) m] obtain es where "trace w' = sys_trace s @ es"
    "set (commands es) \<subseteq> looking_in config"
    "rel_option dry_records (Some (sys_dbs s path)) (audit w')" by auto
  with assms(1) m show ?thesis
    by (cases "audit w'") (auto simp: audited_on_hosts_def only_looked_def dry_records_refl)
qed

lemma dns_only_looked:
  assumes "on_dns path m s = Some (res, s')"
    and "\<And>r st'. m (sys_dns s, Some (sys_dbs s path)) = Some (r, st') \<Longrightarrow>
      ok (fst st') \<and> members (fst st') = members (sys_dns s) \<and> marked (fst st') = marked (sys_dns s) \<and>
      rel_option dry_records (Some (sys_dbs s path)) (snd st')"
  shows "ok (sys_dns s') \<and> members (sys_dns s') = members (sys_dns s) \<and> marked (sys_dns s') = marked (sys_dns s) \<and>
    only_looked config s s'"
proof -
  obtain r d al where m: "m (sys_dns s, Some (sys_dbs s path)) = Some (r, d, al)"
    using assms(1) by (auto simp: on_dns_def split: option.splits)
  from assms(2) [OF m] assms(1) m show ?thesis
    by (cases al) (auto simp: on_dns_def only_looked_def dry_records_refl)
qed

text \<open>A system with the in-memory driver, on which the properties are tried\<close>

definition sample_setting :: "inmem setting" where
  "sample_setting = \<lparr>st_env = idle_env, st_getenv = \<lambda>_. None,
     st_exists = \<lambda>_ path. path = ''fleet.yaml'', st_read = \<lambda>_ _. Inr (JObj []),
     st_fleet_model = \<lambda>_. Inr two_node_fleet, st_fleet_errors = concat,
     st_policy_model = \<lambda>_. Inr default_policy, st_construct = \<lambda>_. Inr inmem_ops,
     st_prober = \<lambda>_. Inr lagging_rpc1, st_now = \<lambda>_. ''now'', st_interrupted = \<lambda>_. True\<rparr>"

lemma sample_fleet_loaded: "st_fleet sample_setting es None = Inr two_node_fleet"
  using two_node_fleet_wf
  by (simp add: st_fleet_def sample_setting_def load_fleet_exact config_file_def)

lemma sample_driver: "st_driver sample_setting dns = Inr ops \<Longrightarrow> ops = inmem_ops"
  by (simp add: st_driver_def sample_setting_def split: sum.splits)

definition sample_system :: "inmem system" where
  "sample_system = \<lparr>sys_trace = [], sys_dbs = \<lambda>_. audit_init (\<lambda>_. ''t''), sys_dns = serving_rpc1\<rparr>"

end
