(* ===== verification/Cli_Main.thy ===== *)
theory Cli_Main
  imports Cli_Parsing System
begin

text \<open>
  The whole program behind the command line: \<open>main\<close> takes the arguments and a system of hosts (their
  trace), audit databases and DNS records, and gives the exit code with what was printed, or the
  exception that ends the process. What a command line that does not confirm can do.
\<close>

text \<open>\<open>AuditLog(args.audit_db) if args.audit_db else AuditLog()\<close>\<close>

definition audit_path :: "paths \<Rightarrow> string" where
  "audit_path p = (case path_audit p of Some (c # s) \<Rightarrow> c # s | _ \<Rightarrow> default_db)"

section \<open>Watching the status\<close>

text \<open>
  \<open>_watch_status\<close>: the configuration is read again for every refresh; the loop ends with an
  exception, or with 0 when it is interrupted while it sleeps. Without either it runs for ever.
\<close>

definition refresh :: "'d setting \<Rightarrow> string option \<Rightarrow> string io" where
  "refresh S config =
     bind_io (\<lambda>w. (st_fleet S (trace w) config, w)) (\<lambda>f.
     bind_io (probe_fleet (st_env S) f) (\<lambda>clusters.
     lift (format_table clusters)))"

partial_function (option) watch_status ::
  "'d setting \<Rightarrow> string option \<Rightarrow> int \<Rightarrow> printed list \<Rightarrow> world \<Rightarrow> ((exn + exit) \<times> world) option" where
  "watch_status S config interval out w =
     (case refresh S config w of
        (Inl e, w1) \<Rightarrow> Some (Inl e, w1)
      | (Inr table, w1) \<Rightarrow>
          (let out1 = out @ [PrintScreen (st_now S (trace w1)) interval table]
           in if interval < 0 then Some (Inl (ValueError ''sleep length must be non-negative''), w1)
              else let w2 = w1\<lparr>trace := trace w1 @ [Slept interval]\<rparr>
                   in if st_interrupted S (trace w2) then Some (Inr (0, out1), w2)
                      else watch_status S config interval out1 w2))"

section \<open>Calling a command\<close>

text \<open>\<open>cmd_status\<close> with \<open>--watch\<close> or without\<close>

definition watch_or_status ::
  "'d setting \<Rightarrow> string option \<Rightarrow> bool \<Rightarrow> bool \<Rightarrow> int \<Rightarrow> world \<Rightarrow> ((exn + exit) \<times> world) option" where
  "watch_or_status S config json watch interval w =
     (if watch then watch_status S config interval [] w
      else Some (cmd_status (st_env S) (st_fleet S (trace w) config) json w))"

text \<open>\<open>args.func(args)\<close>\<close>

fun run_command :: "'d setting \<Rightarrow> command \<Rightarrow> paths \<Rightarrow> 'd system \<Rightarrow> (exit, 'd) ending" where
  "run_command S (Status json watch interval) p s =
     on_hosts (watch_or_status S (path_config p) json watch interval) s"
| "run_command S (Validate json) p s =
     (let config = st_fleet S (sys_trace s) (path_config p)
      in on_hosts (\<lambda>w. Some (
           if isl config then cmd_validate (st_env S) (st_getenv S) config default_policy json w
           else with_policy config (st_policy S (sys_trace s) (path_policy p))
                  (\<lambda>pol. cmd_validate (st_env S) (st_getenv S) config pol json) w)) s)"
| "run_command S (VoteStatus node) p s =
     on_hosts (\<lambda>w. Some (cmd_vote_status (st_env S) (st_fleet S (sys_trace s) (path_config p)) node w)) s"
| "run_command S (Inspect node) p s =
     on_hosts (\<lambda>w. Some (cmd_inspect (st_env S) (st_fleet S (sys_trace s) (path_config p)) node w)) s"
| "run_command S (PlanUpgrade node version) p s =
     (let config = st_fleet S (sys_trace s) (path_config p)
      in on_hosts (\<lambda>w. Some (with_policy config (st_policy S (sys_trace s) (path_policy p))
           (\<lambda>pol. cmd_plan_upgrade config pol node version) w)) s)"
| "run_command S (Restart node confirm) p s =
     (let config = st_fleet S (sys_trace s) (path_config p)
      in audited_on_hosts (audit_path p) (with_policy config (st_policy S (sys_trace s) (path_policy p))
           (\<lambda>pol. cmd_restart (st_env S) config pol node confirm)) s)"
| "run_command S (Bootstrap builder confirm) p s =
     audited_on_hosts (audit_path p)
       (cmd_bootstrap_builder (st_env S) (st_fleet S (sys_trace s) (path_config p)) builder confirm) s"
| "run_command S (Provision node version confirm devices timeout) p s =
     (let config = st_fleet S (sys_trace s) (path_config p)
      in audited_on_hosts (audit_path p) (with_policy config (st_policy S (sys_trace s) (path_policy p))
           (\<lambda>pol. cmd_provision (st_env S) config node version confirm devices timeout)) s)"
| "run_command S (Upgrade node version confirm force_build) p s =
     (let config = st_fleet S (sys_trace s) (path_config p)
      in audited_on_hosts (audit_path p) (with_policy config (st_policy S (sys_trace s) (path_policy p))
           (\<lambda>pol. cmd_upgrade (st_env S) config pol node version confirm force_build)) s)"
| "run_command S (WatchPools once interval dry_run) p s =
     on_dns (audit_path p) (cmd_watch (st_fleet S (sys_trace s) (path_config p)) (st_driver S)
       (st_prober S) once interval dry_run) s"
| "run_command S (DnsPools args) p s =
     on_dns (audit_path p) (\<lambda>st. Some (cmd_dns (st_fleet S (sys_trace s) (path_config p)) (st_driver S)
       args st)) s"
| "run_command S (ShowAudit node limit) p s =
     Some (Inr (cmd_audit (sys_dbs s (audit_path p)) node limit), s)"

text \<open>
  \<open>main\<close>: 0 after a help text, 2 after a usage error, or what the command exits with; some commands
  can run for ever. A version that is an empty list, which takes two separators \<open>--\<close> on the
  command line, is not modelled further.
\<close>

datatype 'd main_result =
    Ended "exn + exit" "'d system"
  | Endless
  | OddVersion

definition exit_of_stop :: "stop \<Rightarrow> exit" where
  "exit_of_stop st = (case st of HelpShown \<Rightarrow> (0, []) | UsageError \<Rightarrow> (2, []))"

definition main :: "'d setting \<Rightarrow> string list \<Rightarrow> 'd system \<Rightarrow> 'd main_result" where
  "main S argv s =
     (case parse_argv argv of
        Exits st \<Rightarrow> Ended (Inr (exit_of_stop st)) s
      | BadPositional \<Rightarrow> OddVersion
      | Calls (c, p) \<Rightarrow>
          (case run_command S c p s of None \<Rightarrow> Endless | Some (res, s') \<Rightarrow> Ended res s'))"

text \<open>
  \<open>provision --policy\<close> is read and has no effect: with any two policies that can be read the
  command does the same, so a version the policy forbids is installed.
\<close>

lemma provision_ignores_policy:
  assumes "st_policy S (sys_trace s) x = Inr p1" and "st_policy S (sys_trace s) y = Inr p2"
  shows "run_command S (Provision node version confirm devices timeout) (p\<lparr>path_policy := x\<rparr>) s =
    run_command S (Provision node version confirm devices timeout) (p\<lparr>path_policy := y\<rparr>) s"
  using assms by (simp add: Let_def with_policy_def audit_path_def split: sum.split)

section \<open>Calls without a confirmation\<close>

lemma harmless_status: "harmless (looking_in config) (cmd_status E config json)"
  unfolding cmd_status_def
  by (intro harmless_config harmless_bind harmless_ret harmless_quiet [OF adds_probe_fleet])
    (auto intro!: harmless_then_ret harmless_ret harmless_lift)

lemma harmless_inspect: "harmless (looking_in config) (cmd_inspect E config name)"
  unfolding cmd_inspect_def Let_def
  by (intro harmless_config)
    (auto intro!: harmless_then_ret harmless_ret harmless_doing [OF doing_inspect] split: option.split
      dest!: find_node_fleet inspect_looking)

lemma harmless_plan: "harmless (looking_in config) (cmd_plan_upgrade config pol name version)"
  unfolding cmd_plan_upgrade_def Let_def by (intro harmless_config harmless_ret)

lemma harmless_vote: "harmless (looking_in config) (cmd_vote_status E config name)"
  unfolding cmd_vote_status_def Let_def
  by (intro harmless_config harmless_then_ret harmless_quiet [OF adds_vote_status])

lemma harmless_cmd_validate: "harmless (looking_in config) (cmd_validate E getenv config pol json)"
  unfolding cmd_validate_def looking_in_def
  by (auto simp: harmless_ret intro!: harmless_then_ret harmless_validate split: sum.split)

lemma harmless_cmd_restart: "harmless (looking_in config) (cmd_restart E config pol name False)"
  unfolding cmd_restart_def
  by (intro harmless_config harmless_then_ret harmless_restart live.observers_axioms)

lemma harmless_cmd_upgrade: "harmless (looking_in config) (cmd_upgrade E config pol name version False force)"
  unfolding cmd_upgrade_def
  by (intro harmless_config harmless_then_ret harmless_upgrade live.quiet_sampler_axioms)

lemma harmless_cmd_provision:
  "harmless (looking_in config) (cmd_provision E config name version False devices timeout)"
  unfolding cmd_provision_def
  by (intro harmless_config harmless_then_ret harmless_provision live.quiet_sampler_axioms)

lemma harmless_cmd_bootstrap: "harmless (looking_in config) (cmd_bootstrap_builder E config name False)"
  unfolding cmd_bootstrap_builder_def
  by (intro harmless_config harmless_then_ret harmless_bootstrap)

lemmas harmless_commands = harmless_status harmless_inspect harmless_plan harmless_vote
  harmless_cmd_validate harmless_cmd_restart harmless_cmd_upgrade harmless_cmd_provision
  harmless_cmd_bootstrap harmless_with_policy

lemma quiet_refresh: "adds is_rpc_event (refresh S config)"
  unfolding refresh_def by (intro adds_bind adds_probe_fleet adds_lift) (auto simp: adds_def)

lemma watch_status_quiet_raw:
  "watch_status S config interval out w = Some y \<Longrightarrow>
   \<exists>es. trace (snd y) = trace w @ es \<and> commands es = []"
proof (induction rule: watch_status.raw_induct [rotated, consumes 1, case_names step])
  case (step loop S config interval out w y)
  obtain res w1 where r: "refresh S config w = (res, w1)" by fastforce
  from addsE [OF quiet_refresh r] obtain es where es: "trace w1 = trace w @ es" "list_all is_rpc_event es" by blast
  then have c: "commands es = []"
    by (intro commands_quiet) (auto simp: list_all_iff is_quiet_def is_rpc_event_def split: event.splits)
  show ?case
  proof (cases res)
    case (Inl e)
    with step(2) r es c show ?thesis by auto
  next
    case (Inr table)
    let ?w2 = "w1\<lparr>trace := trace w1 @ [Slept interval]\<rparr>"
    let ?out = "out @ [PrintScreen (st_now S (trace w1)) interval table]"
    have "y = (Inl (ValueError ''sleep length must be non-negative''), w1) \<or> y = (Inr (0, ?out), ?w2) \<or>
        loop S config interval ?out ?w2 = Some y"
      using step(2) by (cases "interval < 0"; cases "st_interrupted S (trace ?w2)") (simp_all add: r Inr Let_def)
    then consider "y = (Inl (ValueError ''sleep length must be non-negative''), w1)"
      | "y = (Inr (0, ?out), ?w2)" | "loop S config interval ?out ?w2 = Some y" by blast
    then show ?thesis
    proof cases
      case 3
      from step(1) [OF 3] obtain es2 where "trace (snd y) = trace ?w2 @ es2" "commands es2 = []" by blast
      with es c show ?thesis by (intro exI [of _ "es @ [Slept interval] @ es2"]) simp
    qed (use es c in auto)
  qed
qed

context dns_driver begin

lemma untouched_cmd_dns:
  assumes "ok (fst s)" and "\<not> confirmed (DnsPools args)" and "fl_dns f = Some dns" and "driver dns = Inr ops"
    and run: "cmd_dns (Inr f) driver args s = (res, s')"
  shows "untouched s s'"
proof (cases args)
  case (DnsStatusArgs rec)
  obtain r d where st: "dns_status f ops rec (fst s) = (r, d)" by fastforce
  with run assms(3,4) DnsStatusArgs have "s' = (d, snd s)" by (cases r) (auto simp: cmd_dns_def)
  with untouched_status [OF assms(1) st, of "snd s"] show ?thesis by simp
next
  case (DnsEjectArgs name rec confirm)
  obtain r s1 where o: "dns_override f ops name Eject rec confirm s = (r, s1)" by (meson surj_pair)
  with run assms(3,4) DnsEjectArgs have "s' = s1" by (cases r) (auto simp: cmd_dns_def dns_eject_def)
  with untouched_override [OF assms(1)] o assms(2) DnsEjectArgs show ?thesis by simp
next
  case (DnsRestoreArgs name rec confirm)
  obtain r s1 where o: "dns_override f ops name Restore rec confirm s = (r, s1)" by (meson surj_pair)
  with run assms(3,4) DnsRestoreArgs have "s' = s1" by (cases r) (auto simp: cmd_dns_def dns_restore_def)
  with untouched_override [OF assms(1)] o assms(2) DnsRestoreArgs show ?thesis by simp
qed

lemma untouched_cmd_watch:
  assumes "ok (fst s)" and "fl_dns f = Some dns" and "driver dns = Inr ops"
    and run: "cmd_watch (Inr f) driver prober once interval True s = Some (res, s')"
  shows "untouched s s'"
proof (cases once)
  case True
  obtain r s1 where w: "watch_once f ops True (prober 0) s = (r, s1)" by (meson surj_pair)
  with run assms(2,3) True have "s' = s1" by (cases r) (auto simp: cmd_watch_def)
  with untouched_round [OF assms(1) w] show ?thesis by simp
next
  case False
  with run assms(2,3) obtain r out where w: "watch_loop f ops prober interval None True 0 [] s = Some (r, out, s')"
    by (auto simp: cmd_watch_def split: option.splits sum.splits)
  from untouched_loop [OF w] assms(1) show ?thesis by simp
qed

end

text \<open>The calls that change something: the confirmed ones, and the failover loop that acts\<close>

fun acting :: "command \<Rightarrow> bool" where
  "acting (WatchPools once interval dry_run) = (\<not> dry_run)"
| "acting c = confirmed c"

lemma cmd_dns_quiet:
  assumes driver: "\<And>dns ops. driver dns = Inr ops \<Longrightarrow> dns_driver ops members marked ok"
    and "ok d" and "\<not> confirmed (DnsPools args)" and run: "cmd_dns config driver args (d, al) = (r, st')"
  shows "ok (fst st') \<and> members (fst st') = members d \<and> marked (fst st') = marked d \<and> rel_option dry_records al (snd st')"
proof (cases "\<exists>f dns ops. config = Inr f \<and> fl_dns f = Some dns \<and> driver dns = Inr ops")
  case False
  with run have "st' = (d, al)" by (auto simp: cmd_dns_def split: sum.splits option.splits)
  with assms(2) show ?thesis by (simp add: rel_dry_refl)
next
  case True
  then obtain f dns ops where c: "config = Inr f" "fl_dns f = Some dns" "driver dns = Inr ops" by blast
  note drv = driver [OF c(3)]
  from dns_driver.untouched_cmd_dns [where s = "(d, al)", OF drv _ assms(3) c(2,3) run [unfolded c(1)]] assms(2)
  show ?thesis by (simp add: dns_driver.untouched_def [OF drv])
qed

lemma cmd_watch_quiet:
  assumes driver: "\<And>dns ops. driver dns = Inr ops \<Longrightarrow> dns_driver ops members marked ok"
    and "ok d" and run: "cmd_watch config driver prober once interval True (d, al) = Some (r, st')"
  shows "ok (fst st') \<and> members (fst st') = members d \<and> marked (fst st') = marked d \<and> rel_option dry_records al (snd st')"
proof (cases "\<exists>f dns ops. config = Inr f \<and> fl_dns f = Some dns \<and> driver dns = Inr ops")
  case False
  with run have "st' = (d, al)" by (auto simp: cmd_watch_def split: sum.splits option.splits)
  with assms(2) show ?thesis by (simp add: rel_dry_refl)
next
  case True
  then obtain f dns ops where c: "config = Inr f" "fl_dns f = Some dns" "driver dns = Inr ops" by blast
  note drv = driver [OF c(3)]
  from dns_driver.untouched_cmd_watch [where s = "(d, al)", OF drv _ c(2,3) run [unfolded c(1)]] assms(2)
  show ?thesis by (simp add: dns_driver.untouched_def [OF drv])
qed

lemma quiet_call:
  assumes driver: "\<And>dns ops. st_driver S dns = Inr ops \<Longrightarrow> dns_driver ops members marked ok"
    and "ok (sys_dns s)" and "\<not> acting c" and run: "run_command S c p s = Some (res, s')"
  shows "ok (sys_dns s') \<and> members (sys_dns s') = members (sys_dns s) \<and> marked (sys_dns s') = marked (sys_dns s) \<and>
    only_looked (st_fleet S (sys_trace s) (path_config p)) s s'"
proof -
  note hosts = on_hosts_only_looked audited_only_looked
  have dns: "?thesis" if "sys_dns s' = sys_dns s \<and> only_looked (st_fleet S (sys_trace s) (path_config p)) s s'" using that assms(2) by simp
  show ?thesis
  proof (cases c)
    case (Status json watch interval)
    show ?thesis
    proof (cases watch)
      case True
      with run Status obtain w where w: "watch_status S (path_config p) interval []
          \<lparr>trace = sys_trace s, audit = None\<rparr> = Some (res, w)" "s' = s\<lparr>sys_trace := trace w\<rparr>"
        by (auto simp: on_hosts_def watch_or_status_def)
      from watch_status_quiet_raw [OF w(1)] w(2) show ?thesis
        by (auto simp: only_looked_def dry_records_refl assms(2))
    next
      case False
      with run Status have "on_hosts (\<lambda>w. Some (cmd_status (st_env S)
          (st_fleet S (sys_trace s) (path_config p)) json w)) s = Some (res, s')"
        by (simp add: on_hosts_def watch_or_status_def)
      then show ?thesis by (intro dns hosts(1) [OF _ harmless_status])
    qed
  next
    case (Validate json)
    let ?c = "st_fleet S (sys_trace s) (path_config p)"
    have "harmless (looking_in ?c) (\<lambda>w. if isl ?c then cmd_validate (st_env S) (st_getenv S) ?c default_policy json w
        else with_policy ?c (st_policy S (sys_trace s) (path_policy p))
          (\<lambda>pol. cmd_validate (st_env S) (st_getenv S) ?c pol json) w)"
      by (cases "isl ?c") (simp_all add: harmless_commands)
    with run Validate show ?thesis by (intro dns hosts(1)) (simp_all add: Let_def)
  next
    case (VoteStatus node)
    with run show ?thesis by (intro dns hosts(1) [OF _ harmless_vote]) simp
  next
    case (Inspect node)
    with run show ?thesis by (intro dns hosts(1) [OF _ harmless_inspect]) simp
  next
    case (PlanUpgrade node version)
    with run show ?thesis by (intro dns hosts(1) [OF _ harmless_with_policy [OF harmless_plan]]) (simp add: Let_def)
  next
    case (Restart node confirm)
    with run assms(3) show ?thesis
      by (intro dns hosts(2) [OF _ harmless_with_policy [OF harmless_cmd_restart]]) (simp add: Let_def)
  next
    case (Bootstrap builder confirm)
    with run assms(3) show ?thesis by (intro dns hosts(2) [OF _ harmless_cmd_bootstrap]) simp
  next
    case (Provision node version confirm devices timeout)
    with run assms(3) show ?thesis
      by (intro dns hosts(2) [OF _ harmless_with_policy [OF harmless_cmd_provision]]) (simp add: Let_def)
  next
    case (Upgrade node version confirm force_build)
    with run assms(3) show ?thesis
      by (intro dns hosts(2) [OF _ harmless_with_policy [OF harmless_cmd_upgrade]]) (simp add: Let_def)
  next
    case (WatchPools once interval dry)
    with assms(3) have dry: dry by simp
    show ?thesis
      using run WatchPools dry cmd_watch_quiet [OF driver assms(2)]
      by (intro dns_only_looked) (auto simp: dry)
  next
    case (DnsPools args)
    show ?thesis
      using run DnsPools assms(3) cmd_dns_quiet [OF driver assms(2)]
      by (intro dns_only_looked) auto
  next
    case (ShowAudit node limit)
    with run assms(2) show ?thesis by (auto simp: only_looked_def dry_records_refl)
  qed
qed

section \<open>Properties\<close>



end
