(* ===== verification/Mcp_Session.thy ===== *)
theory Mcp_Session
  imports Mcp_Server System
begin

text \<open>
  The MCP server as a whole: a call of a tool with its arguments, what it does to the system, and a
  session of calls. What a session without a confirmation can do.
\<close>

section \<open>Calls of tools\<close>

text \<open>
  A parameter with a default is an option, \<open>None\<close> when the client did not pass it. The MCP library
  has checked the arguments against the types the tools declare.
\<close>

datatype tool_call =
    FleetStatus
  | NodeDetail string
  | VersionDrift
  | VoteOf string
  | LeaderSchedule string "int option"
  | ValidateFleet
  | PlanNodeUpgrade string string
  | RestartTool string "bool option"
  | BootstrapTool string "bool option"
  | ProvisionTool string string "bool option" "string list option" "int option"
  | UpgradeTool string string "bool option"
  | PoolStatus "string option"
  | PoolEject string "string option" "bool option"
  | PoolRestore string "string option" "bool option"
  | AuditEntries "string option" "int option"

definition given :: "'a \<Rightarrow> 'a option \<Rightarrow> 'a" where
  "given d x = (case x of None \<Rightarrow> d | Some v \<Rightarrow> v)"

text \<open>
  One call: the configuration and the policy are read first, at their default places, and the audit
  log is the default one.
\<close>

fun serve :: "'d setting \<Rightarrow> tool_call \<Rightarrow> 'd system \<Rightarrow> (json, 'd) ending" where
  "serve S FleetStatus s =
     on_hosts (\<lambda>w. Some (tool_fleet_status (st_env S) (st_fleet S (sys_trace s) None) w)) s"
| "serve S (NodeDetail name) s =
     on_hosts (\<lambda>w. Some (tool_node_detail (st_env S) (st_fleet S (sys_trace s) None) name w)) s"
| "serve S VersionDrift s =
     on_hosts (\<lambda>w. Some (tool_version_drift (st_env S) (st_fleet S (sys_trace s) None) w)) s"
| "serve S (VoteOf name) s =
     on_hosts (\<lambda>w. Some (tool_vote_status (st_env S) (st_fleet S (sys_trace s) None) name w)) s"
| "serve S (LeaderSchedule name minutes) s =
     on_hosts (\<lambda>w. Some (tool_leader_schedule (st_env S) (st_fleet S (sys_trace s) None) name
       (given 5 minutes) w)) s"
| "serve S ValidateFleet s =
     (let config = st_fleet S (sys_trace s) None
      in on_hosts (\<lambda>w. Some (with_policy config (st_policy S (sys_trace s) None)
           (\<lambda>pol. tool_validate (st_env S) (st_getenv S) config pol) w)) s)"
| "serve S (PlanNodeUpgrade name version) s =
     (let config = st_fleet S (sys_trace s) None
      in on_hosts (\<lambda>w. Some (with_policy config (st_policy S (sys_trace s) None)
           (\<lambda>pol. tool_plan_node_upgrade config pol name version) w)) s)"
| "serve S (RestartTool name confirm) s =
     (let config = st_fleet S (sys_trace s) None
      in audited_on_hosts default_db (with_policy config (st_policy S (sys_trace s) None)
           (\<lambda>pol. tool_restart (st_env S) config pol name (given False confirm))) s)"
| "serve S (BootstrapTool builder confirm) s =
     audited_on_hosts default_db (tool_bootstrap_builder_host (st_env S)
       (st_fleet S (sys_trace s) None) builder (given False confirm)) s"
| "serve S (ProvisionTool name version confirm devices timeout) s =
     (let config = st_fleet S (sys_trace s) None
      in audited_on_hosts default_db (with_policy config (st_policy S (sys_trace s) None)
           (\<lambda>pol. tool_provision (st_env S) config name version (given False confirm)
              (given [] devices) (given 1800 timeout))) s)"
| "serve S (UpgradeTool name version confirm) s =
     (let config = st_fleet S (sys_trace s) None
      in audited_on_hosts default_db (with_policy config (st_policy S (sys_trace s) None)
           (\<lambda>pol. tool_upgrade (st_env S) config pol name version (given False confirm))) s)"
| "serve S (PoolStatus rec) s =
     on_dns default_db (\<lambda>st. Some (tool_dns_pool_status (st_fleet S (sys_trace s) None) (st_driver S)
       rec st)) s"
| "serve S (PoolEject name rec confirm) s =
     on_dns default_db (\<lambda>st. Some (tool_dns_pool_eject (st_fleet S (sys_trace s) None) (st_driver S)
       name rec (given False confirm) st)) s"
| "serve S (PoolRestore name rec confirm) s =
     on_dns default_db (\<lambda>st. Some (tool_dns_pool_restore (st_fleet S (sys_trace s) None) (st_driver S)
       name rec (given False confirm) st)) s"
| "serve S (AuditEntries name limit) s =
     Some (Inr (tool_audit_log (sys_dbs s default_db) name (given 20 limit)), s)"

text \<open>A session: calls one after the other, with their answers\<close>

fun session :: "'d setting \<Rightarrow> tool_call list \<Rightarrow> 'd system \<Rightarrow> ((exn + json) list \<times> 'd system) option" where
  "session S [] s = Some ([], s)"
| "session S (t # ts) s =
     (case serve S t s of
        None \<Rightarrow> None
      | Some (a, s1) \<Rightarrow>
          (case session S ts s1 of None \<Rightarrow> None | Some (as, s2) \<Rightarrow> Some (a # as, s2)))"

fun asks_to_act :: "tool_call \<Rightarrow> bool" where
  "asks_to_act (RestartTool name confirm) = (confirm = Some True)"
| "asks_to_act (BootstrapTool builder confirm) = (confirm = Some True)"
| "asks_to_act (ProvisionTool name version confirm devices timeout) = (confirm = Some True)"
| "asks_to_act (UpgradeTool name version confirm) = (confirm = Some True)"
| "asks_to_act (PoolEject name rec confirm) = (confirm = Some True)"
| "asks_to_act (PoolRestore name rec confirm) = (confirm = Some True)"
| "asks_to_act _ = False"

lemma given_False: "given False x \<longleftrightarrow> x = Some True"
  by (cases x) (auto simp: given_def)

section \<open>A call without a confirmation\<close>

lemma serve_returns: "\<exists>a s'. serve S t s = Some (a, s')"
  by (cases t) (auto simp: on_hosts_def audited_on_hosts_def on_dns_def Let_def split: prod.splits option.splits)

lemma tools_looking:
  "harmless (looking_in config) (tool_fleet_status E config)"
  "harmless (looking_in config) (tool_version_drift E config)"
  "harmless (looking_in config) (tool_vote_status E config name)"
  "harmless (looking_in config) (tool_validate E getenv config pol)"
  unfolding tool_fleet_status_def tool_version_drift_def tool_vote_status_def tool_validate_def
  by (intro harmless_config harmless_then_ret harmless_quiet [OF adds_probe_fleet]
      harmless_quiet [OF adds_vote_status] harmless_validate)+

lemma node_tools_looking:
  "harmless (looking_in config) (tool_plan_node_upgrade config pol name version)"
  "harmless (looking_in config) (tool_node_detail E config name)"
  unfolding tool_plan_node_upgrade_def tool_node_detail_def
   apply (intro harmless_config harmless_ret)
  apply (rule harmless_config)
  apply (auto intro: harmless_ret harmless_then_ret harmless_quiet [OF adds_probe_fleet] split: option.split)
  done

lemma tools_dry:
  "harmless (looking_in config) (tool_restart E config pol name False)"
  "harmless (looking_in config) (tool_bootstrap_builder_host E config builder False)"
  "harmless (looking_in config) (tool_provision E config name version False devices timeout)"
  "harmless (looking_in config) (tool_upgrade E config pol name version False)"
  unfolding tool_restart_def tool_bootstrap_builder_host_def tool_provision_def tool_upgrade_def
  by (intro harmless_config harmless_then_ret harmless_restart harmless_bootstrap harmless_provision
      harmless_upgrade live.observers_axioms live.quiet_sampler_axioms)+

lemma leader_looking: "harmless (looking_in config) (tool_leader_schedule E config name minutes)"
proof -
  have "adds is_rpc_event (catch (bind_io (leader_windows E (cl_reference_rpc c) who minutes)
      (\<lambda>l. ret (leader_json l))) (\<lambda>e. if is_leader_failure e
         then Some (ret (error_json (''leader schedule unavailable: '' @ exn_text E e))) else None))" for c who
    by (intro frame_rules adds_leader_windows) (auto intro!: adds_ret split: if_splits)
  then show ?thesis
    unfolding tool_leader_schedule_def
    by (intro harmless_config) (auto intro: harmless_ret harmless_quiet split: option.split)
qed

text \<open>The DNS tools keep the records, on a driver that keeps the contract\<close>

lemma with_pools_untouched:
  assumes driver: "\<And>dns ops. driver dns = Inr ops \<Longrightarrow> dns_driver ops members marked ok"
    and "ok d" and run: "with_pools config driver k (d, al) = (r, st')"
    and k: "\<And>f dns ops r st'. driver dns = Inr ops \<Longrightarrow> k f ops (d, al) = (r, st') \<Longrightarrow>
      dns_driver.untouched members marked ok (d, al) st'"
  shows "ok (fst st') \<and> members (fst st') = members d \<and> marked (fst st') = marked d \<and> rel_option dry_records al (snd st')"
proof (cases "\<exists>f dns ops. config = Inr f \<and> fl_dns f = Some dns \<and> driver dns = Inr ops")
  case False
  with run have "st' = (d, al)" by (auto simp: with_pools_def split: sum.splits option.splits)
  with assms(2) show ?thesis by (simp add: rel_dry_refl)
next
  case True
  then obtain f dns ops where c: "config = Inr f" "fl_dns f = Some dns" "driver dns = Inr ops" by blast
  with run have "k f ops (d, al) = (r, st')" by (simp add: with_pools_def)
  from k [OF c(3) this] show ?thesis by (simp add: dns_driver.untouched_def [OF driver [OF c(3)]])
qed

context dns_driver begin

lemma untouched_tool_status:
  assumes "ok d" and "(case dns_status f ops rec d of
      (Inl e, d1) \<Rightarrow> (Inl e, d1, al) | (Inr st, d1) \<Rightarrow> (Inr (dns_status_json st), d1, al)) = (r, st')"
  shows "untouched (d, al) st'"
proof -
  obtain r1 d1 where s: "dns_status f ops rec d = (r1, d1)" by fastforce
  with assms(2) have "st' = (d1, al)" by (cases r1) auto
  with untouched_status [OF assms(1) s] show ?thesis by simp
qed

lemma untouched_tool_override:
  assumes "ok (fst s)" and "(case dns_override f ops name a rec False s of
      (Inl e, s1) \<Rightarrow> (Inl e, s1) | (Inr x, s1) \<Rightarrow> (Inr (override_result_json x), s1)) = (r, st')"
  shows "untouched s st'"
proof -
  obtain r1 s1 where o: "dns_override f ops name a rec False s = (r1, s1)" by (meson surj_pair)
  with assms(2) have "st' = s1" by (cases r1) auto
  with untouched_override [OF assms(1) o] show ?thesis by simp
qed

end

lemma pool_tools_untouched:
  assumes driver: "\<And>dns ops. driver dns = Inr ops \<Longrightarrow> dns_driver ops members marked ok" and "ok d"
  shows "tool_dns_pool_status config driver rec (d, al) = (r, st') \<Longrightarrow>
      ok (fst st') \<and> members (fst st') = members d \<and> marked (fst st') = marked d \<and> rel_option dry_records al (snd st')"
    and "tool_dns_pool_eject config driver name rec False (d, al) = (r, st') \<Longrightarrow>
      ok (fst st') \<and> members (fst st') = members d \<and> marked (fst st') = marked d \<and> rel_option dry_records al (snd st')"
    and "tool_dns_pool_restore config driver name rec False (d, al) = (r, st') \<Longrightarrow>
      ok (fst st') \<and> members (fst st') = members d \<and> marked (fst st') = marked d \<and> rel_option dry_records al (snd st')"
proof -
  note pools = with_pools_untouched [where driver = driver and ok = ok, OF driver assms(2)]
  have st: "dns_driver.untouched members marked ok (d, al) s1"
    if "driver dns = Inr ops" and "(case (d, al) of (d, al) \<Rightarrow> case dns_status f ops rec d of
      (Inl e, d1) \<Rightarrow> (Inl e, d1, al) | (Inr st, d1) \<Rightarrow> (Inr (dns_status_json st), d1, al)) = (r1, s1)"
    for dns ops f r1 s1
    using dns_driver.untouched_tool_status [OF driver [OF that(1)] assms(2)] that(2) by simp
  have ov: "dns_driver.untouched members marked ok (d, al) s1"
    if "driver dns = Inr ops" and "(case dns_override f ops name a rec False (d, al) of
      (Inl e, s1) \<Rightarrow> (Inl e, s1) | (Inr x, s1) \<Rightarrow> (Inr (override_result_json x), s1)) = (r1, s1)"
    for dns ops f a r1 s1
    using dns_driver.untouched_tool_override [OF driver [OF that(1)] _ that(2)] assms(2) by simp
  show "tool_dns_pool_status config driver rec (d, al) = (r, st') \<Longrightarrow>
      ok (fst st') \<and> members (fst st') = members d \<and> marked (fst st') = marked d \<and> rel_option dry_records al (snd st')"
    unfolding tool_dns_pool_status_def by (rule pools [OF _ _ st])
  show "tool_dns_pool_eject config driver name rec False (d, al) = (r, st') \<Longrightarrow>
      ok (fst st') \<and> members (fst st') = members d \<and> marked (fst st') = marked d \<and> rel_option dry_records al (snd st')"
    unfolding tool_dns_pool_eject_def dns_eject_def by (rule pools [OF _ _ ov])
  show "tool_dns_pool_restore config driver name rec False (d, al) = (r, st') \<Longrightarrow>
      ok (fst st') \<and> members (fst st') = members d \<and> marked (fst st') = marked d \<and> rel_option dry_records al (snd st')"
    unfolding tool_dns_pool_restore_def dns_restore_def by (rule pools [OF _ _ ov])
qed

section \<open>A session without a confirmation\<close>

lemma quiet_serve:
  assumes driver: "\<And>dns ops. st_driver S dns = Inr ops \<Longrightarrow> dns_driver ops members marked ok"
    and "ok (sys_dns s)" and "\<not> asks_to_act t" and run: "serve S t s = Some (a, s')"
  shows "ok (sys_dns s') \<and> members (sys_dns s') = members (sys_dns s) \<and> marked (sys_dns s') = marked (sys_dns s) \<and>
    only_looked (st_fleet S (sys_trace s) None) s s'"
proof -
  note hosts = on_hosts_only_looked audited_only_looked
  note pools = pool_tools_untouched [where driver = "st_driver S" and ok = ok, OF driver assms(2)]
  have dns: "?thesis" if "sys_dns s' = sys_dns s \<and> only_looked (st_fleet S (sys_trace s) None) s s'"
    using that assms(2) by simp
  show ?thesis
  proof (cases t)
    case FleetStatus
    with run show ?thesis by (intro dns hosts(1) [OF _ tools_looking(1)]) simp
  next
    case (NodeDetail name)
    with run show ?thesis by (intro dns hosts(1) [OF _ node_tools_looking(2)]) simp
  next
    case VersionDrift
    with run show ?thesis by (intro dns hosts(1) [OF _ tools_looking(2)]) simp
  next
    case (VoteOf name)
    with run show ?thesis by (intro dns hosts(1) [OF _ tools_looking(3)]) simp
  next
    case (LeaderSchedule name minutes)
    with run show ?thesis by (intro dns hosts(1) [OF _ leader_looking]) simp
  next
    case ValidateFleet
    with run show ?thesis
      by (intro dns hosts(1) [OF _ harmless_with_policy [OF tools_looking(4)]]) (simp add: Let_def)
  next
    case (PlanNodeUpgrade name version)
    with run show ?thesis
      by (intro dns hosts(1) [OF _ harmless_with_policy [OF node_tools_looking(1)]]) (simp add: Let_def)
  next
    case (RestartTool name confirm)
    with run assms(3) show ?thesis
      by (intro dns hosts(2) [OF _ harmless_with_policy [OF tools_dry(1)]]) (simp add: Let_def given_False)
  next
    case (BootstrapTool builder confirm)
    with run assms(3) show ?thesis
      by (intro dns hosts(2) [OF _ tools_dry(2)]) (simp add: given_False)
  next
    case (ProvisionTool name version confirm devices timeout)
    with run assms(3) show ?thesis
      by (intro dns hosts(2) [OF _ harmless_with_policy [OF tools_dry(3)]]) (simp add: Let_def given_False)
  next
    case (UpgradeTool name version confirm)
    with run assms(3) show ?thesis
      by (intro dns hosts(2) [OF _ harmless_with_policy [OF tools_dry(4)]]) (simp add: Let_def given_False)
  next
    case (PoolStatus rec)
    with run show ?thesis by (intro dns_only_looked pools(1)) auto
  next
    case (PoolEject name rec confirm)
    with run assms(3) show ?thesis by (intro dns_only_looked pools(2)) (auto simp: given_False)
  next
    case (PoolRestore name rec confirm)
    with run assms(3) show ?thesis by (intro dns_only_looked pools(3)) (auto simp: given_False)
  next
    case (AuditEntries name limit)
    with run assms(2) show ?thesis by (auto simp: only_looked_def dry_records_refl)
  qed
qed

text \<open>
  Where the commands of a session come from: each looks at a node or builder of the configuration
  that was in force when the command was run
\<close>

definition looked_at :: "'d setting \<Rightarrow> event list \<Rightarrow> event list \<Rightarrow> bool" where
  "looked_at S before es \<longleftrightarrow> (\<forall>argv \<in> set (commands es). \<exists>t f. prefix t es \<and>
     st_fleet S (before @ t) None = Inr f \<and> argv \<in> looking f)"

lemma looked_at_append:
  assumes "looked_at S b es1" and "looked_at S (b @ es1) es2"
  shows "looked_at S b (es1 @ es2)"
  unfolding looked_at_def
proof
  fix argv assume "argv \<in> set (commands (es1 @ es2))"
  then consider "argv \<in> set (commands es1)" | "argv \<in> set (commands es2)" by auto
  then show "\<exists>t f. prefix t (es1 @ es2) \<and> st_fleet S (b @ t) None = Inr f \<and> argv \<in> looking f"
  proof cases
    case 1
    with assms(1) show ?thesis unfolding looked_at_def by (meson prefix_prefix)
  next
    case 2
    with assms(2) obtain t f where "prefix t es2" "st_fleet S ((b @ es1) @ t) None = Inr f" "argv \<in> looking f"
      unfolding looked_at_def by blast
    then show ?thesis by (intro exI [of _ "es1 @ t"] exI [of _ f]) simp
  qed
qed

lemma only_looked_at:
  assumes "only_looked (st_fleet S (sys_trace s) None) s s'"
  obtains es where "sys_trace s' = sys_trace s @ es" "looked_at S (sys_trace s) es"
    "\<And>path. dry_records (sys_dbs s path) (sys_dbs s' path)"
proof -
  from assms obtain es where es: "sys_trace s' = sys_trace s @ es"
    "set (commands es) \<subseteq> looking_in (st_fleet S (sys_trace s) None)"
    "\<And>path. dry_records (sys_dbs s path) (sys_dbs s' path)" unfolding only_looked_def by blast
  have "looked_at S (sys_trace s) es"
    unfolding looked_at_def using es(2)
    by (auto simp: looking_in_def intro!: exI [of _ "[]"] split: sum.splits)
  with es that show thesis by blast
qed

lemma quiet_session:
  assumes driver: "\<forall>dns ops. st_driver S dns = Inr ops \<longrightarrow> dns_driver ops members marked ok"
  shows "ok (sys_dns s) \<Longrightarrow> list_all (\<lambda>t. \<not> asks_to_act t) ts \<Longrightarrow>
    \<exists>answers s' es. session S ts s = Some (answers, s') \<and> list_all2 (\<lambda>_ _. True) ts answers \<and>
      members (sys_dns s') = members (sys_dns s) \<and> marked (sys_dns s') = marked (sys_dns s) \<and>
      (\<forall>path. dry_records (sys_dbs s path) (sys_dbs s' path)) \<and>
      sys_trace s' = sys_trace s @ es \<and> looked_at S (sys_trace s) es"
proof (induction ts arbitrary: s)
  case Nil
  show ?case by (auto simp: dry_records_refl looked_at_def)
next
  case (Cons t ts)
  obtain a s1 where t: "serve S t s = Some (a, s1)" using serve_returns by blast
  have q: "ok (sys_dns s1) \<and> members (sys_dns s1) = members (sys_dns s) \<and>
      marked (sys_dns s1) = marked (sys_dns s) \<and> only_looked (st_fleet S (sys_trace s) None) s s1"
    using quiet_serve [of S members marked ok s t a s1, OF _ _ _ t] driver Cons.prems by simp
  then obtain es1 where es1: "sys_trace s1 = sys_trace s @ es1" "looked_at S (sys_trace s) es1"
    "\<And>path. dry_records (sys_dbs s path) (sys_dbs s1 path)" by (elim conjE only_looked_at) blast
  from Cons.IH [of s1] q Cons.prems(2) obtain answers s2 es2 where
    r: "session S ts s1 = Some (answers, s2)" "list_all2 (\<lambda>_ _. True) ts answers"
      "members (sys_dns s2) = members (sys_dns s1)" "marked (sys_dns s2) = marked (sys_dns s1)"
      "\<And>path. dry_records (sys_dbs s1 path) (sys_dbs s2 path)"
      "sys_trace s2 = sys_trace s1 @ es2" "looked_at S (sys_trace s1) es2" by auto
  show ?case
    using t r q es1 looked_at_append [OF es1(2) r(7) [unfolded es1(1)]]
    by (intro exI [of _ "a # answers"] exI [of _ s2] exI [of _ "es1 @ es2"])
      (auto intro: dry_records_trans)
qed

section \<open>Properties\<close>

text \<open>
  C6. No session of the MCP server acts by accident: however long it is and whatever the tools
  answer, every call is answered, and when no call passes \<open>confirm=true\<close> the DNS records and the
  markers are what they were, the audit databases got only entries of dry runs, and every command
  run on a host looks at a node or a builder of the configuration in force.
\<close>

theorem unconfirmed_session_changes_nothing:
  assumes "\<forall>dns ops. st_driver S dns = Inr ops \<longrightarrow> dns_driver ops members marked ok"
    and "ok (sys_dns s)"
    and "list_all (\<lambda>t. \<not> asks_to_act t) calls"
  shows "\<exists>answers s' es. session S calls s = Some (answers, s') \<and> length answers = length calls \<and>
    members (sys_dns s') = members (sys_dns s) \<and> marked (sys_dns s') = marked (sys_dns s) \<and>
    (\<forall>path. \<exists>new. audit_entries (sys_dbs s' path) = audit_entries (sys_dbs s path) @ new \<and>
       list_all (\<lambda>e. en_mode e = ''dry-run'') new) \<and>
    sys_trace s' = sys_trace s @ es \<and>
    (\<forall>argv \<in> set (commands es). \<exists>t f. prefix t es \<and> st_fleet S (sys_trace s @ t) None = Inr f \<and>
       argv \<in> looking f)"
proof -
  from quiet_session [OF assms] obtain answers s' es where
    "session S calls s = Some (answers, s')" "list_all2 (\<lambda>_ _. True) calls answers"
      "members (sys_dns s') = members (sys_dns s)" "marked (sys_dns s') = marked (sys_dns s)"
      "\<And>path. dry_records (sys_dbs s path) (sys_dbs s' path)"
      "sys_trace s' = sys_trace s @ es" "looked_at S (sys_trace s) es" by blast
  then show ?thesis
    by (intro exI [of _ answers] exI [of _ s'] exI [of _ es])
      (auto simp: looked_at_def dry_records_def dest: list_all2_lengthD)
qed

theorem unconfirmed_session_changes_nothing_witness:
  "\<exists>answers s'. session sample_setting
      [PoolEject ''rpc1'' None None, RestartTool ''rpc2'' (Some False), ValidateFleet] sample_system =
        Some (answers, s') \<and> length answers = 3 \<and> im_get (sys_dns s') = im_get serving_rpc1"
proof -
  have d: "\<forall>dns ops. st_driver sample_setting dns = Inr ops \<longrightarrow> dns_driver ops im_get im_markers inmem_ok"
    using inmem.dns_driver_axioms sample_driver by blast
  have ok: "inmem_ok (sys_dns sample_system)" by (simp add: sample_system_def serving_rpc1_ok)
  have quiet: "list_all (\<lambda>t. \<not> asks_to_act t)
      [PoolEject ''rpc1'' None None, RestartTool ''rpc2'' (Some False), ValidateFleet]" by simp
  have sys: "sys_dns sample_system = serving_rpc1" by (simp add: sample_system_def)
  from unconfirmed_session_changes_nothing [OF d ok quiet] obtain answers s' where
    "session sample_setting [PoolEject ''rpc1'' None None, RestartTool ''rpc2'' (Some False), ValidateFleet]
        sample_system = Some (answers, s')"
      "length answers = length [PoolEject ''rpc1'' None None, RestartTool ''rpc2'' (Some False), ValidateFleet]"
      "im_get (sys_dns s') = im_get (sys_dns sample_system)" by blast
  then show ?thesis unfolding sys by (intro exI [of _ answers] exI [of _ s']) (simp only: list.size, simp)
qed

end
