(* ===== verification/Fronts.thy ===== *)
theory Fronts
  imports Cli_Main Mcp_Session
begin

text \<open>
  The two fronts of the program, the command line and the MCP server, against each other: a command
  and the tool for the same request do the same to the system, and the command prints the answer of
  the tool. What the command adds is the exit code, which is a function of the answer.
\<close>

section \<open>The same request\<close>

text \<open>The tool for a command; the table of the status, the build by force and the loop have none\<close>

fun tool_of :: "command \<Rightarrow> tool_call option" where
  "tool_of (Validate json) = (if json then Some ValidateFleet else None)"
| "tool_of (VoteStatus node) = Some (VoteOf node)"
| "tool_of (PlanUpgrade node version) = Some (PlanNodeUpgrade node version)"
| "tool_of (Restart node confirm) = Some (RestartTool node (Some confirm))"
| "tool_of (Bootstrap builder confirm) = Some (BootstrapTool builder (Some confirm))"
| "tool_of (Provision node version confirm devices timeout) =
     Some (ProvisionTool node version (Some confirm) (Some devices) (Some timeout))"
| "tool_of (Upgrade node version confirm force_build) =
     (if force_build then None else Some (UpgradeTool node version (Some confirm)))"
| "tool_of (DnsPools (DnsStatusArgs rec)) = Some (PoolStatus rec)"
| "tool_of (DnsPools (DnsEjectArgs node rec confirm)) = Some (PoolEject node rec (Some confirm))"
| "tool_of (DnsPools (DnsRestoreArgs node rec confirm)) = Some (PoolRestore node rec (Some confirm))"
| "tool_of (ShowAudit node limit) = Some (AuditEntries node (Some limit))"
| "tool_of _ = None"

text \<open>The exit code for an answer\<close>

fun code_for :: "command \<Rightarrow> json \<Rightarrow> int" where
  "code_for (Validate json) j = (if got ''ok'' j = JBool True then 0 else 1)"
| "code_for (VoteStatus node) j = (if has_key ''error'' j then 2
     else if got ''voting'' j = JBool False \<or> got ''low_balance'' j = JBool True then 1 else 0)"
| "code_for (PlanUpgrade node version) j = (if has_key ''error'' j then 2
     else if got ''allowed'' (got ''decision'' j) = JBool True then 0 else 1)"
| "code_for (Restart node confirm) j = fst (exit_of_change confirm ''succeeded'' j)"
| "code_for (Bootstrap builder confirm) j = fst (exit_of_change confirm ''ok'' j)"
| "code_for (Provision node version confirm devices timeout) j =
     fst (exit_of_change confirm ''succeeded'' j)"
| "code_for (Upgrade node version confirm force_build) j = fst (exit_of_change confirm ''succeeded'' j)"
| "code_for (DnsPools (DnsStatusArgs rec)) j = 0"
| "code_for (DnsPools args) j = (if has_key ''error'' j then 2 else 0)"
| "code_for _ j = 0"

definition printed_answer :: "command \<Rightarrow> json \<Rightarrow> exit" where
  "printed_answer c j = (code_for c j, [PrintJson j])"

text \<open>The two differ in a configuration that cannot be validated, and in one without pools\<close>

fun same_errors :: "command \<Rightarrow> exn + fleet \<Rightarrow> bool" where
  "same_errors (Validate json) config = (\<not> isl config)"
| "same_errors (DnsPools args) config = (case config of Inl _ \<Rightarrow> True | Inr f \<Rightarrow> fl_dns f \<noteq> None)"
| "same_errors _ config = True"

section \<open>Answers and results\<close>

definition io_image :: "('a \<Rightarrow> 'b) \<Rightarrow> 'a io \<Rightarrow> 'b io" where
  "io_image g m = (\<lambda>w. case m w of (res, w1) \<Rightarrow> (map_sum id g res, w1))"

definition ending_image :: "('a \<Rightarrow> 'b) \<Rightarrow> ('a, 'd) ending \<Rightarrow> ('b, 'd) ending" where
  "ending_image g = map_option (\<lambda>(res, s). (map_sum id g res, s))"

lemma io_image_ret: "io_image g (ret x) = ret (g x)"
  by (simp add: io_image_def ret_def)

lemma io_image_throw: "io_image g (throw e) = throw e"
  by (simp add: io_image_def throw_def)

lemma io_image_bind: "io_image g (bind_io m k) = bind_io m (\<lambda>x. io_image g (k x))"
  by (rule ext) (simp add: io_image_def bind_io_def split: prod.split sum.split)

lemma io_image_policy: "io_image g (with_policy config pol m) = with_policy config pol (\<lambda>p. io_image g (m p))"
  by (simp add: with_policy_def io_image_throw split: sum.split)

lemmas io_image_rules = io_image_bind io_image_ret io_image_policy

lemma on_hosts_image: "on_hosts (\<lambda>w. Some (io_image g m w)) s = ending_image g (on_hosts (\<lambda>w. Some (m w)) s)"
  by (simp add: on_hosts_def ending_image_def io_image_def split: prod.split)

lemma audited_image: "audited_on_hosts path (io_image g m) s = ending_image g (audited_on_hosts path m s)"
  by (simp add: audited_on_hosts_def ending_image_def io_image_def split: prod.split)

lemma on_dns_image:
  "(\<And>st. m st = (case m' st of (res, st') \<Rightarrow> (map_sum id g res, st'))) \<Longrightarrow>
   on_dns path (\<lambda>st. Some (m st)) s = ending_image g (on_dns path (\<lambda>st. Some (m' st)) s)"
  by (simp add: on_dns_def ending_image_def split: prod.split)

section \<open>Commands and tools\<close>

lemma change_image:
  "cmd_restart E config pol name confirm =
     io_image (printed_answer (Restart name confirm)) (tool_restart E config pol name confirm)"
  "cmd_upgrade E config pol name version confirm False =
     io_image (printed_answer (Upgrade name version confirm False))
       (tool_upgrade E config pol name version confirm)"
  "cmd_bootstrap_builder E config builder confirm =
     io_image (printed_answer (Bootstrap builder confirm)) (tool_bootstrap_builder_host E config builder confirm)"
  "cmd_provision E config name version confirm devices timeout =
     io_image (printed_answer (Provision name version confirm devices timeout))
       (tool_provision E config name version confirm devices timeout)"
  by (simp_all add: cmd_restart_def tool_restart_def cmd_upgrade_def tool_upgrade_def
      cmd_bootstrap_builder_def tool_bootstrap_builder_host_def cmd_provision_def tool_provision_def
      io_image_rules printed_answer_def exit_of_change_def)

lemma read_image:
  "cmd_vote_status E config name = io_image (printed_answer (VoteStatus name)) (tool_vote_status E config name)"
  "cmd_plan_upgrade config pol name version =
     io_image (printed_answer (PlanUpgrade name version)) (tool_plan_node_upgrade config pol name version)"
  "\<not> isl config \<Longrightarrow> cmd_validate E getenv config pol True =
     io_image (printed_answer (Validate True)) (tool_validate E getenv config pol)"
  by (auto simp: cmd_vote_status_def tool_vote_status_def cmd_plan_upgrade_def tool_plan_node_upgrade_def
      cmd_validate_def tool_validate_def io_image_rules printed_answer_def Let_def lift_Inr_bind
      validation_json_def got_def split: sum.split)

lemma dns_image:
  assumes "same_errors (DnsPools args) config"
  shows "cmd_dns config driver (DnsStatusArgs rec) st = (case tool_dns_pool_status config driver rec st of
      (res, st') \<Rightarrow> (map_sum id (printed_answer (DnsPools (DnsStatusArgs rec))) res, st'))"
    and "cmd_dns config driver (DnsEjectArgs name rec confirm) st =
      (case tool_dns_pool_eject config driver name rec confirm st of
         (res, st') \<Rightarrow> (map_sum id (printed_answer (DnsPools (DnsEjectArgs name rec confirm))) res, st'))"
    and "cmd_dns config driver (DnsRestoreArgs name rec confirm) st =
      (case tool_dns_pool_restore config driver name rec confirm st of
         (res, st') \<Rightarrow> (map_sum id (printed_answer (DnsPools (DnsRestoreArgs name rec confirm))) res, st'))"
  using assms
  by (auto simp: cmd_dns_def tool_dns_pool_status_def tool_dns_pool_eject_def tool_dns_pool_restore_def
      with_pools_def printed_answer_def exit_of_override_def Let_def split: sum.split option.split prod.split)

section \<open>Properties\<close>

text \<open>
  C19. The two fronts agree: at the default paths a command does to the hosts, the audit database and
  the DNS records exactly what the tool for the same request does, ends with the same exception if
  there is one, and otherwise prints the tool's answer, with an exit code that is a function of the
  answer. It holds for every command that has a tool, except that \<open>validate\<close> reports a configuration
  it cannot read and \<open>dns\<close> a configuration without pools in their own way.
\<close>

theorem fronts_agree:
  assumes "tool_of c = Some t" and "same_errors c (st_fleet S (sys_trace s) None)"
  shows "run_command S c \<lparr>path_config = None, path_policy = None, path_audit = None\<rparr> s =
    map_option (\<lambda>(res, s'). (map_sum id (\<lambda>j. (code_for c j, [PrintJson j])) res, s')) (serve S t s)"
proof -
  let ?p = "\<lparr>path_config = None, path_policy = None, path_audit = None\<rparr>"
  have path: "audit_path ?p = default_db" by (simp add: audit_path_def)
  have "run_command S c ?p s = ending_image (printed_answer c) (serve S t s)"
  proof (cases c)
    case (DnsPools args)
    note dns = assms(2) [unfolded DnsPools]
    show ?thesis
    proof (cases args)
      case (DnsStatusArgs rec)
      with assms(1) DnsPools have t: "t = PoolStatus rec" by simp
      show ?thesis unfolding DnsPools DnsStatusArgs t
        by (simp add: path) (rule on_dns_image [OF dns_image(1) [OF dns]])
    next
      case (DnsEjectArgs name rec confirm)
      with assms(1) DnsPools have t: "t = PoolEject name rec (Some confirm)" by simp
      show ?thesis unfolding DnsPools DnsEjectArgs t
        by (simp add: path given_def) (rule on_dns_image [OF dns_image(2) [OF dns]])
    next
      case (DnsRestoreArgs name rec confirm)
      with assms(1) DnsPools have t: "t = PoolRestore name rec (Some confirm)" by simp
      show ?thesis unfolding DnsPools DnsRestoreArgs t
        by (simp add: path given_def) (rule on_dns_image [OF dns_image(3) [OF dns]])
    qed
  next
    case (ShowAudit node limit)
    with assms(1) show ?thesis
      by (auto simp: path given_def cmd_audit_def tool_audit_log_def ending_image_def printed_answer_def)
  next
    case (Validate json)
    with assms read_image(3) show ?thesis
      by (auto simp: Let_def io_image_policy [symmetric] on_hosts_image split: if_splits)
  qed (use assms(1) in \<open>auto simp: Let_def path given_def change_image read_image(1,2)
      io_image_policy [symmetric] on_hosts_image audited_image split: if_splits\<close>)
  then show ?thesis by (simp add: ending_image_def printed_answer_def [abs_def])
qed

theorem fronts_agree_witness:
  "\<exists>answer s'. serve sample_setting (PoolEject ''rpc1'' None (Some True)) sample_system = Some (answer, s') \<and>
    run_command sample_setting (DnsPools (DnsEjectArgs ''rpc1'' None True))
      \<lparr>path_config = None, path_policy = None, path_audit = None\<rparr> sample_system =
      Some (map_sum id (\<lambda>j. (if has_key ''error'' j then 2 else 0, [PrintJson j])) answer, s')"
proof -
  obtain answer s' where a:
    "serve sample_setting (PoolEject ''rpc1'' None (Some True)) sample_system = Some (answer, s')"
    using serve_returns by blast
  have t: "tool_of (DnsPools (DnsEjectArgs ''rpc1'' None True)) = Some (PoolEject ''rpc1'' None (Some True))"
    by simp
  have e: "same_errors (DnsPools (DnsEjectArgs ''rpc1'' None True))
      (st_fleet sample_setting (sys_trace sample_system) None)"
    by (simp add: sample_fleet_loaded) (simp add: two_node_fleet_def)
  from fronts_agree [OF t e] have "run_command sample_setting (DnsPools (DnsEjectArgs ''rpc1'' None True))
      \<lparr>path_config = None, path_policy = None, path_audit = None\<rparr> sample_system =
      Some (map_sum id (\<lambda>j. (if has_key ''error'' j then 2 else 0, [PrintJson j])) answer, s')"
    unfolding a option.map prod.case code_for.simps .
  with a show ?thesis by blast
qed

end
