(* ===== verification/Route53_Watch.thy ===== *)
theory Route53_Watch
  imports Route53 Dns_Steps
begin

text \<open>
  The Route53 driver under the failover loop and the manual overrides. The service ignores dots at
  the end of a name, so two spellings of a record are one record set; on the records that are
  written without such a dot the driver keeps the contract of a driver, and a fleet that names only
  such records cannot tell it from one that has no others.
\<close>

section \<open>A driver on some records only\<close>

definition only_records :: "(string \<Rightarrow> bool) \<Rightarrow> 'd dns_ops \<Rightarrow> 'd dns_ops" where
  "only_records P ops =
     \<lparr>list_members = (\<lambda>r d. if P r then list_members ops r d else (Inl (DnsError r), d)),
      add_member = (\<lambda>r ip ttl d. if P r then add_member ops r ip ttl d else (Inl (DnsError r), d)),
      remove_member = (\<lambda>r ip d. if P r then remove_member ops r ip d else (Inl (DnsError r), d)),
      has_marker = (\<lambda>r d. if P r then has_marker ops r d else (Inl (DnsError r), d)),
      ensure_marker = (\<lambda>r d. if P r then ensure_marker ops r d else (Inl (DnsError r), d))\<rparr>"

definition pools_named :: "(string \<Rightarrow> bool) \<Rightarrow> fleet \<Rightarrow> bool" where
  "pools_named P f \<longleftrightarrow> (\<forall>dns. fl_dns f = Some dns \<longrightarrow> (\<forall>p \<in> set (dn_pools dns). P (pl_record p)))"

named_theorems only_simps \<open>operations on records a restricted driver serves\<close>

lemma only_records_ops [only_simps]:
  "P r \<Longrightarrow> list_members (only_records P ops) r = list_members ops r"
  "P r \<Longrightarrow> add_member (only_records P ops) r = add_member ops r"
  "P r \<Longrightarrow> remove_member (only_records P ops) r = remove_member ops r"
  "P r \<Longrightarrow> has_marker (only_records P ops) r = has_marker ops r"
  "P r \<Longrightarrow> ensure_marker (only_records P ops) r = ensure_marker ops r"
  by (simp_all add: only_records_def fun_eq_iff)

lemma remove_all_only [only_simps]: "P r \<Longrightarrow> remove_all (only_records P ops) r ips d = remove_all ops r ips d"
  by (induction ips arbitrary: d) (simp_all add: only_simps split: prod.split sum.split)

lemma add_all_only [only_simps]: "P r \<Longrightarrow> add_all (only_records P ops) r ips ttl d = add_all ops r ips ttl d"
  by (induction ips arbitrary: d) (simp_all add: only_simps split: prod.split sum.split)

lemma apply_changes_only [only_simps]:
  "P r \<Longrightarrow> apply_changes (only_records P ops) r rm ad ttl d = apply_changes ops r rm ad ttl d"
  by (simp add: apply_changes_def only_simps split: prod.split sum.split)

lemma watch_pool_only [only_simps]:
  "P (pl_record p) \<Longrightarrow> watch_pool (only_records P ops) dry ips st p s = watch_pool ops dry ips st p s"
  by (cases s) (simp add: watch_pool_def reconcile_pool_def Let_def only_simps split: prod.split sum.split option.split)

lemma watch_pools_only:
  "\<forall>p \<in> set ps. P (pl_record p) \<Longrightarrow>
   watch_pools (only_records P ops) dry ips st ps s = watch_pools ops dry ips st ps s"
  by (induction ps arbitrary: s) (simp_all add: only_simps split: prod.split sum.split)

lemma watch_once_only:
  "pools_named P f \<Longrightarrow> watch_once f (only_records P ops) dry probed s = watch_once f ops dry probed s"
  by (simp add: watch_once_def pools_named_def watch_pools_only split: option.split sum.split)

lemma override_apply_only [only_simps]:
  "P (pl_record p) \<Longrightarrow> override_apply (only_records P ops) a ip p d = override_apply ops a ip p d"
  by (cases a) (simp_all add: override_apply_def only_simps split: prod.split sum.split)

lemma override_pool_only [only_simps]:
  assumes "P (pl_record p)"
  shows "override_pool (only_records P ops) a ip nm confirm p s = override_pool ops a ip nm confirm p s"
proof -
  have "override_apply (only_records P ops) a ip p = override_apply ops a ip p"
    using assms by (simp add: fun_eq_iff only_simps)
  then show ?thesis unfolding override_pool_def only_records_ops(1) [where P = P, OF assms] by (simp only:)
qed

lemma override_pools_only:
  "\<forall>p \<in> set ps. P (pl_record p) \<Longrightarrow>
   override_pools (only_records P ops) a ip nm confirm ps s = override_pools ops a ip nm confirm ps s"
  by (induction ps arbitrary: s) (simp_all add: only_simps split: prod.split sum.split)

lemma pools_for_node_named: "pools_named P f \<Longrightarrow> \<forall>p \<in> set (pools_for_node f nm rec). P (pl_record p)"
  by (cases "fl_dns f") (auto simp: pools_named_def pools_for_node_def Let_def)

lemma dns_override_only:
  "pools_named P f \<Longrightarrow> dns_override f (only_records P ops) nm a rec confirm s = dns_override f ops nm a rec confirm s"
  by (simp add: dns_override_def Let_def override_pools_only [OF pools_for_node_named] split: option.split prod.split)

lemma pool_statuses_only:
  "\<forall>p \<in> set ps. P (pl_record p) \<Longrightarrow>
   pool_statuses (only_records P ops) names rec ps d = pool_statuses ops names rec ps d"
  by (induction ps arbitrary: d) (simp_all add: only_simps split: prod.split sum.split)

lemma dns_status_only:
  "pools_named P f \<Longrightarrow> dns_status f (only_records P ops) rec d = dns_status f ops rec d"
  by (simp add: dns_status_def pools_named_def pool_statuses_only split: option.split)

text \<open>The loop of two drivers whose rounds agree, in the direction its proofs need\<close>

lemma watch_loop_transfer:
  "watch_loop f ops prober interval iterations dry n out s = Some y \<Longrightarrow>
   (\<forall>probed s. watch_once f ops' dry probed s = watch_once f ops dry probed s) \<longrightarrow>
   watch_loop f ops' prober interval iterations dry n out s = Some y"
proof (induction rule: watch_loop.raw_induct [rotated, consumes 1, case_names step])
  case (step loop f ops prober interval iterations dry n out s y)
  show ?case
  proof
    assume same: "\<forall>probed s. watch_once f ops' dry probed s = watch_once f ops dry probed s"
    obtain res s1 where w: "watch_once f ops dry (prober n) s = (res, s1)" by (meson surj_pair)
    then have w': "watch_once f ops' dry (prober n) s = (res, s1)" using same by metis
    show "watch_loop f ops' prober interval iterations dry n out s = Some y"
    proof (cases res)
      case (Inl e)
      with step(2) w w' show ?thesis by (subst watch_loop.simps) (simp split: if_splits)
    next
      case (Inr report)
      have IH: "loop f ops prober interval iterations dry n1 out1 s2 = Some y \<Longrightarrow>
          watch_loop f ops' prober interval iterations dry n1 out1 s2 = Some y" for n1 out1 s2
        using step(1) same by blast
      from step(2) w w' Inr IH show ?thesis
        by (subst watch_loop.simps) (simp add: Let_def split: if_splits)
    qed
  qed
qed

section \<open>The Route53 driver on plain records\<close>

definition plain_record :: "string \<Rightarrow> bool" where
  "plain_record r \<longleftrightarrow> rstrip_char CHR ''.'' r = r"

definition r53_members :: "('s \<Rightarrow> record_sets) \<Rightarrow> 's r53_state \<Rightarrow> string \<Rightarrow> string set" where
  "r53_members sets d r = (if plain_record r then values_of (zone_sets sets d (a_key r)) else {})"

definition r53_marked :: "('s \<Rightarrow> record_sets) \<Rightarrow> 's r53_state \<Rightarrow> string set" where
  "r53_marked sets d = {r. plain_record r \<and> zone_sets sets d (txt_key r) \<noteq> None}"

lemma plain_iff: "plain_record r \<longleftrightarrow> r = [] \<or> last r \<noteq> CHR ''.''"
proof (cases r rule: rev_cases)
  case (snoc ys y)
  have "length (rstrip_char CHR ''.'' ys) \<le> length ys"
    using length_dropWhile_le [of "\<lambda>x. x = CHR ''.''" "rev ys"] by (simp add: rstrip_char_def)
  then have "rstrip_char CHR ''.'' ys \<noteq> ys @ ''.''" by auto
  with snoc show ?thesis by (auto simp: plain_record_def rstrip_char_def)
qed (simp add: plain_record_def rstrip_char_def)

lemma fqdn_plain: "plain_record r \<Longrightarrow> fqdn r = r @ ''.''"
  by (simp add: fqdn_def plain_record_def)

lemma a_key_inj: "plain_record r \<Longrightarrow> plain_record q \<Longrightarrow> a_key q = a_key r \<longleftrightarrow> q = r"
  by (auto simp: fqdn_plain)

lemma marker_fqdn: "plain_record r \<Longrightarrow> fqdn (marker_name r) = (if r = [] then ''_solfleet.'' else ''_solfleet.'' @ r @ ''.'')"
proof (cases "r = []")
  case False
  assume "plain_record r"
  with False have "plain_record (marker_name r)" by (simp add: plain_iff marker_name_def)
  with False show ?thesis by (simp add: fqdn_plain marker_name_def)
qed (simp add: fqdn_def marker_name_def rstrip_char_def)

lemma txt_key_inj: "plain_record r \<Longrightarrow> plain_record q \<Longrightarrow> txt_key q = txt_key r \<longleftrightarrow> q = r"
  by (auto simp: marker_fqdn)

lemma values_written:
  "values_of (set_written S r V ttl k) = (if k = a_key r then V else values_of (S k))"
  if "finite V"
  using that by (auto simp: set_written_def values_of_def)

lemma members_written:
  assumes "plain_record r" and "finite V" and "zone_sets sets d' = set_written (zone_sets sets d) r V ttl"
  shows "r53_members sets d' = (r53_members sets d)(r := V)" and "r53_marked sets d' = r53_marked sets d"
proof -
  have "values_of (zone_sets sets d' (a_key q)) = (if q = r then V else values_of (zone_sets sets d (a_key q)))"
    if "plain_record q" for q
    unfolding assms(3) values_written [OF assms(2)] a_key_inj [OF assms(1) that] by simp
  with assms(1) show "r53_members sets d' = (r53_members sets d)(r := V)"
    by (auto simp: r53_members_def fun_eq_iff)
  have "zone_sets sets d' (txt_key q) = zone_sets sets d (txt_key q)" for q
    unfolding assms(3) by (simp add: set_written_def)
  then show "r53_marked sets d' = r53_marked sets d" by (simp add: r53_marked_def)
qed

lemma same_sets:
  "zone_sets sets d' = zone_sets sets d \<Longrightarrow>
   r53_members sets d' = r53_members sets d \<and> r53_marked sets d' = r53_marked sets d"
  by (simp add: r53_members_def r53_marked_def fun_eq_iff)

lemma add_on_plain:
  assumes api: "route53_api client zone zid sets ok" and ok: "r53_ok zid ok d" and r: "plain_record r"
    and run: "r53_add_member client zone r ip ttl d = (res, d')"
  shows "r53_ok zid ok d' \<and> r53_marked sets d' = r53_marked sets d \<and>
    may_apply res (r53_members sets d)
      ((r53_members sets d)(r := insert ip (r53_members sets d r))) (r53_members sets d')"
proof -
  let ?V = "values_of (zone_sets sets d (a_key r))"
  have V: "r53_members sets d r = ?V" using r by (simp add: r53_members_def)
  note add = r53_add_result [OF api ok run]
  consider "ip \<in> ?V" "zone_sets sets d' = zone_sets sets d"
    | "zone_sets sets d' = set_written (zone_sets sets d) r (insert ip ?V) ttl"
    | "isl res" "zone_sets sets d' = zone_sets sets d"
    using add by (auto simp: may_apply_def split: if_splits)
  then show ?thesis
  proof cases
    case 1
    with add same_sets [OF 1(2)] V show ?thesis by (simp add: may_apply_def insert_absorb fun_upd_idem)
  next
    case 2
    with add members_written [OF r _ 2] V finite_values show ?thesis by (simp add: may_apply_def)
  next
    case 3
    with add same_sets [OF 3(2)] show ?thesis by (simp add: may_apply_def)
  qed
qed

lemma remove_on_plain:
  assumes api: "route53_api client zone zid sets ok" and ok: "r53_ok zid ok d" and r: "plain_record r"
    and run: "r53_remove_member client zone r ip d = (res, d')"
  shows "r53_ok zid ok d' \<and> r53_marked sets d' = r53_marked sets d \<and>
    may_apply res (r53_members sets d)
      ((r53_members sets d)(r := r53_members sets d r - {ip})) (r53_members sets d')"
proof -
  let ?V = "values_of (zone_sets sets d (a_key r))"
  have V: "r53_members sets d r = ?V" using r by (simp add: r53_members_def)
  note rm = r53_remove_result [OF api ok run]
  consider "ip \<notin> ?V" "zone_sets sets d' = zone_sets sets d"
    | "zone_sets sets d' = set_written (zone_sets sets d) r (?V - {ip}) 60"
    | "isl res" "zone_sets sets d' = zone_sets sets d"
    using rm by (auto simp: may_apply_def split: if_splits)
  then show ?thesis
  proof cases
    case 1
    with rm same_sets [OF 1(2)] V show ?thesis by (simp add: may_apply_def fun_upd_idem)
  next
    case 2
    with rm members_written [OF r _ 2] V finite_values show ?thesis by (simp add: may_apply_def)
  next
    case 3
    with rm same_sets [OF 3(2)] show ?thesis by (simp add: may_apply_def)
  qed
qed

lemma ensure_on_plain:
  assumes api: "route53_api client zone zid sets ok" and ok: "r53_ok zid ok d" and r: "plain_record r"
    and run: "r53_ensure_marker client zone r d = (res, d')"
  shows "r53_ok zid ok d' \<and> r53_members sets d' = r53_members sets d \<and>
    may_apply res (r53_marked sets d) (insert r (r53_marked sets d)) (r53_marked sets d')"
proof -
  let ?S = "zone_sets sets d"
  note en = r53_ensure_result [OF api ok run]
  consider "?S (txt_key r) \<noteq> None" "zone_sets sets d' = ?S"
    | x where "zone_sets sets d' = ?S(txt_key r \<mapsto> x)"
    | "isl res" "zone_sets sets d' = ?S"
    using en by (auto simp: may_apply_def split: if_splits)
  then show ?thesis
  proof cases
    case 1
    have "r \<in> r53_marked sets d" using 1(1) r by (simp add: r53_marked_def)
    with en same_sets [OF 1(2)] show ?thesis by (simp add: may_apply_def insert_absorb)
  next
    case 2
    have "zone_sets sets d' (a_key q) = ?S (a_key q)" for q unfolding 2 by simp
    then have m: "r53_members sets d' = r53_members sets d" by (simp add: r53_members_def fun_eq_iff)
    have "zone_sets sets d' (txt_key q) \<noteq> None \<longleftrightarrow> q = r \<or> ?S (txt_key q) \<noteq> None" if "plain_record q" for q
      unfolding 2 using txt_key_inj [OF r that] by simp
    then have "r53_marked sets d' = insert r (r53_marked sets d)" unfolding r53_marked_def using r by blast
    with en m show ?thesis by (simp add: may_apply_def)
  next
    case 3
    with en same_sets [OF 3(2)] show ?thesis by (simp add: may_apply_def)
  qed
qed

lemma route53_on_plain_records:
  assumes api: "route53_api client zone zid sets ok"
  shows "dns_driver (only_records plain_record (route53_ops client zone))
    (r53_members sets) (r53_marked sets) (r53_ok zid ok)"
proof
  fix d :: "'a r53_state" and r lres d'
  assume ok: "r53_ok zid ok d"
    and run: "list_members (only_records plain_record (route53_ops client zone)) r d = (lres, d')"
  then show "r53_ok zid ok d' \<and> r53_members sets d' = r53_members sets d \<and> r53_marked sets d' = r53_marked sets d"
    using r53_list_result [OF api ok, of r lres d'] same_sets [of sets d' d]
    by (simp add: only_records_def route53_ops_def split: if_splits)
next
  fix d :: "'a r53_state" and r xs d'
  assume ok: "r53_ok zid ok d"
    and run: "list_members (only_records plain_record (route53_ops client zone)) r d = (Inr xs, d')"
  then show "set xs = r53_members sets d r"
    using r53_list_result [OF api ok, of r "Inr xs" d']
    by (simp add: only_records_def route53_ops_def r53_members_def split: if_splits)
next
  fix d :: "'a r53_state" and r ip ttl res d'
  assume ok: "r53_ok zid ok d"
    and run: "add_member (only_records plain_record (route53_ops client zone)) r ip ttl d = (res, d')"
  then show "r53_ok zid ok d' \<and> r53_marked sets d' = r53_marked sets d \<and>
      may_apply res (r53_members sets d)
        ((r53_members sets d)(r := insert ip (r53_members sets d r))) (r53_members sets d')"
    using add_on_plain [OF api ok, of r ip ttl res d']
    by (cases "plain_record r") (auto simp: only_records_def route53_ops_def may_apply_def)
next
  fix d :: "'a r53_state" and r ip res d'
  assume ok: "r53_ok zid ok d"
    and run: "remove_member (only_records plain_record (route53_ops client zone)) r ip d = (res, d')"
  then show "r53_ok zid ok d' \<and> r53_marked sets d' = r53_marked sets d \<and>
      may_apply res (r53_members sets d)
        ((r53_members sets d)(r := r53_members sets d r - {ip})) (r53_members sets d')"
    using remove_on_plain [OF api ok, of r ip res d']
    by (cases "plain_record r") (auto simp: only_records_def route53_ops_def may_apply_def)
next
  fix d :: "'a r53_state" and r bres d'
  assume ok: "r53_ok zid ok d"
    and run: "has_marker (only_records plain_record (route53_ops client zone)) r d = (bres, d')"
  then show "r53_ok zid ok d' \<and> r53_members sets d' = r53_members sets d \<and>
      r53_marked sets d' = r53_marked sets d \<and>
      (case bres of Inl _ \<Rightarrow> True | Inr b \<Rightarrow> b \<longleftrightarrow> r \<in> r53_marked sets d)"
    using r53_has_marker_result [OF api ok, of r bres d'] same_sets [of sets d' d]
    by (auto simp: only_records_def route53_ops_def r53_marked_def split: if_splits sum.split)
next
  fix d :: "'a r53_state" and r res d'
  assume ok: "r53_ok zid ok d"
    and run: "ensure_marker (only_records plain_record (route53_ops client zone)) r d = (res, d')"
  then show "r53_ok zid ok d' \<and> r53_members sets d' = r53_members sets d \<and>
      may_apply res (r53_marked sets d) (insert r (r53_marked sets d)) (r53_marked sets d')"
    using ensure_on_plain [OF api ok, of r res d']
    by (cases "plain_record r") (auto simp: only_records_def route53_ops_def may_apply_def)
qed

section \<open>Properties\<close>

text \<open>
  C36. The Route53 driver keeps the contract of a driver, on a service that behaves as documented:
  serving the records that are written without a dot at the end, it lists exactly the addresses of
  a record, changes what it is asked to and no other record or marker, and a call that raises has
  made its change or none. A fleet whose pools all have such records runs a round of the failover
  loop, an override and a query the same on the whole driver, so everything proved of drivers that
  keep the contract holds for Route53.
\<close>

theorem route53_driver_contract:
  assumes "route53_api client zone zid sets ok" and "pools_named plain_record f"
  shows "dns_driver (only_records plain_record (route53_ops client zone))
      (r53_members sets) (r53_marked sets) (r53_ok zid ok) \<and>
    watch_once f (route53_ops client zone) dry probed s =
      watch_once f (only_records plain_record (route53_ops client zone)) dry probed s \<and>
    dns_override f (route53_ops client zone) nm a rec confirm s =
      dns_override f (only_records plain_record (route53_ops client zone)) nm a rec confirm s \<and>
    dns_status f (route53_ops client zone) rec d =
      dns_status f (only_records plain_record (route53_ops client zone)) rec d"
  using route53_on_plain_records [OF assms(1)]
  by (simp add: watch_once_only [OF assms(2)] dns_override_only [OF assms(2)] dns_status_only [OF assms(2)])

theorem route53_driver_contract_witness:
  "dns_driver (only_records plain_record (route53_ops zone_of_sets ''example.com''))
      (r53_members id) (r53_marked id) (r53_ok ''Z1'' (\<lambda>_. True)) \<and>
    watch_once two_node_fleet (route53_ops zone_of_sets ''example.com'') False (Inr lagging_rpc1)
      (\<lparr>r53_zone_id = None, r53_service = Map.empty\<rparr>, None) =
    watch_once two_node_fleet (only_records plain_record (route53_ops zone_of_sets ''example.com'')) False
      (Inr lagging_rpc1) (\<lparr>r53_zone_id = None, r53_service = Map.empty\<rparr>, None)"
proof -
  have "pools_named plain_record two_node_fleet"
    by (simp add: pools_named_def two_node_fleet_def two_node_pool_def plain_iff)
  from route53_driver_contract [OF zone_of_sets_api this] show ?thesis by blast
qed

text \<open>So the failover loop never empties a record of a Route53 zone\<close>

lemma route53_never_emptied:
  assumes api: "route53_api client zone zid sets ok" and named: "pools_named plain_record f"
    and ok: "r53_ok zid ok d" and r: "plain_record r" and "values_of (zone_sets sets d (a_key r)) \<noteq> {}"
    and run: "watch_loop f (route53_ops client zone) prober interval iterations dry 0 [] (d, al) =
      Some (Inr u, out, d', al')"
  shows "values_of (zone_sets sets d' (a_key r)) \<noteq> {}"
proof -
  let ?ops = "only_records plain_record (route53_ops client zone)"
  note drv = route53_on_plain_records [OF api]
  have "watch_loop f ?ops prober interval iterations dry 0 [] (d, al) = Some (Inr u, out, d', al')"
    using watch_loop_transfer [OF run, of ?ops] watch_once_only [OF named] by blast
  from watch_loop_inv [OF this dns_driver.round_inv_nonempty [OF drv, where r = r]] ok assms(5) r show ?thesis
    by (simp add: r53_members_def)
qed

end
