(* ===== verification/Dns_Calls.thy ===== *)
theory Dns_Calls
  imports Dns_Steps
begin

text \<open>
  The calls an operation makes to the DNS driver, whatever the driver answers. The driver is an
  arbitrary function of its state here, with no contract, so what other processes do to the zone
  between two calls is covered: what is shown of the calls holds for operations that overlap.
\<close>

section \<open>A driver that notes its calls\<close>

text \<open>The calls in order; the truth value says whether a change returned\<close>

datatype dns_call =
    Queried string
  | Marked string bool
  | Added string string bool
  | Removed string string bool

definition noting :: "'d dns_ops \<Rightarrow> ('d \<times> dns_call list) dns_ops" where
  "noting ops =
     \<lparr>list_members = (\<lambda>r (d, cs). case list_members ops r d of (res, d1) \<Rightarrow> (res, d1, cs @ [Queried r])),
      add_member = (\<lambda>r ip ttl (d, cs). case add_member ops r ip ttl d of
        (res, d1) \<Rightarrow> (res, d1, cs @ [Added r ip (\<not> isl res)])),
      remove_member = (\<lambda>r ip (d, cs). case remove_member ops r ip d of
        (res, d1) \<Rightarrow> (res, d1, cs @ [Removed r ip (\<not> isl res)])),
      has_marker = (\<lambda>r (d, cs). case has_marker ops r d of (res, d1) \<Rightarrow> (res, d1, cs @ [Queried r])),
      ensure_marker = (\<lambda>r (d, cs). case ensure_marker ops r d of
        (res, d1) \<Rightarrow> (res, d1, cs @ [Marked r (\<not> isl res)]))\<rparr>"

text \<open>
  Calls that stay within bounds: \<open>A r\<close> are the addresses that may be added to the record \<open>r\<close>, \<open>R r\<close> those
  that may be removed from it, and \<open>M\<close> the records whose marker has been ensured.
\<close>

fun confined ::
  "(string \<Rightarrow> string set) \<Rightarrow> (string \<Rightarrow> string set) \<Rightarrow> string set \<Rightarrow> dns_call list \<Rightarrow> bool" where
  "confined A R M [] = True"
| "confined A R M (Queried r # cs) = confined A R M cs"
| "confined A R M (Marked r returned # cs) =
     (A r \<union> R r \<noteq> {} \<and> confined A R (if returned then insert r M else M) cs)"
| "confined A R M (Added r ip returned # cs) = (r \<in> M \<and> ip \<in> A r \<and> confined A R M cs)"
| "confined A R M (Removed r ip returned # cs) = (r \<in> M \<and> ip \<in> R r \<and> confined A R M cs)"

section \<open>Confined calls\<close>

lemma confined_mono:
  "confined A R M cs \<Longrightarrow> M \<subseteq> M' \<Longrightarrow> (\<And>r. A r \<subseteq> A' r) \<Longrightarrow> (\<And>r. R r \<subseteq> R' r) \<Longrightarrow> confined A' R' M' cs"
proof (induction A R M cs arbitrary: M' rule: confined.induct)
  case (3 A R M r returned cs)
  from 3(1) [of "if returned then insert r M' else M'"] 3(2-) have
    "confined A' R' (if returned then insert r M' else M') cs" by (auto split: if_splits)
  with 3(2,4,5) show ?case by fastforce
next
  case (4 A R M r ip returned cs)
  from 4(1) [OF _ 4(3,4,5)] 4(2,3) subsetD [OF 4(4) [of r]] show ?case by auto
next
  case (5 A R M r ip returned cs)
  from 5(1) [OF _ 5(3,4,5)] 5(2,3) subsetD [OF 5(5) [of r]] show ?case by auto
qed simp_all

lemma confined_append: "confined A R M cs \<Longrightarrow> confined A R M ds \<Longrightarrow> confined A R M (cs @ ds)"
proof (induction A R M cs rule: confined.induct)
  case (3 A R M r returned cs)
  have "confined A R (if returned then insert r M else M) ds"
    by (rule confined_mono [OF 3(3)]) auto
  with 3 show ?case by simp
qed simp_all

section \<open>What is noted\<close>

text \<open>The outcome of a run: what was noted before, and new calls that satisfy a predicate\<close>

definition noted :: "(dns_call list \<Rightarrow> bool) \<Rightarrow> dns_call list \<Rightarrow> dns_call list \<Rightarrow> bool" where
  "noted Q cs cs' \<longleftrightarrow> (\<exists>new. cs' = cs @ new \<and> Q new)"

lemma noted_same: "Q [] \<Longrightarrow> noted Q cs cs"
  by (simp add: noted_def)

lemma noted_confined_trans:
  "noted (confined A R M) cs cs1 \<Longrightarrow> noted (confined A R M) cs1 cs2 \<Longrightarrow> noted (confined A R M) cs cs2"
  unfolding noted_def by (metis append.assoc confined_append)

lemma remove_all_noted:
  "remove_all (noting ops) r ips (d, cs) = (res, d', cs') \<Longrightarrow> r \<in> M \<Longrightarrow> set ips \<subseteq> R r \<Longrightarrow>
   noted (confined A R M) cs cs'"
proof (induction ips arbitrary: d cs)
  case Nil
  then show ?case by (simp add: noted_same)
next
  case (Cons ip ips)
  obtain x d1 where rm: "remove_member ops r ip d = (x, d1)" by fastforce
  have one: "noted (confined A R M) cs (cs @ [Removed r ip (\<not> isl x)])"
    using Cons.prems(2,3) by (simp add: noted_def)
  show ?case
  proof (cases x)
    case (Inl e)
    with Cons.prems(1) rm one show ?thesis by (auto simp: noting_def)
  next
    case (Inr u)
    with Cons.prems(1) rm have "remove_all (noting ops) r ips (d1, cs @ [Removed r ip True]) = (res, d', cs')"
      by (simp add: noting_def)
    from Cons.IH [OF this Cons.prems(2)] Cons.prems(3) one Inr noted_confined_trans show ?thesis by fastforce
  qed
qed

lemma add_all_noted:
  "add_all (noting ops) r ips ttl (d, cs) = (res, d', cs') \<Longrightarrow> r \<in> M \<Longrightarrow> set ips \<subseteq> A r \<Longrightarrow>
   noted (confined A R M) cs cs'"
proof (induction ips arbitrary: d cs)
  case Nil
  then show ?case by (simp add: noted_same)
next
  case (Cons ip ips)
  obtain x d1 where ad: "add_member ops r ip ttl d = (x, d1)" by fastforce
  have one: "noted (confined A R M) cs (cs @ [Added r ip (\<not> isl x)])"
    using Cons.prems(2,3) by (simp add: noted_def)
  show ?case
  proof (cases x)
    case (Inl e)
    with Cons.prems(1) ad one show ?thesis by (auto simp: noting_def)
  next
    case (Inr u)
    with Cons.prems(1) ad have "add_all (noting ops) r ips ttl (d1, cs @ [Added r ip True]) = (res, d', cs')"
      by (simp add: noting_def)
    from Cons.IH [OF this Cons.prems(2)] Cons.prems(3) one Inr noted_confined_trans show ?thesis by fastforce
  qed
qed

lemma noted_after_mark:
  "noted (confined A R {r}) (cs @ [Marked r True]) cs' \<Longrightarrow> A r \<union> R r \<noteq> {} \<Longrightarrow> noted (confined A R {}) cs cs'"
  by (auto simp: noted_def)

lemma apply_changes_noted:
  assumes run: "apply_changes (noting ops) r rm ad ttl (d, cs) = (res, d', cs')"
    and "set rm \<subseteq> R r" and "set ad \<subseteq> A r" and some: "rm \<noteq> [] \<or> ad \<noteq> []"
  shows "noted (confined A R {}) cs cs'"
proof -
  have ne: "A r \<union> R r \<noteq> {}" using assms(2-4) by (cases rm; cases ad) auto
  obtain x d1 where en: "ensure_marker ops r d = (x, d1)" by fastforce
  show ?thesis
  proof (cases x)
    case (Inl e)
    with run en ne show ?thesis by (auto simp: apply_changes_def noting_def noted_def)
  next
    case (Inr u)
    obtain y d2 cs2 where rmv: "remove_all (noting ops) r rm (d1, cs @ [Marked r True]) = (y, d2, cs2)"
      by (metis prod_cases3)
    have r1: "noted (confined A R {r}) (cs @ [Marked r True]) cs2"
      by (rule remove_all_noted [OF rmv]) (use assms(2) in auto)
    show ?thesis
    proof (cases y)
      case (Inl e)
      with run en Inr rmv have "cs' = cs2" by (simp add: apply_changes_def) (simp add: noting_def)
      with noted_after_mark [OF r1 ne] show ?thesis by simp
    next
      case (Inr v)
      with run en \<open>x = Inr u\<close> rmv have "add_all (noting ops) r ad ttl (d2, cs2) = (res, d', cs')"
        by (simp add: apply_changes_def) (simp add: noting_def)
      from add_all_noted [OF this, of "{r}" A R] assms(3) have "noted (confined A R {r}) cs2 cs'" by simp
      from noted_after_mark [OF noted_confined_trans [OF r1 this] ne] show ?thesis .
    qed
  qed
qed

section \<open>A round\<close>

text \<open>What a round may add to a record and remove from it, by what the prober reported\<close>

definition may_add :: "(string, string) dict \<Rightarrow> (string, node_status) dict \<Rightarrow> pool list \<Rightarrow> string \<Rightarrow> string set" where
  "may_add ips st ps r = (\<Union>p \<in> {p \<in> set ps. pl_record p = r}. healthy_ips ips st p)"

definition may_remove :: "(string, string) dict \<Rightarrow> (string, node_status) dict \<Rightarrow> pool list \<Rightarrow> string \<Rightarrow> string set" where
  "may_remove ips st ps r = (\<Union>p \<in> {p \<in> set ps. pl_record p = r \<and> healthy_ips ips st p \<noteq> {}}.
     pool_ips ips p - healthy_ips ips st p)"

lemma reconcile_noted:
  assumes run: "reconcile_pool (noting ops) dry p plan cur rep ((d, cs), al) = (res, (d', cs'), al')"
    and "\<not> dry \<Longrightarrow> set (py_sorted ((cur \<inter> pp_member_ips plan) - pp_desired plan)) \<subseteq> R (pl_record p)"
    and "\<not> dry \<Longrightarrow> set (py_sorted (pp_desired plan - cur)) \<subseteq> A (pl_record p)"
  shows "noted (confined A R {}) cs cs'"
proof -
  let ?rm = "py_sorted ((cur \<inter> pp_member_ips plan) - pp_desired plan)"
    and ?ad = "py_sorted (pp_desired plan - cur)"
  obtain y d2 cs2 where a: "apply_changes (noting ops) (pl_record p) ?rm ?ad (pl_ttl p) (d, cs) = (y, d2, cs2)"
    by (metis prod_cases3)
  have "cs' = cs \<or> \<not> dry \<and> (?rm \<noteq> [] \<or> ?ad \<noteq> []) \<and> cs' = cs2"
    using run by (cases y; cases "?ad = [] \<and> ?rm = []"; cases dry) (auto simp: reconcile_pool_def Let_def a)
  with apply_changes_noted [where R = R and A = A, OF a assms(2,3)] show ?thesis by (auto simp: noted_same)
qed

lemma watch_pool_noted:
  assumes run: "watch_pool (noting ops) dry ips st p ((d, cs), al) = (res, (d', cs'), al')"
    and A: "\<not> dry \<Longrightarrow> healthy_ips ips st p \<subseteq> A (pl_record p)"
    and R: "\<not> dry \<Longrightarrow> healthy_ips ips st p \<noteq> {} \<Longrightarrow> pool_ips ips p - healthy_ips ips st p \<subseteq> R (pl_record p)"
  shows "noted (confined A R {}) cs cs'"
proof (cases "find (\<lambda>m. dict_get ips m = None) (pl_members p)")
  case (Some m)
  with run show ?thesis by (simp add: watch_pool_def noted_same)
next
  case None
  obtain x d1 where l: "list_members ops (pl_record p) d = (x, d1)" by fastforce
  have q: "noted (confined A R {}) cs (cs @ [Queried (pl_record p)])" by (simp add: noted_def)
  show ?thesis
  proof (cases x)
    case (Inl e)
    with run None l q show ?thesis by (auto simp: watch_pool_def noting_def)
  next
    case (Inr listed)
    let ?h = "healthy_ips ips st p" and ?cs = "cs @ [Queried (pl_record p)]"
    have l2: "list_members (noting ops) (pl_record p) (d, cs) = (Inr listed, d1, ?cs)"
      using l Inr by (simp add: noting_def)
    show ?thesis
    proof (cases "?h = {}")
      case True
      with run None l2 have "cs' = ?cs" by (auto simp: watch_pool_def Let_def plan_pool_sets protect_pool_def)
      with q show ?thesis by simp
    next
      case False
      with run None l2 obtain rep where
        "reconcile_pool (noting ops) dry p (plan_pool ips st p) (set listed) rep ((d1, ?cs), al) =
          (res, (d', cs'), al')" by (auto simp: watch_pool_def Let_def plan_pool_sets)
      then have "noted (confined A R {}) ?cs cs'"
        by (rule reconcile_noted) (use A R False in \<open>auto simp: plan_pool_sets\<close>)
      with noted_confined_trans [OF q] show ?thesis by blast
    qed
  qed
qed

lemma watch_pools_noted:
  "watch_pools (noting ops) dry ips st ps ((d, cs), al) = (res, (d', cs'), al') \<Longrightarrow>
   (\<And>p. \<not> dry \<Longrightarrow> p \<in> set ps \<Longrightarrow> healthy_ips ips st p \<subseteq> A (pl_record p)) \<Longrightarrow>
   (\<And>p. \<not> dry \<Longrightarrow> p \<in> set ps \<Longrightarrow> healthy_ips ips st p \<noteq> {} \<Longrightarrow>
      pool_ips ips p - healthy_ips ips st p \<subseteq> R (pl_record p)) \<Longrightarrow>
   noted (confined A R {}) cs cs'"
proof (induction ps arbitrary: d cs al res d' cs' al')
  case Nil
  then show ?case by (simp add: noted_same)
next
  case (Cons p ps)
  obtain x d1 cs1 al1 where p: "watch_pool (noting ops) dry ips st p ((d, cs), al) = (x, (d1, cs1), al1)"
    by (metis surj_pair)
  have one: "noted (confined A R {}) cs cs1"
    by (rule watch_pool_noted [OF p]) (use Cons.prems(2,3) in auto)
  show ?case
  proof (cases x)
    case (Inl e)
    with Cons.prems(1) p one show ?thesis by simp
  next
    case (Inr report)
    obtain y d2 cs2 al2 where ps: "watch_pools (noting ops) dry ips st ps ((d1, cs1), al1) = (y, (d2, cs2), al2)"
      by (metis surj_pair)
    with Cons.prems(1) p Inr have "cs' = cs2" by (cases y) auto
    moreover have "noted (confined A R {}) cs1 cs2"
      by (rule Cons.IH [OF ps]) (use Cons.prems(2,3) in auto)
    ultimately show ?thesis using noted_confined_trans [OF one] by blast
  qed
qed

lemma watch_once_noted:
  assumes "watch_once f (noting ops) dry (Inr clusters) ((d, cs), al) = (res, (d', cs'), al')"
    and "fl_dns f = Some dns"
  shows "noted (confined (if dry then \<lambda>_. {} else may_add (node_ips f) (status_by_name clusters) (dn_pools dns))
    (if dry then \<lambda>_. {} else may_remove (node_ips f) (status_by_name clusters) (dn_pools dns)) {}) cs cs'"
proof (cases "dn_pools dns = []")
  case True
  with assms show ?thesis by (simp add: watch_once_def noted_same)
next
  case False
  obtain y d2 cs2 al2 where ps: "watch_pools (noting ops) dry (node_ips f) (status_by_name clusters)
      (dn_pools dns) ((d, cs), al) = (y, (d2, cs2), al2)" by (metis surj_pair)
  with assms False have "cs' = cs2" by (cases y) (auto simp: watch_once_def)
  moreover have "noted (confined (if dry then \<lambda>_. {} else may_add (node_ips f) (status_by_name clusters) (dn_pools dns))
      (if dry then \<lambda>_. {} else may_remove (node_ips f) (status_by_name clusters) (dn_pools dns)) {}) cs cs2"
    by (rule watch_pools_noted [OF ps]) (auto simp: may_add_def may_remove_def)
  ultimately show ?thesis by simp
qed

section \<open>An override\<close>

lemma override_apply_noted:
  assumes run: "override_apply (noting ops) a ip p (d, cs) = (res, d', cs')"
    and "a = Restore \<Longrightarrow> ip \<in> A (pl_record p)" and "a = Eject \<Longrightarrow> ip \<in> R (pl_record p)"
  shows "noted (confined A R {}) cs cs'"
proof -
  have "\<exists>b. cs' = cs @ [Marked (pl_record p) False] \<or>
      cs' = cs @ [Marked (pl_record p) True, (case a of Eject \<Rightarrow> Removed (pl_record p) ip b
        | Restore \<Rightarrow> Added (pl_record p) ip b)] \<or>
      cs' = cs @ [Marked (pl_record p) True, (case a of Eject \<Rightarrow> Removed (pl_record p) ip b
        | Restore \<Rightarrow> Added (pl_record p) ip b), Queried (pl_record p)]"
    using run by (cases a) (auto simp: override_apply_def noting_def split: prod.splits sum.splits)
  with assms(2,3) show ?thesis by (cases a) (auto simp: noted_def)
qed

lemma override_pool_noted:
  assumes run: "override_pool (noting ops) a ip nm confirm p ((d, cs), al) = (res, (d', cs'), al')"
    and A: "confirm \<Longrightarrow> a = Restore \<Longrightarrow> ip \<in> A (pl_record p)"
    and R: "confirm \<Longrightarrow> a = Eject \<Longrightarrow> ip \<in> R (pl_record p)"
  shows "noted (confined A R {}) cs cs'"
proof -
  obtain x d1 where l: "list_members ops (pl_record p) d = (x, d1)" by fastforce
  let ?cs = "cs @ [Queried (pl_record p)]"
  have l2: "list_members (noting ops) (pl_record p) (d, cs) = (x, d1, ?cs)"
    using l by (simp add: noting_def)
  have q: "noted (confined A R {}) cs ?cs" by (simp add: noted_def)
  obtain y d2 cs2 where ap: "override_apply (noting ops) a ip p (d1, ?cs) = (y, d2, cs2)" by (metis prod_cases3)
  from override_apply_noted [where A = A and R = R, OF ap A R] have step: "confirm \<Longrightarrow> noted (confined A R {}) ?cs cs2" by simp
  have "cs' = ?cs \<or> confirm \<and> cs' = cs2"
    using run l2 ap by (cases x; cases y) (auto simp: override_pool_def Let_def split: if_splits)
  with q noted_confined_trans [OF q step] show ?thesis by blast
qed

lemma override_pools_noted:
  "override_pools (noting ops) a ip nm confirm ps ((d, cs), al) = (res, (d', cs'), al') \<Longrightarrow>
   (\<And>p. confirm \<Longrightarrow> p \<in> set ps \<Longrightarrow> a = Restore \<Longrightarrow> ip \<in> A (pl_record p)) \<Longrightarrow>
   (\<And>p. confirm \<Longrightarrow> p \<in> set ps \<Longrightarrow> a = Eject \<Longrightarrow> ip \<in> R (pl_record p)) \<Longrightarrow>
   noted (confined A R {}) cs cs'"
proof (induction ps arbitrary: d cs al res d' cs' al')
  case Nil
  then show ?case by (simp add: noted_same)
next
  case (Cons p ps)
  obtain x d1 cs1 al1 where p: "override_pool (noting ops) a ip nm confirm p ((d, cs), al) = (x, (d1, cs1), al1)"
    by (metis surj_pair)
  have one: "noted (confined A R {}) cs cs1"
    by (rule override_pool_noted [OF p]) (use Cons.prems(2,3) in auto)
  show ?case
  proof (cases x)
    case (Inl e)
    with Cons.prems(1) p one show ?thesis by simp
  next
    case (Inr entry)
    obtain y d2 cs2 al2 where
      ps: "override_pools (noting ops) a ip nm confirm ps ((d1, cs1), al1) = (y, (d2, cs2), al2)"
      by (metis surj_pair)
    with Cons.prems(1) p Inr have "cs' = cs2" by (cases y) auto
    moreover have "noted (confined A R {}) cs1 cs2"
      by (rule Cons.IH [OF ps]) (use Cons.prems(2,3) in auto)
    ultimately show ?thesis using noted_confined_trans [OF one] by blast
  qed
qed

text \<open>The records an override of a node is about, with the node's address\<close>

definition node_records :: "fleet \<Rightarrow> string \<Rightarrow> string option \<Rightarrow> string \<Rightarrow> string set" where
  "node_records f nm rec r = (case find_node f nm of
     None \<Rightarrow> {}
   | Some (_, _, n) \<Rightarrow> if r \<in> pl_record ` set (pools_for_node f nm rec) then {host n} else {})"

lemma dns_override_noted:
  assumes run: "dns_override f (noting ops) nm a rec confirm ((d, cs), al) = (res, (d', cs'), al')"
  shows "noted (confined (if confirm \<and> a = Restore then node_records f nm rec else (\<lambda>_. {}))
    (if confirm \<and> a = Eject then node_records f nm rec else (\<lambda>_. {})) {}) cs cs'"
proof (cases "find_node f nm")
  case None
  with run show ?thesis by (simp add: dns_override_def noted_same)
next
  case (Some x)
  obtain cn c n where x: "x = (cn, c, n)" by (cases x)
  let ?ps = "pools_for_node f nm rec"
  obtain y d2 cs2 al2 where
    ps: "override_pools (noting ops) a (host n) nm confirm ?ps ((d, cs), al) = (y, (d2, cs2), al2)"
    by (metis surj_pair)
  have "cs' = cs \<or> cs' = cs2"
    using run Some x ps by (cases y) (auto simp: dns_override_def Let_def split: if_splits)
  moreover have "noted (confined (if confirm \<and> a = Restore then node_records f nm rec else (\<lambda>_. {}))
      (if confirm \<and> a = Eject then node_records f nm rec else (\<lambda>_. {})) {}) cs cs2"
    by (rule override_pools_noted [OF ps]) (auto simp: node_records_def Some x)
  ultimately show ?thesis using noted_same by fastforce
qed

section \<open>Noting changes nothing\<close>

text \<open>What an operation on the noting driver does, without the notes, is what it does on the driver\<close>

definition unnoted :: "'r \<times> ('d \<times> dns_call list) \<times> 'l \<Rightarrow> 'r \<times> 'd \<times> 'l" where
  "unnoted x = (fst x, fst (fst (snd x)), snd (snd x))"

lemma unnoted_simp [simp]: "unnoted (res, (d, cs), al) = (res, d, al)"
  by (simp add: unnoted_def)

lemma remove_all_noting:
  "remove_all (noting ops) r ips (d, cs) = (res, d', cs') \<Longrightarrow> remove_all ops r ips d = (res, d')"
  by (induction ips arbitrary: d cs) (auto simp: noting_def split: prod.splits sum.splits)

lemma add_all_noting:
  "add_all (noting ops) r ips ttl (d, cs) = (res, d', cs') \<Longrightarrow> add_all ops r ips ttl d = (res, d')"
  by (induction ips arbitrary: d cs) (auto simp: noting_def split: prod.splits sum.splits)

lemma apply_changes_noting:
  assumes "apply_changes (noting ops) r rm ad ttl (d, cs) = (res, d', cs')"
  shows "apply_changes ops r rm ad ttl d = (res, d')"
proof -
  obtain x d1 where en: "ensure_marker ops r d = (x, d1)" by fastforce
  show ?thesis
  proof (cases x)
    case (Inl e)
    with assms en show ?thesis by (auto simp: apply_changes_def noting_def)
  next
    case (Inr u)
    obtain y d2 cs2 where rmv: "remove_all (noting ops) r rm (d1, cs @ [Marked r True]) = (y, d2, cs2)"
      by (metis prod_cases3)
    with assms en Inr have rest: "(case y of Inl e \<Rightarrow> (Inl e, d2, cs2)
        | Inr _ \<Rightarrow> add_all (noting ops) r ad ttl (d2, cs2)) = (res, d', cs')"
      by (simp add: apply_changes_def) (simp add: noting_def)
    with remove_all_noting [OF rmv] en Inr show ?thesis
      by (cases y) (auto simp: apply_changes_def dest: add_all_noting)
  qed
qed

lemma reconcile_noting:
  "unnoted (reconcile_pool (noting ops) dry p plan cur rep ((d, cs), al)) = reconcile_pool ops dry p plan cur rep (d, al)"
proof -
  let ?rm = "py_sorted ((cur \<inter> pp_member_ips plan) - pp_desired plan)"
    and ?ad = "py_sorted (pp_desired plan - cur)"
  obtain y d2 cs2 where a: "apply_changes (noting ops) (pl_record p) ?rm ?ad (pl_ttl p) (d, cs) = (y, d2, cs2)"
    by (metis prod_cases3)
  from apply_changes_noting [OF this] show ?thesis
    by (cases y) (simp_all add: reconcile_pool_def Let_def a)
qed

lemma watch_pool_noting:
  "unnoted (watch_pool (noting ops) dry ips st p ((d, cs), al)) = watch_pool ops dry ips st p (d, al)"
proof -
  obtain x d1 where l: "list_members ops (pl_record p) d = (x, d1)" by fastforce
  then have l2: "list_members (noting ops) (pl_record p) (d, cs) = (x, d1, cs @ [Queried (pl_record p)])"
    by (simp add: noting_def)
  show ?thesis
    by (cases x) (simp_all add: watch_pool_def l l2 Let_def protect_pool_def reconcile_noting split: option.split)
qed

lemma watch_pools_noting:
  "unnoted (watch_pools (noting ops) dry ips st ps ((d, cs), al)) = watch_pools ops dry ips st ps (d, al)"
proof (induction ps arbitrary: d cs al)
  case (Cons p ps)
  obtain x d1 cs1 al1 where p: "watch_pool (noting ops) dry ips st p ((d, cs), al) = (x, (d1, cs1), al1)"
    by (metis surj_pair)
  then have p2: "watch_pool ops dry ips st p (d, al) = (x, d1, al1)"
    using watch_pool_noting [of ops dry ips st p d cs al] by simp
  obtain y d2 cs2 al2 where ps: "watch_pools (noting ops) dry ips st ps ((d1, cs1), al1) = (y, (d2, cs2), al2)"
    by (metis surj_pair)
  then have ps2: "watch_pools ops dry ips st ps (d1, al1) = (y, d2, al2)"
    using Cons.IH [of d1 cs1 al1] by simp
  show ?case by (cases x; cases y) (simp_all add: p p2 ps ps2)
qed simp

lemma watch_once_noting:
  "unnoted (watch_once f (noting ops) dry probed ((d, cs), al)) = watch_once f ops dry probed (d, al)"
proof (cases "fl_dns f = None \<or> isl probed \<or> dn_pools (the (fl_dns f)) = []")
  case True
  then show ?thesis by (auto simp: watch_once_def split: sum.split option.split)
next
  case False
  then obtain dns clusters where c: "fl_dns f = Some dns" "probed = Inr clusters" "dn_pools dns \<noteq> []"
    by (cases probed) auto
  obtain y d2 cs2 al2 where ps: "watch_pools (noting ops) dry (node_ips f) (status_by_name clusters)
      (dn_pools dns) ((d, cs), al) = (y, (d2, cs2), al2)" by (metis surj_pair)
  then have "watch_pools ops dry (node_ips f) (status_by_name clusters) (dn_pools dns) (d, al) = (y, d2, al2)"
    using watch_pools_noting [of ops dry "node_ips f" "status_by_name clusters" "dn_pools dns" d cs al] by simp
  with c ps show ?thesis by (cases y) (simp_all add: watch_once_def)
qed

lemma override_apply_noting:
  "override_apply (noting ops) a ip p (d, cs) = (res, d', cs') \<Longrightarrow> override_apply ops a ip p d = (res, d')"
  by (cases a) (auto simp: override_apply_def noting_def split: prod.splits sum.splits)

lemma override_pool_noting:
  "unnoted (override_pool (noting ops) a ip nm confirm p ((d, cs), al)) = override_pool ops a ip nm confirm p (d, al)"
proof -
  obtain x d1 where l: "list_members ops (pl_record p) d = (x, d1)" by fastforce
  then have l2: "list_members (noting ops) (pl_record p) (d, cs) = (x, d1, cs @ [Queried (pl_record p)])"
    by (simp add: noting_def)
  obtain y d2 cs2 where ap: "override_apply (noting ops) a ip p (d1, cs @ [Queried (pl_record p)]) = (y, d2, cs2)"
    by (metis prod_cases3)
  from override_apply_noting [OF this] show ?thesis
    by (cases x; cases y; cases confirm) (simp_all add: override_pool_def l l2 ap Let_def)
qed

lemma override_pools_noting:
  "unnoted (override_pools (noting ops) a ip nm confirm ps ((d, cs), al)) = override_pools ops a ip nm confirm ps (d, al)"
proof (induction ps arbitrary: d cs al)
  case (Cons p ps)
  obtain x d1 cs1 al1 where p: "override_pool (noting ops) a ip nm confirm p ((d, cs), al) = (x, (d1, cs1), al1)"
    by (metis surj_pair)
  then have p2: "override_pool ops a ip nm confirm p (d, al) = (x, d1, al1)"
    using override_pool_noting [of ops a ip nm confirm p d cs al] by simp
  obtain y d2 cs2 al2 where
    ps: "override_pools (noting ops) a ip nm confirm ps ((d1, cs1), al1) = (y, (d2, cs2), al2)"
    by (metis surj_pair)
  then have ps2: "override_pools ops a ip nm confirm ps (d1, al1) = (y, d2, al2)"
    using Cons.IH [of d1 cs1 al1] by simp
  show ?case by (cases x; cases y) (simp_all add: p p2 ps ps2)
qed simp

lemma dns_override_noting:
  "unnoted (dns_override f (noting ops) nm a rec confirm ((d, cs), al)) = dns_override f ops nm a rec confirm (d, al)"
proof (cases "find_node f nm")
  case None
  then show ?thesis by (simp add: dns_override_def)
next
  case (Some x)
  obtain cn c n where x: "x = (cn, c, n)" by (cases x)
  let ?ps = "pools_for_node f nm rec"
  obtain y d2 cs2 al2 where
    ps: "override_pools (noting ops) a (host n) nm confirm ?ps ((d, cs), al) = (y, (d2, cs2), al2)"
    by (metis surj_pair)
  then have "override_pools ops a (host n) nm confirm ?ps (d, al) = (y, d2, al2)"
    using override_pools_noting [of ops a "host n" nm confirm ?ps d cs al] by simp
  with Some x ps show ?thesis by (cases y) (simp_all add: dns_override_def Let_def)
qed

section \<open>Property\<close>

text \<open>The calls a run noted\<close>

definition new_calls :: "'r \<times> ('d \<times> dns_call list) \<times> 'l \<Rightarrow> dns_call list" where
  "new_calls x = snd (fst (snd x))"

definition pools_of :: "fleet \<Rightarrow> pool list" where
  "pools_of f = (case fl_dns f of None \<Rightarrow> [] | Some dns \<Rightarrow> dn_pools dns)"

text \<open>
  C9. The calls of a round and of an override stay confined whatever happens in between: the driver
  is any function of its state, so it may fail, answer wrongly, or work on a zone that other
  processes, a second loop or a manual override, change between two calls. Noting the calls changes
  nothing else. A round then adds to a record only addresses of members that pass their checks,
  removes only addresses of members that do not, from a pool in which another member passes, and
  changes a record only after its marker was ensured in the same operation; an override adds or
  removes only the address of its node, on the records of the pools the node is a member of. A dry
  run, and an override that is not confirmed, only asks.
\<close>

theorem calls_stay_confined:
  "unnoted (watch_once f (noting ops) dry (Inr clusters) ((d, []), al)) =
     watch_once f ops dry (Inr clusters) (d, al) \<and>
   confined (if dry then \<lambda>_. {} else may_add (node_ips f) (status_by_name clusters) (pools_of f))
     (if dry then \<lambda>_. {} else may_remove (node_ips f) (status_by_name clusters) (pools_of f)) {}
     (new_calls (watch_once f (noting ops) dry (Inr clusters) ((d, []), al))) \<and>
   unnoted (dns_override f (noting ops) nm a rec confirm ((d, []), al)) =
     dns_override f ops nm a rec confirm (d, al) \<and>
   confined (if confirm \<and> a = Restore then node_records f nm rec else (\<lambda>_. {}))
     (if confirm \<and> a = Eject then node_records f nm rec else (\<lambda>_. {})) {}
     (new_calls (dns_override f (noting ops) nm a rec confirm ((d, []), al)))"
proof -
  obtain r1 d1 cs1 al1 where w: "watch_once f (noting ops) dry (Inr clusters) ((d, []), al) = (r1, (d1, cs1), al1)"
    by (metis surj_pair)
  have "confined (if dry then \<lambda>_. {} else may_add (node_ips f) (status_by_name clusters) (pools_of f))
      (if dry then \<lambda>_. {} else may_remove (node_ips f) (status_by_name clusters) (pools_of f)) {} cs1"
  proof (cases "fl_dns f")
    case None
    with w show ?thesis by (simp add: watch_once_def)
  next
    case (Some dns)
    from watch_once_noted [OF w Some] Some show ?thesis by (cases dry) (simp_all add: noted_def pools_of_def)
  qed
  moreover obtain r2 d2 cs2 al2 where
    o: "dns_override f (noting ops) nm a rec confirm ((d, []), al) = (r2, (d2, cs2), al2)"
    by (metis surj_pair)
  from dns_override_noted [OF o] have "confined (if confirm \<and> a = Restore then node_records f nm rec else (\<lambda>_. {}))
      (if confirm \<and> a = Eject then node_records f nm rec else (\<lambda>_. {})) {} cs2" by (simp add: noted_def)
  ultimately show ?thesis
    unfolding w o new_calls_def fst_conv snd_conv watch_once_noting dns_override_noting
    using watch_once_noting [of f ops dry "Inr clusters" d "[]" al]
      dns_override_noting [of f ops nm a rec confirm d "[]" al]
    by (simp add: w o)
qed

end
