(* ===== verification/Policy_Limits.thy ===== *)
theory Policy_Limits
  imports Restart Upgrade Provision
begin

text \<open>
  A limit of the policy that nothing enforces: \<open>max_concurrent_restarts\<close> is read and validated, and no
  operation depends on it.
\<close>

definition limit_rules :: "int \<Rightarrow> policy_rules \<Rightarrow> policy_rules" where
  "limit_rules k rules = rules\<lparr>pr_max_concurrent_restarts := k\<rparr>"

definition limit_restarts :: "int \<Rightarrow> policy \<Rightarrow> policy" where
  "limit_restarts k pol = \<lparr>po_defaults = limit_rules k (po_defaults pol),
     po_clusters = map (\<lambda>(cn, rules). (cn, limit_rules k rules)) (po_clusters pol)\<rparr>"

lemma for_cluster_limited: "for_cluster (limit_restarts k pol) cn = limit_rules k (for_cluster pol cn)"
  by (simp add: for_cluster_def limit_restarts_def map_of_map split: option.split)

lemma limit_rules_simps [simp]:
  "pr_allowed_versions (limit_rules k rules) = pr_allowed_versions rules"
  "pr_min_disk_free_pct (limit_rules k rules) = pr_min_disk_free_pct rules"
  "pr_require_leader_window_minutes (limit_rules k rules) = pr_require_leader_window_minutes rules"
  by (simp_all add: limit_rules_def)

text \<open>Every function of the rules is the same on the limited ones\<close>

named_theorems same_rules \<open>functions that do not depend on the limit\<close>

lemma limited_checks [same_rules]:
  "version_allowed (limit_rules k rules) = version_allowed rules"
  "disk_free_ok (limit_rules k rules) = disk_free_ok rules"
  by (simp_all add: version_allowed_def disk_free_ok_def fun_eq_iff split: option.split)

lemma limited_preflight [same_rules]:
  "disk_check (limit_rules k rules) = disk_check rules"
  "restart_checks (limit_rules k rules) = restart_checks rules"
  "upgrade_preflight (limit_rules k rules) = upgrade_preflight rules"
  by (simp_all add: disk_check_def restart_checks_def upgrade_preflight_def same_rules fun_eq_iff)

lemma limited_plan [same_rules]: "restart_plan (limit_rules k rules) = restart_plan rules"
  unfolding restart_plan_def limit_rules_simps ..

lemma limited_cycles [same_rules]:
  "restart_cycle E (limit_rules k rules) = restart_cycle E rules"
  "upgrade_cycle E (limit_rules k rules) = upgrade_cycle E rules"
  unfolding restart_cycle_def upgrade_cycle_def limit_rules_simps by (rule refl)+

lemma limited_upgrade_checks [same_rules]:
  "upgrade_checks cn c n (limit_rules k rules) = upgrade_checks cn c n rules"
  unfolding upgrade_checks_def same_rules limit_rules_simps ..

lemma limited_execution [same_rules]:
  "restart_execute E sampler (limit_rules k rules) = restart_execute E sampler rules"
  "upgrade_swap E sampler (limit_rules k rules) = upgrade_swap E sampler rules"
  unfolding restart_execute_def upgrade_swap_def same_rules by (rule refl)+

lemma limited_upgrade_execute [same_rules]:
  "upgrade_execute E sampler (limit_rules k rules) = upgrade_execute E sampler rules"
  unfolding upgrade_execute_def same_rules ..

lemma limited_decided [same_rules]:
  "restart_decided E sampler (limit_rules k rules) = restart_decided E sampler rules"
  "upgrade_decided E sampler (limit_rules k rules) = upgrade_decided E sampler rules"
  "upgrade_decision (limit_rules k rules) = upgrade_decision rules"
  unfolding restart_decided_def upgrade_decided_def upgrade_decision_def same_rules by (rule refl)+

section \<open>No effect\<close>

text \<open>
  The limit on restarts at a time is never enforced: whatever \<open>max_concurrent_restarts\<close> is set to,
  a restart and an upgrade decide and do exactly the same, and a plan says the same.
\<close>

lemma restart_limit_has_no_effect:
  "restart_node E (limit_restarts k pol) sampler leader_fn f name confirm max_lag =
     restart_node E pol sampler leader_fn f name confirm max_lag \<and>
   execute_upgrade E (limit_restarts k pol) sampler f name v confirm max_lag force =
     execute_upgrade E pol sampler f name v confirm max_lag force \<and>
   plan_upgrade (limit_restarts k pol) f name v = plan_upgrade pol f name v"
  unfolding restart_node_def execute_upgrade_def plan_upgrade_def for_cluster_limited same_rules
    limit_rules_simps Let_def by (intro conjI refl)

end
