(* ===== verification/Spec2Isabelle.thy ===== *)
theory Spec2Isabelle
  imports Prelude Audit_Log Config Safety Effects Executor Schedule Probe Dns Watch Watch_Rounds
    Catchup Restart Builder Upgrade Dns_Override Provision
    Validate Voting Cloudflare Route53
    Watch_Converges Dns_Steps Results Status_Table Command_Line Mcp_Server
    Argparse Argparse_Flags Argparse_Reading Cli Cli_Parsing Harmless Loading System Cli_Main
    Mcp_Session Fronts Route53_Watch Dns_Calls Policy_Limits
begin

text \<open>
  A verification development of solfleet, a tool that operates a fleet of Solana nodes: it probes
  them, restarts, upgrades and provisions them over ssh, keeps their DNS pools, and records
  every change (the Python package \<open>src/src/solfleet\<close>). The theories translate the code, function
  by function, into executable definitions, and prove what the operations guarantee.

  \<^bold>\<open>The program and its parts.\<close> A configuration (\<open>config.py\<close>) names clusters of nodes, builder hosts
  and DNS pools. A policy (\<open>safety.py\<close>) and the gate decide whether an operation may execute;
  without a confirmation every operation is a dry run. The executor (\<open>executor.py\<close>) turns steps
  into ssh and scp commands. The probe (\<open>probe.py\<close>) and the leader schedule (\<open>schedule.py\<close>) ask the
  nodes' and the reference RPCs. On these stand the operations: restart, upgrade, DNS overrides
  (\<open>operations.py\<close>), builds (\<open>builder.py\<close>), provisioning (\<open>provision.py\<close>), validation
  (\<open>validate.py\<close>), vote status (\<open>voting.py\<close>) and the failover loop (\<open>watch.py\<close>), which share the DNS
  drivers (\<open>dns.py\<close>) and the audit log (\<open>audit.py\<close>). The command line (\<open>cli.py\<close>) and the MCP server
  (\<open>mcp_server.py\<close>) are two fronts of the same operations.

  \<^bold>\<open>How effects are modelled.\<close> A computation (\<open>Effects.io\<close>) maps a world, the trace of events so far
  and the audit log, to a result or a Python exception (\<open>exn\<close>) and a new world. Running a command,
  an RPC call, a pause and a temporary directory are events of the trace; what the outside
  answers is the environment \<open>env\<close>, an arbitrary function of the whole trace, so a theorem about
  every \<open>env\<close> covers every behaviour of hosts and RPCs. DNS drivers have a state of their own
  (\<open>'d\<close>) and operations \<open>'d \<Rightarrow> (exn + 'a) \<times> 'd\<close>. Coroutines that \<open>asyncio.gather\<close> runs are modelled
  in list order.

  \<^bold>\<open>Theories and the code they model.\<close>

  \<^item> \<open>Prelude\<close>: dicts as association lists in insertion order, the string functions of Python the
    code uses (\<open>split\<close>, \<open>splitlines\<close>, \<open>strip\<close>, \<open>partition\<close>, \<open>repr\<close>), decimal text, and their lemmas.

  \<^item> \<open>Audit_Log\<close>: \<open>audit.py\<close>; the table as a list of rows, the interface \<open>event_store\<close> of a log that
    only grows, interpreted on \<open>audit_put\<close>.

  \<^item> \<open>Config\<close>: \<open>config.py\<close>; records for the models, the validators in their order, the lookups.
    \<open>Safety\<close>: \<open>safety.py\<close>; policy rules, \<open>fnmatch\<close> globs, the disk floor, \<open>gate\<close>. \<open>Loading\<close>: \<open>load_fleet\<close> and
    \<open>load_policy\<close>.

  \<^item> \<open>Effects\<close>: computations, JSON-RPC, reading decoded JSON; the framing predicates \<open>adds\<close>, \<open>emits\<close>,
    \<open>doing\<close>, \<open>yields\<close> and their rule collections, from which later theories prove what is run.

  \<^item> \<open>Executor\<close>: \<open>executor.py\<close>; argv construction, inspection, the mutating steps. \<open>Schedule\<close>:
    \<open>schedule.py\<close>. \<open>Probe\<close>: \<open>probe.py\<close>.

  \<^item> \<open>Dns\<close>: the driver protocol and its contract, the locales \<open>dns_driver\<close> and \<open>reliable_driver\<close> (a
    driver that never raises), and the in-memory driver, which interprets both. \<open>Cloudflare\<close> and
    \<open>Route53\<close>: the two real drivers of \<open>dns.py\<close>, and \<open>make_driver\<close>.

  \<^item> \<open>Watch\<close>: \<open>watch.py\<close>, one round, over any driver; \<open>Watch_Rounds\<close>: what rounds and the loop
    guarantee; \<open>Watch_Converges\<close>: where the loop ends up.

  \<^item> \<open>Catchup\<close>, \<open>Restart\<close>, \<open>Upgrade\<close>, \<open>Dns_Override\<close>: the groups of \<open>operations.py\<close>; the locales
    \<open>quiet_sampler\<close> and \<open>observers\<close> say what the injected sampler and leader function may do, and are
    interpreted on the default ones. \<open>Builder\<close>: \<open>builder.py\<close>. \<open>Provision\<close>: \<open>provision.py\<close>.

  \<^item> \<open>Policy_Limits\<close>: the limit on concurrent restarts, which no operation depends on.

  \<^item> \<open>Route53_Watch\<close>: the loop and the overrides on the Route53 driver. \<open>Dns_Calls\<close>: the calls rounds and
    overrides make to any driver, one that other processes disturb included.

  \<^item> \<open>Dns_Steps\<close>: rounds, overrides and queries as one transition system over a driver's state.

  \<^item> \<open>Validate\<close>: \<open>validate.py\<close>; \<open>Voting\<close>: \<open>voting.py\<close>.

  \<^item> \<open>Results\<close>: the dicts the operations return; \<open>Status_Table\<close>: the texts of \<open>cli.py\<close>; \<open>Command_Line\<close>:
    its commands and exit codes; \<open>Mcp_Server\<close>: the tools of \<open>mcp_server.py\<close>.

  \<^item> \<open>Argparse\<close>: what the code uses of the standard library's \<open>argparse\<close>, as an interpreter of parsers
    that are data; \<open>Argparse_Flags\<close>: what can set a flag; \<open>Argparse_Reading\<close>: how well-formed
    arguments are read. \<open>Cli\<close>: the table of options of \<open>main\<close> in \<open>cli.py\<close> and the calls it leads to;
    \<open>Cli_Parsing\<close>: what confirms, and the command line of every call.

  \<^item> \<open>System\<close>: the hosts, databases and records both fronts work on; \<open>Cli_Main\<close>: \<open>main\<close> as a whole, with
    \<open>status --watch\<close>; \<open>Mcp_Session\<close>: calls of the server's tools with their defaults, and sessions of
    calls; \<open>Harmless\<close>: what operations do without a confirmation; \<open>Fronts\<close>: the fronts agree.

  \<^bold>\<open>What the theorems show.\<close> The failover loop refines an abstract reconciliation of the records,
  never empties one, keeps healthy members even when the driver fails in the middle, converges,
  ends, does nothing in a dry run and records exactly what it did; any history of rounds and
  manual overrides changes only marked records of configured pools and leaves every served
  record served. Whatever other processes do to the zone meanwhile, a round and an override make
  only calls within fixed bounds. Restart, upgrade, provisioning and bootstrap run exactly the
  commands of their plan, only past the gate, stop at the first failure that matters, and leave exactly one audit
  entry when they return; builds and the wait for catch-up always return. A disk is formatted
  only when it is configured, acknowledged and looked empty. Loading accepts exactly the
  well-formed fleets; a dry run predicts the refusal; the checks of validation, the vote status,
  the free leader windows and the exit codes are what their documentation says, and where they
  are not a theorem states what happens instead. Printed key=value lines are read back exactly.
  Only the words \<open>--confirm\<close> and \<open>--confir\<close> confirm on a command line, every call has a command line
  that is read back as it, and an MCP session, or a run of the program that starts no acting loop,
  only looks when nothing is confirmed: records, markers and hosts stay as they were. A command does what the MCP tool for the same
  request does, and its exit code is a function of the tool's answer.
  On a service that behaves as documented both real drivers keep the contract, Cloudflare on all
  records and Route53 on those written without a final dot, with its exact effect on record sets.

  \<^bold>\<open>Parameters and bounds.\<close> Not under \<open>src\<close>, and so parameters: reading YAML files and pydantic's
  parsing of fields (\<open>read\<close> and \<open>model\<close> of \<open>load_fleet\<close> and \<open>load_policy\<close>), \<open>subprocess\<close> and \<open>httpx\<close>
  (\<open>env\<close>), the HTTP client of the Cloudflare driver with the hypothesis \<open>cloudflare_api\<close>, the boto3 client with \<open>route53_api\<close> (each
  witnessed by a concrete service), the clock, the environment variables. For the whole program they
  are collected in the record \<open>setting\<close>. The three loops that may run for ever, \<open>watch_loop\<close>,
  \<open>wait_loop\<close> and \<open>watch_status\<close>, are partial functions of type option, and the theorems say when
  they return, or speak of runs that end; no fuel is used anywhere. Durations and amounts are exact
  rationals, rounded as \<open>round\<close> rounds, where the code has floats; slots and counts are Python's
  unbounded integers. Strings are lists of 8-bit characters, and the blank and line end
  characters are the ASCII ones. A dict with a fixed set of keys is a record, with a function that
  gives the dict.

  \<^bold>\<open>Not modelled.\<close> The texts of \<open>argparse\<close>'s help and usage errors, and the empty list it can leave
  for a version after two separators \<open>--\<close> (the result \<open>OddVersion\<close> of \<open>main\<close>); the MCP library, with its
  check of argument types; the time zone of timestamps and the SQL text of the log, since they only
  pass values on; what shell commands do to a host, which is the environment's answer; concurrent
  operations as interleavings, except that \<open>Dns_Calls\<close> bounds the driver calls of operations that
  others disturb and \<open>Dns_Steps\<close> shows one overlap (the server's session is one call after the
  other); tests, documentation and packaging.
\<close>

section \<open>Every change is audited\<close>

text \<open>
  The outcome of a command against the log it started with: a command that raises has recorded
  nothing, and one that returns exactly one entry, which names the operation, the target and the
  mode, unless the target is not known.
\<close>

definition audited_as ::
  "string \<Rightarrow> string \<Rightarrow> bool \<Rightarrow> bool \<Rightarrow> world \<Rightarrow> (exn + 'a) \<times> world \<Rightarrow> bool" where
  "audited_as op target confirm known w = (\<lambda>(res, w').
     if isl res \<or> \<not> known then logged w' = logged w
     else \<exists>e. logged w' = logged w @ [e] \<and> en_operation e = op \<and> en_node e = target \<and>
            en_mode e = (if confirm then ''execute'' else ''dry-run''))"

definition entry_names :: "string \<Rightarrow> string \<Rightarrow> bool \<Rightarrow> audit_entry \<Rightarrow> bool" where
  "entry_names op target confirm e \<longleftrightarrow> en_operation e = op \<and> en_node e = target \<and>
     en_mode e = (if confirm then ''execute'' else ''dry-run'')"

lemma audited_if_logged:
  assumes "\<And>res w'. m w = (res, w') \<Longrightarrow>
      logged w' = logged w @ (case res of Inl _ \<Rightarrow> [] | Inr r \<Rightarrow> [entry r])"
    and "yields (\<lambda>r. entry_names op target confirm (entry r)) m"
  shows "audited_as op target confirm True w (bind_io m (\<lambda>r. ret (k r)) w)"
proof -
  obtain res w' where run: "m w = (res, w')" by fastforce
  show ?thesis
  proof (cases res)
    case (Inl e)
    with assms(1) [OF run] run show ?thesis by (simp add: audited_as_def bind_io_def)
  next
    case (Inr r)
    with assms(1) [OF run] yieldsD [OF assms(2) run [unfolded Inr]] run show ?thesis
      by (simp add: audited_as_def entry_names_def bind_io_def ret_def)
  qed
qed

lemma audited_unknown: "m w = (Inr r, w) \<Longrightarrow> audited_as op target confirm False w (bind_io m (\<lambda>r. ret (k r)) w)"
  by (simp add: audited_as_def bind_io_def ret_def)

lemma restart_names:
  "find_node f name = Some (cn, c, n) \<Longrightarrow>
   yields (\<lambda>r. entry_names ''restart_node'' name confirm (restart_entry cn name r))
     (restart_node E pol sampler leader_fn f name confirm max_lag)"
  unfolding restart_node_def restart_decided_def Let_def
  by (auto simp: entry_names_def restart_entry_def entry_of_def intro!: yield_rules yields_recorded)

lemma upgrade_names:
  "find_node f name = Some (cn, c, n) \<Longrightarrow>
   yields (\<lambda>r. entry_names ''upgrade'' name confirm (upgrade_entry cn name r))
     (execute_upgrade E pol sampler f name v confirm max_lag force)"
  unfolding execute_upgrade_def upgrade_decided_def upgrade_execute_def upgrade_swap_def
    upgrade_decision_def Let_def
  by (auto simp: entry_names_def upgrade_entry_def entry_of_def intro!: yield_rules yields_recorded)

lemma provision_names:
  "find_node f name = Some (cn, c, n) \<Longrightarrow>
   yields (\<lambda>r. entry_names ''provision'' name confirm (provision_entry cn name r))
     (provision_node E sampler f name v confirm devices max_lag timeout)"
  unfolding provision_node_def provision_decided_def Let_def
  by (auto simp: entry_names_def provision_entry_def entry_of_def split: prod.split
      intro!: yield_rules yields_recorded)

lemma bootstrap_names:
  "find_builder f (Some name) = Some b \<Longrightarrow>
   yields (\<lambda>r. entry_names ''bootstrap_builder'' name confirm (bootstrap_entry name r))
     (bootstrap_builder E f name confirm)"
  unfolding bootstrap_builder_def bootstrap_decided_def Let_def
  by (auto simp: entry_names_def bootstrap_entry_def entry_of_def intro!: yield_rules yields_recorded)

text \<open>
  C13. Every change is audited: on a loaded fleet and an open log, restart, upgrade, provision and
  bootstrap, as a dry run or confirmed, refused or executed, append exactly one entry when they
  return, with the operation, the target and the mode, and none when the target is not known. A
  command that ends with an exception records nothing, whatever it had done.
\<close>

theorem changes_audited:
  assumes "audit w = Some al"
  shows "audited_as ''restart_node'' name confirm (find_node f name \<noteq> None) w
      (cmd_restart E (Inr f) pol name confirm w) \<and>
    audited_as ''upgrade'' name confirm (find_node f name \<noteq> None) w
      (cmd_upgrade E (Inr f) pol name version confirm force_build w) \<and>
    audited_as ''provision'' name confirm (find_node f name \<noteq> None) w
      (cmd_provision E (Inr f) name version confirm devices timeout w) \<and>
    audited_as ''bootstrap_builder'' name confirm (find_builder f (Some name) \<noteq> None) w
      (cmd_bootstrap_builder E (Inr f) name confirm w)"
proof -
  have nodes: "audited_as ''restart_node'' name confirm (find_node f name \<noteq> None) w
        (cmd_restart E (Inr f) pol name confirm w) \<and>
      audited_as ''upgrade'' name confirm (find_node f name \<noteq> None) w
        (cmd_upgrade E (Inr f) pol name version confirm force_build w) \<and>
      audited_as ''provision'' name confirm (find_node f name \<noteq> None) w
        (cmd_provision E (Inr f) name version confirm devices timeout w)"
  proof (cases "find_node f name")
    case None
    then show ?thesis
      unfolding cmd_restart_def cmd_upgrade_def cmd_provision_def lift_Inr_bind
      by (simp add: restart_node_def execute_upgrade_def provision_node_def ret_def bind_io_def
          audited_as_def)
  next
    case (Some x)
    obtain cn c n where x: "x = (cn, c, n)" by (cases x)
    note known = Some [unfolded x]
    have "audited_as ''restart_node'' name confirm True w (cmd_restart E (Inr f) pol name confirm w)"
      unfolding cmd_restart_def lift_Inr_bind
      by (rule audited_if_logged [OF _ restart_names [OF known]])
        (rule restart_audited [OF live.observers_axioms known assms])
    moreover have "audited_as ''upgrade'' name confirm True w
        (cmd_upgrade E (Inr f) pol name version confirm force_build w)"
      unfolding cmd_upgrade_def lift_Inr_bind
      by (rule audited_if_logged [OF _ upgrade_names [OF known]])
        (rule upgrade_audited [OF live.quiet_sampler_axioms known _ assms])
    moreover have "audited_as ''provision'' name confirm True w
        (cmd_provision E (Inr f) name version confirm devices timeout w)"
      unfolding cmd_provision_def lift_Inr_bind
      by (rule audited_if_logged [OF _ provision_names [OF known]])
        (rule provision_audited [OF live.quiet_sampler_axioms known _ assms])
    ultimately show ?thesis using known by simp
  qed
  have "audited_as ''bootstrap_builder'' name confirm (find_builder f (Some name) \<noteq> None) w
      (cmd_bootstrap_builder E (Inr f) name confirm w)"
  proof (cases "find_builder f (Some name)")
    case None
    then show ?thesis
      unfolding cmd_bootstrap_builder_def lift_Inr_bind
      by (simp add: bootstrap_builder_def ret_def bind_io_def audited_as_def)
  next
    case (Some b)
    have "audited_as ''bootstrap_builder'' name confirm True w (cmd_bootstrap_builder E (Inr f) name confirm w)"
      unfolding cmd_bootstrap_builder_def lift_Inr_bind
    proof (rule audited_if_logged [OF _ bootstrap_names [OF Some]])
      fix res w'
      assume "bootstrap_builder E f name confirm w = (res, w')"
      with bootstrap_logged [OF Some assms, of E confirm] show
        "logged w' = logged w @ (case res of Inl _ \<Rightarrow> [] | Inr r \<Rightarrow> [bootstrap_entry name r])" by auto
    qed
    with Some show ?thesis by simp
  qed
  with nodes show ?thesis by blast
qed

theorem changes_audited_witness:
  "\<exists>e. logged (snd (cmd_bootstrap_builder yes_env (Inr sample_fleet) ''b'' True
      \<lparr>trace = [], audit = Some (audit_init (\<lambda>_. ''t''))\<rparr>)) = [e] \<and> en_mode e = ''execute''"
proof -
  let ?w = "\<lparr>trace = [], audit = Some (audit_init (\<lambda>_. ''t''))\<rparr>"
  have a: "audit ?w = Some (audit_init (\<lambda>_. ''t''))" by simp
  have l: "logged ?w = []" by (simp add: logged_def audit_entries_def audit_init_def)
  have b: "find_builder sample_fleet (Some ''b'') \<noteq> None"
    by (simp add: find_builder_def sample_fleet_def)
  have r: "\<not> isl (fst (cmd_bootstrap_builder yes_env (Inr sample_fleet) ''b'' True ?w))"
    unfolding cmd_bootstrap_builder_def lift_Inr_bind
    by (simp add: bootstrap_builder_def find_builder_def sample_fleet_def bind_io_def ret_def run_def
        run_argv_def emit_def recorded_def bootstrap_decided_def split: prod.split sum.split)
  have "audited_as ''bootstrap_builder'' ''b'' True True ?w
      (cmd_bootstrap_builder yes_env (Inr sample_fleet) ''b'' True ?w)"
    using changes_audited [OF a, of "''b''" True sample_fleet yes_env] b by simp
  with r l show ?thesis
    by (cases "cmd_bootstrap_builder yes_env (Inr sample_fleet) ''b'' True ?w")
      (auto simp: audited_as_def)
qed

end
